theory Spec2Isabelle
  imports Complex_Main "HOL-Library.Multiset"
begin

section \<open>Strings and small helpers\<close>

text \<open>
  A JavaScript string is modelled as a HOL \<open>string\<close>: a list of 8-bit code units, that
  is, the Latin-1 part of UTF-16. On this range the white space of \<open>String.prototype.trim\<close>
  and of the regular expression class \<open>\s\<close> is TAB, LF, VT, FF, CR, SPACE and NBSP, and
  \<open>toLowerCase\<close> moves \<open>A..Z\<close> and the accented capitals \<open>0xC0..0xDE\<close> (without
  \<open>0xD7\<close>) up by 32. Numbers are the subject of the next section.
\<close>

definition is_ws :: "char \<Rightarrow> bool" where
  "is_ws c = ((of_char c :: nat) \<in> {9, 10, 11, 12, 13, 32, 160})"

definition is_digit :: "char \<Rightarrow> bool" where
  "is_digit c = (48 \<le> (of_char c :: nat) \<and> (of_char c :: nat) \<le> 57)"

definition trim :: "string \<Rightarrow> string" where
  "trim s = rev (dropWhile is_ws (rev (dropWhile is_ws s)))"

text \<open>\<^verbatim>\<open>const safe = (s, max=120) => String(s ?? '').trim().slice(0, max);\<close>\<close>

definition safe :: "string \<Rightarrow> nat \<Rightarrow> string" where
  "safe s mx = take mx (trim s)"

text \<open>\<^verbatim>\<open>const clamp = (n, a, b) => Math.max(a, Math.min(b, n));\<close>
  It is applied to the coordinates and sizes of the map only, which are integers far
  below \<open>2^53\<close>.\<close>

definition clamp :: "int \<Rightarrow> int \<Rightarrow> int \<Rightarrow> int" where
  "clamp n a b = max a (min b n)"

definition toLowerCase_char :: "char \<Rightarrow> char" where
  "toLowerCase_char c =
     (let n = (of_char c :: nat)
      in if (65 \<le> n \<and> n \<le> 90) \<or> (192 \<le> n \<and> n \<le> 222 \<and> n \<noteq> 215)
         then char_of (n + 32) else c)"

definition toLowerCase :: "string \<Rightarrow> string" where
  "toLowerCase s = map toLowerCase_char s"

text \<open>The integer that a string of decimal digits writes.\<close>

definition parse_digits :: "string \<Rightarrow> int" where
  "parse_digits s = foldl (\<lambda>a c. 10 * a + ((of_char c :: int) - 48)) 0 s"

text \<open>
  \<open>Array.prototype.sort\<close> with a comparator: the result is the stable arrangement in
  which \<open>a\<close> stands before \<open>b\<close> whenever the comparator is negative. A stable insertion
  sort computes that arrangement.
\<close>

fun insert_cmp :: "('a \<Rightarrow> 'a \<Rightarrow> int) \<Rightarrow> 'a \<Rightarrow> 'a list \<Rightarrow> 'a list" where
  "insert_cmp cmp x [] = [x]"
| "insert_cmp cmp x (y # ys) =
     (if cmp x y \<le> 0 then x # y # ys else y # insert_cmp cmp x ys)"

definition js_sort :: "('a \<Rightarrow> 'a \<Rightarrow> int) \<Rightarrow> 'a list \<Rightarrow> 'a list" where
  "js_sort cmp xs = foldr (insert_cmp cmp) xs []"

section \<open>Numbers\<close>

text \<open>
  A JavaScript number is an IEEE 754 double. The numbers that the server reads out of
  text with \<open>parseInt\<close> and \<open>Number\<close>, and the sums and differences it forms of them, are
  doubles with an integer value or an infinity: the text has been matched as decimal
  digits before, so \<open>NaN\<close> is never stored. They are the type \<open>number\<close>, where \<open>Fin i\<close> is the
  double of value \<open>i\<close>; the two zeros are equal under every comparison of the server and
  print alike, and both stand as \<open>Fin 0\<close>.

  \<open>round53 n\<close> is the value of the double nearest to an integer \<open>n \<ge> 0\<close>, were the exponent
  of a double unbounded: \<open>n\<close> itself when it has at most 53 significant bits, and otherwise
  \<open>n\<close> with the bits below the 53rd rounded away, to the nearest, a tie going to the even
  significand (round-to-nearest, ties-to-even, the one rounding mode of JavaScript).
\<close>

function bit_length :: "int \<Rightarrow> nat" where
  "bit_length n = (if n \<le> 0 then 0 else Suc (bit_length (n div 2)))"
  by pat_completeness auto

termination bit_length
  by (relation "measure (\<lambda>n. nat n)") auto

declare bit_length.simps [simp del]

definition round53 :: "int \<Rightarrow> int" where
  "round53 n =
     (if n < 2 ^ 53 then n
      else let k = bit_length n - 53; q = n div 2 ^ k; r = n mod 2 ^ k; h = 2 ^ (k - 1)
           in (if h < r \<or> (r = h \<and> odd q) then q + 1 else q) * 2 ^ k)"

datatype number = Fin int | PosInf | NegInf

text \<open>
  The Number value of a mathematical integer: the nearest double, and an infinity where
  the rounding reaches \<open>2^1024\<close>, that is, from \<open>2^1024 - 2^970\<close> on. \<open>parseInt(s, 10)\<close> and
  \<open>Number(s)\<close> of a string \<open>s\<close> of decimal digits, with or without a sign, are the Number
  value of the integer that \<open>s\<close> writes. (This is the conversion of Node.js, which rounds
  the whole numeral correctly; the language standard also lets an implementation read
  the digits after the twentieth as zeros.)
\<close>

definition to_number :: "int \<Rightarrow> number" where
  "to_number i =
     (let a = round53 \<bar>i\<bar>
      in if 2 ^ 1024 \<le> a then (if i < 0 then NegInf else PosInf)
         else Fin (if i < 0 then - a else a))"

text \<open>The comparisons \<open><=\<close> and \<open><\<close>, and \<open>Math.max\<close>.\<close>

fun num_le :: "number \<Rightarrow> number \<Rightarrow> bool" where
  "num_le (Fin a) (Fin b) = (a \<le> b)"
| "num_le NegInf y = True"
| "num_le x PosInf = True"
| "num_le (Fin a) NegInf = False"
| "num_le PosInf (Fin b) = False"
| "num_le PosInf NegInf = False"

definition num_less :: "number \<Rightarrow> number \<Rightarrow> bool" where
  "num_less x y = (\<not> num_le y x)"

definition num_max :: "number \<Rightarrow> number \<Rightarrow> number" where
  "num_max x y = (if num_le x y then y else x)"

text \<open>
  \<open>a + y\<close> for the double of integer value \<open>a\<close> and a number \<open>y\<close>: the exact sum, rounded.
  \<open>x - y\<close> for two numbers, where \<open>None\<close> stands for \<open>NaN\<close>, the difference of an infinity
  and itself.
\<close>

fun add_fin :: "int \<Rightarrow> number \<Rightarrow> number" where
  "add_fin a (Fin b) = to_number (a + b)"
| "add_fin a PosInf = PosInf"
| "add_fin a NegInf = NegInf"

fun num_minus :: "number \<Rightarrow> number \<Rightarrow> number option" where
  "num_minus (Fin a) (Fin b) = Some (to_number (a - b))"
| "num_minus PosInf PosInf = None"
| "num_minus NegInf NegInf = None"
| "num_minus PosInf y = Some PosInf"
| "num_minus NegInf y = Some NegInf"
| "num_minus (Fin a) PosInf = Some NegInf"
| "num_minus (Fin a) NegInf = Some PosInf"

text \<open>The natural number that a finite number is; used only where a check has bounded
  the number before.\<close>

fun fin_nat :: "number \<Rightarrow> nat" where
  "fin_nat (Fin i) = nat i"
| "fin_nat PosInf = 0"
| "fin_nat NegInf = 0"

text \<open>
  \<open>Array.prototype.sort\<close> reads the result \<open>v\<close> of its comparator through its sign, and
  takes \<open>NaN\<close> for \<open>0\<close>.
\<close>

fun sort_compare :: "number option \<Rightarrow> int" where
  "sort_compare None = 0"
| "sort_compare (Some (Fin i)) = sgn i"
| "sort_compare (Some PosInf) = 1"
| "sort_compare (Some NegInf) = - 1"

text \<open>
  A value of \<open>Math.random()\<close> is a double in \<open>[0, 1)\<close>, that is, \<open>m / 2^e\<close> with
  \<open>0 \<le> m < 2^53\<close>, \<open>m < 2^e\<close> and \<open>e \<le> 1074\<close>; it is the pair \<open>(m, e)\<close>. Its product with the
  double of a natural number \<open>s\<close> is the exact product rounded to 53 significant bits,
  \<open>round53 (m * s) / 2^e\<close> (below the normal range, where doubles are the multiples of
  \<open>2^-1074\<close>, the exact product is such a multiple and has fewer than 53 bits), and
  \<open>Math.floor\<close> of that is \<open>round53 (m * s) div 2^e\<close>.
\<close>

type_synonym random = "int \<times> nat"

definition is_random :: "random \<Rightarrow> bool" where
  "is_random r = (0 \<le> fst r \<and> fst r < 2 ^ 53 \<and> fst r < 2 ^ snd r \<and> snd r \<le> 1074)"

definition floor_random_times :: "random \<Rightarrow> nat \<Rightarrow> int" where
  "floor_random_times r s = round53 (fst r * int s) div 2 ^ snd r"

section \<open>Dice\<close>

text \<open>
  \<^verbatim>\<open>const DICE_ADV = /^(\d*)d(\d+)(k[hl](\d+))?([+\-]\d+)?$/i;\<close>

  The groups of a match: \<open>m[1]\<close>, \<open>m[2]\<close>, the letter of \<open>m[3]\<close> with \<open>m[4]\<close>, and the sign
  of \<open>m[5]\<close> with its digits. No class of the expression overlaps the character that may
  follow it, so the greedy left-to-right reading below finds the match whenever
  backtracking would.
\<close>

record dice_match =
  m1 :: string
  m2 :: string
  m34 :: "(char \<times> string) option"
  m5 :: "(char \<times> string) option"

definition match_keep :: "string \<Rightarrow> (char \<times> string) option \<times> string" where
  "match_keep s =
     (case s of
        k # hl # r \<Rightarrow>
          if toLowerCase_char k = CHR ''k''
             \<and> (toLowerCase_char hl = CHR ''h'' \<or> toLowerCase_char hl = CHR ''l'')
             \<and> takeWhile is_digit r \<noteq> []
          then (Some (hl, takeWhile is_digit r), dropWhile is_digit r)
          else (None, s)
      | _ \<Rightarrow> (None, s))"

definition match_mod :: "string \<Rightarrow> (char \<times> string) option \<times> string" where
  "match_mod s =
     (case s of
        sg # r \<Rightarrow>
          if (sg = CHR ''+'' \<or> sg = CHR ''-'') \<and> takeWhile is_digit r \<noteq> []
          then (Some (sg, takeWhile is_digit r), dropWhile is_digit r)
          else (None, s)
      | [] \<Rightarrow> (None, s))"

definition match_DICE_ADV :: "string \<Rightarrow> dice_match option" where
  "match_DICE_ADV s =
     (let g1 = takeWhile is_digit s; r1 = dropWhile is_digit s
      in case r1 of
           [] \<Rightarrow> None
         | d # r2 \<Rightarrow>
             if toLowerCase_char d \<noteq> CHR ''d'' then None
             else let g2 = takeWhile is_digit r2; r3 = dropWhile is_digit r2
                  in if g2 = [] then None
                     else let (kp, r4) = match_keep r3; (md, r5) = match_mod r4
                          in if r5 = [] then Some \<lparr>m1 = g1, m2 = g2, m34 = kp, m5 = md\<rparr>
                             else None)"

record roll_result =
  expression :: string
  rolls :: "int list"
  used :: "int list"
  modifier :: number
  total :: number

text \<open>
  The parameters that \<open>rollAdvanced\<close> reads off a match:
  \<^verbatim>\<open>
  const count = Math.max(1, parseInt(m[1] || '1', 10));
  const sides = parseInt(m[2], 10);
  const keepMode = m[3]?.slice(1,2); const keepN = m[4] ? parseInt(m[4],10) : null;
  const mod = m[5] ? parseInt(m[5], 10) : 0;
  \<close>
\<close>

definition dice_count :: "dice_match \<Rightarrow> number" where
  "dice_count m = num_max (Fin 1) (to_number (parse_digits (if m1 m = [] then ''1'' else m1 m)))"

definition dice_sides :: "dice_match \<Rightarrow> number" where
  "dice_sides m = to_number (parse_digits (m2 m))"

definition dice_keepMode :: "dice_match \<Rightarrow> char option" where
  "dice_keepMode m = map_option fst (m34 m)"

definition dice_keepN :: "dice_match \<Rightarrow> number option" where
  "dice_keepN m = map_option (\<lambda>(hl, ds). to_number (parse_digits ds)) (m34 m)"

definition dice_mod :: "dice_match \<Rightarrow> number" where
  "dice_mod m =
     (case m5 m of
        None \<Rightarrow> Fin 0
      | Some (sg, ds) \<Rightarrow>
          to_number (if sg = CHR ''-'' then - parse_digits ds else parse_digits ds))"

text \<open>
  \<open>Math.random()\<close> is a parameter: \<open>rnd k\<close> is the value of the \<open>k\<close>-th call, a double
  that the runtime draws from \<open>[0, 1)\<close>.

  \<^verbatim>\<open>
  const rolls = Array.from({length:count}, () => 1 + Math.floor(Math.random()*sides));
  let used = [...rolls];
  if (keepMode && keepN) { used.sort((a,b)=> keepMode==='h'? b-a : a-b); used = used.slice(0, keepN); }
  const total = used.reduce((a,b)=>a+b,0) + mod;
  return { expression: exprRaw, rolls, used, modifier: mod, total };
  \<close>

  A JavaScript number is falsy exactly when it is zero or \<open>NaN\<close>, so \<open>keepN\<close> passes the
  tests \<open>keepN && ...\<close> only when it is present and not \<open>0\<close>. Once the checks have passed,
  count, sides and keep count are at most \<open>100\<close>, \<open>1000\<close> and \<open>100\<close>; every roll is then an
  integer in \<open>[1, 1001]\<close>, so that the differences of the comparator and the sum of the
  rolls are exact, and only the addition of the modifier rounds.
\<close>

definition truthy_num :: "number option \<Rightarrow> bool" where
  "truthy_num k = (case k of None \<Rightarrow> False | Some n \<Rightarrow> n \<noteq> Fin 0)"

definition keep_cmp :: "char \<Rightarrow> int \<Rightarrow> int \<Rightarrow> int" where
  "keep_cmp keepMode a b = (if keepMode = CHR ''h'' then b - a else a - b)"

definition roll_values :: "(nat \<Rightarrow> random) \<Rightarrow> nat \<Rightarrow> nat \<Rightarrow> int list" where
  "roll_values rnd cnt sds = map (\<lambda>k. 1 + floor_random_times (rnd k) sds) [0..<cnt]"

definition roll_matched ::
  "(nat \<Rightarrow> random) \<Rightarrow> string \<Rightarrow> dice_match \<Rightarrow> string + roll_result" where
  "roll_matched rnd exprRaw m =
     (let cnt = dice_count m; sds = dice_sides m;
          keepMode = dice_keepMode m; keepN = dice_keepN m; md = dice_mod m
      in if num_less (Fin 100) cnt \<or> num_less (Fin 1000) sds
         then Inl ''Too big (<=100 dice, <=1000 sides).''
         else if truthy_num keepN \<and> (num_less (the keepN) (Fin 1) \<or> num_less cnt (the keepN))
              then Inl ''Keep out of range.''
         else let rs = roll_values rnd (fin_nat cnt) (fin_nat sds);
                  us = (if keepMode \<noteq> None \<and> truthy_num keepN
                        then take (fin_nat (the keepN)) (js_sort (keep_cmp (the keepMode)) rs)
                        else rs);
                  tot = add_fin (foldl (+) 0 us) md
              in Inr \<lparr>expression = exprRaw, rolls = rs, used = us,
                       modifier = md, total = tot\<rparr>)"

definition normalise_expr :: "string \<Rightarrow> string" where
  "normalise_expr exprRaw = toLowerCase (filter (\<lambda>c. \<not> is_ws c) (safe exprRaw 40))"

function rollAdvanced :: "(nat \<Rightarrow> random) \<Rightarrow> string \<Rightarrow> string + roll_result" where
  "rollAdvanced rnd exprRaw =
     (if normalise_expr exprRaw = ''adv'' \<or> normalise_expr exprRaw = ''d20adv''
      then rollAdvanced rnd ''2d20kh1''
      else if normalise_expr exprRaw = ''dis'' \<or> normalise_expr exprRaw = ''d20dis''
      then rollAdvanced rnd ''2d20kl1''
      else case match_DICE_ADV (normalise_expr exprRaw) of
             None \<Rightarrow> Inl ''Invalid dice. Try d20, 3d6+2, 4d6kh3, adv/dis.''
           | Some m \<Rightarrow> roll_matched rnd exprRaw m)"
  by pat_completeness auto

lemma normalise_2d20kh1: "normalise_expr ''2d20kh1'' = ''2d20kh1''"
  by code_simp

lemma normalise_2d20kl1: "normalise_expr ''2d20kl1'' = ''2d20kl1''"
  by code_simp

definition is_alias :: "string \<Rightarrow> bool" where
  "is_alias e = (e = ''adv'' \<or> e = ''d20adv'' \<or> e = ''dis'' \<or> e = ''d20dis'')"

termination rollAdvanced
proof (relation "measure (\<lambda>(rnd, raw). if is_alias (normalise_expr raw) then 1 else 0)")
  show "wf (measure (\<lambda>(rnd, raw). if is_alias (normalise_expr raw) then 1 else (0::nat)))"
    by simp
next
  fix rnd :: "nat \<Rightarrow> random" and exprRaw :: string
  assume "normalise_expr exprRaw = ''adv'' \<or> normalise_expr exprRaw = ''d20adv''"
  then show "((rnd, ''2d20kh1''), (rnd, exprRaw))
      \<in> measure (\<lambda>(rnd, raw). if is_alias (normalise_expr raw) then 1 else 0)"
    by (auto simp: is_alias_def normalise_2d20kh1)
next
  fix rnd :: "nat \<Rightarrow> random" and exprRaw :: string
  assume "normalise_expr exprRaw = ''dis'' \<or> normalise_expr exprRaw = ''d20dis''"
  then show "((rnd, ''2d20kl1''), (rnd, exprRaw))
      \<in> measure (\<lambda>(rnd, raw). if is_alias (normalise_expr raw) then 1 else 0)"
    by (auto simp: is_alias_def normalise_2d20kl1)
qed


declare rollAdvanced.simps [simp del]

text \<open>
  The expression that \<open>rollAdvanced\<close> finally reads: the aliases \<open>adv\<close> and \<open>dis\<close> restart the
  function on \<open>2d20kh1\<close> and \<open>2d20kl1\<close>.
\<close>

definition effective_raw :: "string \<Rightarrow> string" where
  "effective_raw raw =
     (if normalise_expr raw = ''adv'' \<or> normalise_expr raw = ''d20adv'' then ''2d20kh1''
      else if normalise_expr raw = ''dis'' \<or> normalise_expr raw = ''d20dis'' then ''2d20kl1''
      else raw)"

text \<open>Two random sources for concrete runs: a constant one and one that cycles through
  \<open>0, 1/4, 1/2, 3/4\<close>.\<close>

definition rnd_const :: "random \<Rightarrow> nat \<Rightarrow> random" where
  "rnd_const x k = x"

definition rnd_cycle :: "nat \<Rightarrow> random" where
  "rnd_cycle k = (int (k mod 4), 2)"

section \<open>The lobby session\<close>

text \<open>
  The server keeps one object per lobby (\<open>ensureLobby\<close>), and every socket handler is a
  closure over the connection's \<open>username\<close> and \<open>lobby\<close>. A handler is modelled as a
  function from the connection, the payload and the lobby object to the new lobby object
  and the list of emitted messages; a handler runs to its end before the next event is
  taken. A JavaScript \<open>Map\<close> is an association list in insertion order, a \<open>Set\<close> a HOL
  set. Keys that name properties of \<open>Object.prototype\<close> are outside the model.
\<close>

fun map_set :: "'k \<Rightarrow> 'v \<Rightarrow> ('k \<times> 'v) list \<Rightarrow> ('k \<times> 'v) list" where
  "map_set k v [] = [(k, v)]"
| "map_set k v ((k', v') # r) = (if k' = k then (k, v) # r else (k', v') # map_set k v r)"

definition map_delete :: "'k \<Rightarrow> ('k \<times> 'v) list \<Rightarrow> ('k \<times> 'v) list" where
  "map_delete k m = filter (\<lambda>e. fst e \<noteq> k) m"

definition map_get :: "('k \<times> 'v) list \<Rightarrow> 'k \<Rightarrow> 'v option" where
  "map_get m k = map_of m k"

text \<open>\<open>Array.prototype.find\<close>: the first element that satisfies the test.\<close>

definition js_find :: "('a \<Rightarrow> bool) \<Rightarrow> 'a list \<Rightarrow> 'a option" where
  "js_find P xs = List.find P xs"

text \<open>A string or \<open>null\<close> is falsy when it is \<open>null\<close> or empty.\<close>

definition falsy :: "string option \<Rightarrow> bool" where
  "falsy v = (v = None \<or> v = Some [])"

record chat_payload =
  chat_user :: string
  chat_text :: string
  chat_ts :: string

record roll_payload =
  roll_user :: string
  roll_res :: roll_result
  roll_ts :: string
  roll_lobby :: string

record combatant =
  c_name :: string
  init :: number

record encounter =
  active :: bool
  order :: "combatant list"
  turnIndex :: nat

record token =
  tok_id :: string
  tok_name :: string
  tok_x :: int
  tok_y :: int
  tok_color :: string
  tok_owner :: string

record game_map =
  map_w :: int
  map_h :: int
  tiles :: "int list list"
  tokens :: "(string \<times> token) list"

record choice =
  choice_id :: string
  choice_text :: string
  choice_to :: string

record scene =
  scene_id :: string
  scene_title :: string
  scene_content :: string
  choices :: "choice list"

record handout =
  handout_id :: string
  handout_title :: string
  handout_content :: string

record quest =
  quest_id :: string
  quest_title :: string
  quest_done :: bool

record camp_note =
  note_by :: string
  note_text :: string
  note_ts :: string

record campaign =
  title :: string
  summary :: string
  scenes :: "scene list"
  currentSceneId :: "string option"
  handouts :: "handout list"
  quests :: "quest list"
  camp_notes :: "camp_note list"

text \<open>\<^verbatim>\<open>consent: { pending: null }, // { choiceId, text, to, approvals:Set<username>, requestedAt }\<close>\<close>

record pending =
  p_choiceId :: string
  p_text :: string
  p_to :: string
  approvals :: "string set"
  requestedAt :: int

record settings =
  lockedUntilStart :: bool
  campaignStarted :: bool
  requireCharacter :: bool
  consent_pending :: "pending option"

text \<open>
  The password hash is the salt with the \<open>scrypt\<close> digest; the digest is modelled as the
  plain text it was derived from, so \<open>verifyPass\<close> succeeds exactly on the password that was
  hashed. The character sheets themselves play no part below: \<open>characters\<close> keeps the keys
  of the map.
\<close>

datatype credential = Credential string string

definition hashPass :: "string \<Rightarrow> string \<Rightarrow> credential" where
  "hashPass salt plain = Credential salt plain"

fun verifyPass :: "string \<Rightarrow> credential \<Rightarrow> bool" where
  "verifyPass plain (Credential salt digest) = (plain = digest)"

record lobby =
  gm :: "string option"
  passwordHash :: "credential option"
  bans :: "string set"
  users :: "(string \<times> string) list"
  macros :: "(string \<times> (string \<times> string) list) list"
  messages :: "chat_payload list"
  rolls_log :: "roll_payload list"
  characters :: "string list"
  encounter :: encounter
  game_map :: game_map
  campaign :: campaign
  settings :: settings

text \<open>The state of a connection: \<open>socket.id\<close> and the closure variables \<open>username\<close> and
  \<open>lobby\<close>.\<close>

record conn =
  sid :: string
  username :: string
  lobby :: "string option"

text \<open>What a handler takes from its surroundings: the clock, \<open>Math.random\<close>, the suffix
  of a generated identifier, the salt of a new password hash, and the digits that a
  template string prints for an integer of magnitude \<open>2^53\<close> or more (the shortest decimal
  numeral that reads back as the same double, in exponent notation from \<open>10^21\<close> on).\<close>

record env =
  env_now :: string
  env_now_ms :: int
  env_rnd :: "nat \<Rightarrow> random"
  env_rand36 :: string
  env_salt :: string
  env_digits :: "int \<Rightarrow> string"

text \<open>Emitted messages: \<open>socket.emit\<close> and \<open>io.to(id).emit\<close> address one socket,
  \<open>io.to(lobby).emit\<close> the room. The payload of \<open>state\<close>, \<open>map_state\<close>,
  \<open>campaign_state\<close> and \<open>characters\<close> is read off the lobby object at that moment and is
  not repeated here. Two more effects of a handler on a socket stand in the same list, in
  the order in which the code performs them: \<open>socket.join(room)\<close> and
  \<open>socket.leave(room)\<close>.\<close>

datatype target = To_socket string | To_lobby string

datatype message =
    Error_message string
  | System string
  | Chat chat_payload
  | Roll roll_payload
  | State
  | Map_state
  | Map_ping int int string string
  | Campaign_state
  | Characters
  | Campaign_started "string option"
  | Campaign_choice_requested string string string string string "string list"
  | Character_required string
  | Joined string "string option"
  | Identified string
  | Consent_force
  | Join_room string
  | Leave_room string

type_synonym emit = "target \<times> message"

text \<open>
  \<^verbatim>\<open>
  const defaultMap = () => ({ w: 20, h: 20, tiles: Array.from({length:20}, () => Array(20).fill(0)), tokens: {} });
  \<close>
\<close>

definition defaultMap :: game_map where
  "defaultMap = \<lparr>map_w = 20, map_h = 20, tiles = replicate 20 (replicate 20 0), tokens = []\<rparr>"

definition mk_choice :: "string \<Rightarrow> string \<Rightarrow> string \<Rightarrow> choice" where
  "mk_choice i t d = \<lparr>choice_id = i, choice_text = t, choice_to = d\<rparr>"

definition mk_scene :: "string \<Rightarrow> string \<Rightarrow> string \<Rightarrow> choice list \<Rightarrow> scene" where
  "mk_scene i t c cs = \<lparr>scene_id = i, scene_title = t, scene_content = c, choices = cs\<rparr>"

definition defaultCampaign :: campaign where
  "defaultCampaign =
     \<lparr>title = ''Embers of Argeth'',
      summary = ''Starter mini-campaign to verify scenes & consent flow.'',
      scenes =
        [mk_scene ''s_intro'' ''Arrival in Graywick''
           ''Foggy mining town; escort job & missing caravans.''
           [mk_choice ''c_intro_tavern'' ''Head to the Burnt Anvil tavern'' ''s_tavern'',
            mk_choice ''c_intro_board'' ''Study the notice board'' ''s_board''],
         mk_scene ''s_tavern'' ''The Burnt Anvil''
           ''Foreman offers 10 gp each to guard a wagon at dawn.''
           [mk_choice ''c_tavern_accept'' ''Accept the job (escort)'' ''s_road'',
            mk_choice ''c_tavern_market'' ''Wander the night market'' ''s_market''],
         mk_scene ''s_board'' ''Notice Board''
           ''Late caravans; red-eyed goblins near the Old Road.''
           [mk_choice ''c_board_investigate'' ''Investigate the Old Road'' ''s_road'',
            mk_choice ''c_board_ignore'' ''Ask around the market'' ''s_market''],
         mk_scene ''s_market'' ''Night Market''
           ''Lanterns sway; rumors of a glowing lighthouse.''
           [mk_choice ''c_market_lighthouse'' ''Scout the lighthouse'' ''s_lighthouse'',
            mk_choice ''c_market_sleep'' ''Rest then escort'' ''s_road''],
         mk_scene ''s_road'' ''Ambush on the Old Road''
           ''Goblins attack; tracks lead into woods.''
           [mk_choice ''c_road_track'' ''Follow the tracks'' ''s_cave'',
            mk_choice ''c_road_help'' ''Help wounded, return'' ''s_graywick''],
         mk_scene ''s_cave'' ''Gloomroot Cave''
           ''Glowing mushrooms, captives, a humming idol.''
           [mk_choice ''c_cave_rescue'' ''Rescue captives'' ''s_reward'',
            mk_choice ''c_cave_idol'' ''Smash the idol'' ''s_reward''],
         mk_scene ''s_lighthouse'' ''Ruined Lighthouse''
           ''Sealed hatch; old vault of Argeth.''
           [mk_choice ''c_lh_descend'' ''Descend into the vault'' ''s_reward''],
         mk_scene ''s_graywick'' ''Back to Graywick''
           ''Thanks & hints to finish the job.''
           [mk_choice ''c_graywick_road'' ''Return to the Old Road'' ''s_road''],
         mk_scene ''s_reward'' ''Aftermath'' ''Coin; rumors of the Ember Crown.'' []],
      currentSceneId = Some ''s_intro'',
      handouts =
        [\<lparr>handout_id = ''h_notice'', handout_title = ''Notice Board'',
          handout_content = ''Escort to mill at dawn. Pay: 10 gp each.''\<rparr>],
      quests =
        [\<lparr>quest_id = ''q_escort'', quest_title = ''Escort the supply wagon'',
          quest_done = False\<rparr>,
         \<lparr>quest_id = ''q_goblins'', quest_title = ''Find the missing caravans'',
          quest_done = False\<rparr>],
      camp_notes = []\<rparr>"

definition defaultSettings :: settings where
  "defaultSettings =
     \<lparr>lockedUntilStart = True, campaignStarted = False, requireCharacter = True,
      consent_pending = None\<rparr>"

text \<open>The object that \<open>ensureLobby\<close> stores for a name it has not seen.\<close>

definition new_lobby :: lobby where
  "new_lobby =
     \<lparr>gm = None, passwordHash = None, bans = {}, users = [], macros = [], messages = [],
      rolls_log = [], characters = [],
      encounter = \<lparr>active = False, order = [], turnIndex = 0\<rparr>,
      game_map = defaultMap, campaign = defaultCampaign, settings = defaultSettings\<rparr>"

definition user_names :: "lobby \<Rightarrow> string list" where
  "user_names L = map snd (users L)"

text \<open>\<^verbatim>\<open>const isLockedForPlayers = (L) => L.settings.lockedUntilStart && !L.settings.campaignStarted;
const isGM = (L) => L.gm === username;\<close>\<close>

definition isLockedForPlayers :: "lobby \<Rightarrow> bool" where
  "isLockedForPlayers L = (lockedUntilStart (settings L) \<and> \<not> campaignStarted (settings L))"

definition isGM :: "conn \<Rightarrow> lobby \<Rightarrow> bool" where
  "isGM c L = (gm L = Some (username c))"

definition to_caller :: "conn \<Rightarrow> message \<Rightarrow> emit" where
  "to_caller c m = (To_socket (sid c), m)"

definition to_room :: "string \<Rightarrow> message \<Rightarrow> emit" where
  "to_room nm m = (To_lobby nm, m)"

text \<open>\<open>emitState\<close> and \<open>emitMap\<close>, called where the connection has a lobby.\<close>

definition emitState :: "string \<Rightarrow> emit list" where
  "emitState nm = [to_room nm State]"

definition emitMap :: "string \<Rightarrow> emit list" where
  "emitMap nm = [to_room nm Map_state]"

section \<open>Numbers in template strings\<close>

text \<open>A non-negative integer below \<open>2^53\<close> inside a template string is written in
  decimal.\<close>

function string_of_nat :: "nat \<Rightarrow> string" where
  "string_of_nat n =
     (if n < 10 then [char_of (48 + n)]
      else string_of_nat (n div 10) @ [char_of (48 + n mod 10)])"
  by pat_completeness auto

termination string_of_nat
  by (relation "measure (\<lambda>n. n)") auto

declare string_of_nat.simps [simp del]

definition string_of_int :: "int \<Rightarrow> string" where
  "string_of_int i = (if i < 0 then CHR ''-'' # string_of_nat (nat (- i)) else string_of_nat (nat i))"

text \<open>A number inside a template string.\<close>

definition number_text :: "env \<Rightarrow> number \<Rightarrow> string" where
  "number_text e v =
     (case v of
        Fin i \<Rightarrow> if \<bar>i\<bar> < 2 ^ 53 then string_of_int i else env_digits e i
      | PosInf \<Rightarrow> ''Infinity''
      | NegInf \<Rightarrow> ''-Infinity'')"

section \<open>Joining and leaving\<close>

text \<open>
  \<^verbatim>\<open>
  const joinOk = (L, name) => !L.bans.has((name||'').toLowerCase());
  const uniqueName = (L, base) => {
    let nm = base || 'Anon';
    if (![...L.users.values()].some(u => u.name === nm)) return nm;
    let i=2; while ([...L.users.values()].some(u=>u.name===`${base}${i}`)) i++;
    return `${base}${i}`;
  };
  \<close>
  The loop ends because the names \<open>base2, base3, ...\<close> are pairwise different and the lobby
  has finitely many members; the termination proof below says so. (The counter is a
  double, and exact as long as the lobby has fewer than \<open>2^53\<close> entries.)
\<close>

definition joinOk :: "lobby \<Rightarrow> string \<Rightarrow> bool" where
  "joinOk L nm = (toLowerCase nm \<notin> bans L)"

lemma parse_digits_snoc:
  "parse_digits (xs @ [c]) = 10 * parse_digits xs + ((of_char c :: int) - 48)"
  by (simp add: parse_digits_def)

lemma of_char_digit: "n < 10 \<Longrightarrow> (of_char (char_of (48 + n :: nat)) :: int) = 48 + int n"
proof -
  assume n: "n < 10"
  have "(of_char (char_of (48 + n)) :: int) = int (of_char (char_of (48 + n)))"
    by (rule of_nat_of_char [symmetric])
  also have "\<dots> = int ((48 + n) mod 256)" by simp
  also have "\<dots> = 48 + int n" using n by simp
  finally show ?thesis .
qed

lemma parse_digits_string_of_nat: "parse_digits (string_of_nat n) = int n"
proof (induction n rule: string_of_nat.induct)
  case (1 n)
  show ?case
  proof (cases "n < 10")
    case True
    then show ?thesis
      by (subst string_of_nat.simps) (simp add: parse_digits_def of_char_digit)
  next
    case False
    have d: "(of_char (char_of (48 + n mod 10)) :: int) = 48 + int (n mod 10)"
      by (rule of_char_digit) simp
    have "int n = 10 * int (n div 10) + int (n mod 10)"
      by (metis of_nat_add of_nat_mult of_nat_numeral mult_div_mod_eq)
    with False 1 d show ?thesis
      by (subst string_of_nat.simps) (simp add: parse_digits_snoc)
  qed
qed

lemma string_of_nat_inj: "string_of_nat i = string_of_nat j \<Longrightarrow> i = j"
  by (metis parse_digits_string_of_nat of_nat_eq_iff)

function uniqueName_loop :: "string list \<Rightarrow> string \<Rightarrow> nat \<Rightarrow> nat" where
  "uniqueName_loop names base i =
     (if base @ string_of_nat i \<in> set names then uniqueName_loop names base (Suc i) else i)"
  by pat_completeness auto

termination uniqueName_loop
proof (relation "measure (\<lambda>(names, base, i).
                   card {j. i \<le> j \<and> base @ string_of_nat j \<in> set names})")
  show "wf (measure (\<lambda>(names, base, i).
                   card {j. i \<le> j \<and> base @ string_of_nat j \<in> set names}))"
    by simp
next
  fix names :: "string list" and base :: string and i :: nat
  assume taken: "base @ string_of_nat i \<in> set names"
  let ?A = "\<lambda>k. {j. k \<le> j \<and> base @ string_of_nat j \<in> set names}"
  have inj: "inj_on (\<lambda>j. base @ string_of_nat j) (?A i)"
    by (auto simp: inj_on_def dest: string_of_nat_inj)
  have "(\<lambda>j. base @ string_of_nat j) ` ?A i \<subseteq> set names" by auto
  then have "finite ((\<lambda>j. base @ string_of_nat j) ` ?A i)"
    by (rule finite_subset) simp
  with inj have fin: "finite (?A i)" by (rule finite_imageD [rotated])
  have "i \<in> ?A i" using taken by simp
  moreover have "i \<notin> ?A (Suc i)" by simp
  moreover have "?A (Suc i) \<subseteq> ?A i" by auto
  ultimately have "?A (Suc i) \<subset> ?A i" by blast
  with fin have "card (?A (Suc i)) < card (?A i)" by (rule psubset_card_mono)
  then show "((names, base, Suc i), (names, base, i))
      \<in> measure (\<lambda>(names, base, i). card {j. i \<le> j \<and> base @ string_of_nat j \<in> set names})"
    by simp
qed

declare uniqueName_loop.simps [simp del]

definition uniqueName :: "lobby \<Rightarrow> string \<Rightarrow> string" where
  "uniqueName L base =
     (let nm = (if base = [] then ''Anon'' else base)
      in if nm \<notin> set (user_names L) then nm
         else base @ string_of_nat (uniqueName_loop (user_names L) base 2))"

text \<open>
  \<^verbatim>\<open>
  socket.on('join_lobby', async ({ lobby: lobbyName, password })=>{
    lobbyName = safe(lobbyName || 'tavern', 40) || 'tavern';
    const L = ensureLobby(lobbyName);
    if (!joinOk(L, username)) { socket.emit('error_message','You are banned from this lobby.'); return; }
    if (L.passwordHash) {
      if (!password || !verifyPass(password, L.passwordHash)) { socket.emit('error_message','Lobby is locked (wrong password).'); return; }
    } else if (password) {
      L.passwordHash = hashPass(password);
      if (!L.gm) L.gm = username;
      await upsertLobbyMeta(lobbyName, { password:true, gm:L.gm });
    } else if (!L.gm) {
      L.gm = username; // first-join GM
    }
    if (lobby) socket.leave(lobby);
    lobby = lobbyName;
    username = uniqueName(L, username);
    L.users.set(socket.id, { name: username });
    socket.join(lobby);
    const history = { messages: L.messages.slice(-40), rolls: L.rolls.slice(-40) };
    socket.emit('joined', { lobby, history, gm: L.gm, settings: L.settings });
    io.to(lobby).emit('system', `${username} joined ${lobby}`);
    if (L.settings.requireCharacter && !L.characters.has(username)) {
      io.to(socket.id).emit('character_required', { reason: 'GM requires a character before playing.' });
    }
    emitState(); emitMap();
  });
  \<close>
  The lobby object \<open>L\<close> is the one that \<open>ensureLobby\<close> returns for the resolved name. The
  handler returns the connection's new closure variables as well.
\<close>

text \<open>
  \<^verbatim>\<open>socket.on('identify', ({name})=>{ username = safe(name || 'Anon', 24); socket.emit('identified', { username }); });\<close>
\<close>

definition identify :: "conn \<Rightarrow> string \<Rightarrow> conn \<times> emit list" where
  "identify c nm =
     (let u = safe (if nm = [] then ''Anon'' else nm) 24
      in (c\<lparr>username := u\<rparr>, [to_caller c (Identified u)]))"

definition resolve_lobbyName :: "string \<Rightarrow> string" where
  "resolve_lobbyName raw =
     (let n = safe (if raw = [] then ''tavern'' else raw) 40
      in if n = [] then ''tavern'' else n)"

definition join_enter :: "conn \<Rightarrow> string \<Rightarrow> lobby \<Rightarrow> conn \<times> lobby \<times> emit list" where
  "join_enter c nm L =
     (let uname = uniqueName L (username c);
          c' = c\<lparr>lobby := Some nm, username := uname\<rparr>;
          L' = L\<lparr>users := map_set (sid c) uname (users L)\<rparr>
      in (c', L',
          (case lobby c of None \<Rightarrow> [] | Some old \<Rightarrow> [to_caller c (Leave_room old)])
          @ [to_caller c (Join_room nm),
             to_caller c (Joined nm (gm L')),
             to_room nm (System (uname @ '' joined '' @ nm))]
          @ (if requireCharacter (settings L') \<and> uname \<notin> set (characters L')
             then [to_caller c (Character_required ''GM requires a character before playing.'')]
             else [])
          @ emitState nm @ emitMap nm))"

definition join_lobby ::
  "env \<Rightarrow> conn \<Rightarrow> string \<Rightarrow> string option \<Rightarrow> lobby \<Rightarrow> conn \<times> lobby \<times> emit list" where
  "join_lobby e c lobbyName password L =
     (let nm = resolve_lobbyName lobbyName
      in if \<not> joinOk L (username c)
         then (c, L, [to_caller c (Error_message ''You are banned from this lobby.'')])
         else case passwordHash L of
                Some stored \<Rightarrow>
                  if falsy password \<or> \<not> verifyPass (the password) stored
                  then (c, L, [to_caller c (Error_message ''Lobby is locked (wrong password).'')])
                  else join_enter c nm L
              | None \<Rightarrow>
                  if \<not> falsy password
                  then join_enter c nm
                         (L\<lparr>passwordHash := Some (hashPass (env_salt e) (the password)),
                            gm := (if falsy (gm L) then Some (username c) else gm L)\<rparr>)
                  else if falsy (gm L)
                  then join_enter c nm (L\<lparr>gm := Some (username c)\<rparr>)
                  else join_enter c nm L)"

text \<open>
  \<^verbatim>\<open>
  socket.on('disconnect', ()=>{
    if (!lobby) return;
    const L = ensureLobby(lobby);
    L.users.delete(socket.id);
    io.to(lobby).emit('system', `${username} left`);
    emitState();
  });
  \<close>
\<close>

definition disconnect :: "conn \<Rightarrow> lobby \<Rightarrow> lobby \<times> emit list" where
  "disconnect c L =
     (case lobby c of
        None \<Rightarrow> (L, [])
      | Some nm \<Rightarrow>
          (L\<lparr>users := map_delete (sid c) (users L)\<rparr>,
           [to_room nm (System (username c @ '' left''))] @ emitState nm))"

section \<open>Dice rolls\<close>

text \<open>
  \<^verbatim>\<open>
  socket.on('roll', async ({expression})=>{
    if (!lobby) return;
    const L = ensureLobby(lobby);
    if (isLockedForPlayers(L) && !isGM(L)) { socket.emit('error_message','Campaign not started by GM yet.'); return; }
    try{
      const res = rollAdvanced(expression || 'd20');
      const payload = { user: username, ...res, ts: nowISO(), lobby };
      io.to(lobby).emit('roll', payload);
      L.rolls.push(payload);
    }catch(e){ socket.emit('error_message', e.message || 'Bad dice expression.'); }
  });
  \<close>
\<close>

definition do_roll ::
  "env \<Rightarrow> conn \<Rightarrow> string \<Rightarrow> string \<Rightarrow> string \<Rightarrow> lobby \<Rightarrow> lobby \<times> emit list" where
  "do_roll e c nm fallback expr L =
     (case rollAdvanced (env_rnd e) (if expr = [] then ''d20'' else expr) of
        Inr res \<Rightarrow>
          (let payload = \<lparr>roll_user = username c, roll_res = res, roll_ts = env_now e,
                          roll_lobby = nm\<rparr>
           in (L\<lparr>rolls_log := rolls_log L @ [payload]\<rparr>, [to_room nm (Roll payload)]))
      | Inl msg \<Rightarrow>
          (L, [to_caller c (Error_message (if msg = [] then fallback else msg))]))"

definition roll :: "env \<Rightarrow> conn \<Rightarrow> string \<Rightarrow> lobby \<Rightarrow> lobby \<times> emit list" where
  "roll e c expr L =
     (case lobby c of
        None \<Rightarrow> (L, [])
      | Some nm \<Rightarrow>
          if isLockedForPlayers L \<and> \<not> isGM c L
          then (L, [to_caller c (Error_message ''Campaign not started by GM yet.'')])
          else do_roll e c nm ''Bad dice expression.'' expr L)"

section \<open>The map\<close>

text \<open>
  A number in a payload is modelled by what \<open>parseInt(v, 10)\<close> makes of it: an integer, or
  \<open>None\<close> for \<open>NaN\<close> (a missing or non-numeric field). \<open>parseInt(v||d,10)||d\<close> then falls
  back to \<open>d\<close> when the field is missing or the number is \<open>0\<close>, and \<open>parseInt(v,10)||0\<close> is
  \<open>0\<close> when it is missing. Each of these numbers is clamped into the small range of the
  map before it is used; an infinite result of \<open>parseInt\<close> acts there as every integer
  beyond that range does, and stands as one.
\<close>

definition int_or :: "int \<Rightarrow> int option \<Rightarrow> int" where
  "int_or d v = (case v of None \<Rightarrow> d | Some n \<Rightarrow> if n = 0 then d else n)"

text \<open>\<open>tiles[y]?.[x] ?? 0\<close>: a cell outside the arrays reads as open.\<close>

definition tile_at :: "int list list \<Rightarrow> int \<Rightarrow> int \<Rightarrow> int" where
  "tile_at ts y x =
     (if 0 \<le> y \<and> nat y < length ts \<and> 0 \<le> x \<and> nat x < length (ts ! nat y)
      then ts ! nat y ! nat x else 0)"

text \<open>
  \<^verbatim>\<open>
  socket.on('map_init', ({w,h})=>{
    if (!lobby) return;
    const L = ensureLobby(lobby);
    if (!isGM(L)) { socket.emit('error_message','GM only.'); return; }
    w = clamp(parseInt(w||20,10)||20, 5, 60);
    h = clamp(parseInt(h||20,10)||20, 5, 60);
    L.map = { w, h, tiles: Array.from({length:h},()=>Array(w).fill(0)), tokens: {} };
    io.to(lobby).emit('system', `Map set to ${w}x${h}`);
    emitMap();
  });
  \<close>
  The sign between the two numbers of the message is the multiplication sign U+00D7 in the
  source.
\<close>

definition map_init :: "conn \<Rightarrow> int option \<Rightarrow> int option \<Rightarrow> lobby \<Rightarrow> lobby \<times> emit list" where
  "map_init c w h L =
     (case lobby c of
        None \<Rightarrow> (L, [])
      | Some nm \<Rightarrow>
          if \<not> isGM c L then (L, [to_caller c (Error_message ''GM only.'')])
          else let w' = clamp (int_or 20 w) 5 60; h' = clamp (int_or 20 h) 5 60
               in (L\<lparr>game_map := \<lparr>map_w = w', map_h = h',
                                    tiles = replicate (nat h') (replicate (nat w') 0),
                                    tokens = []\<rparr>\<rparr>,
                   [to_room nm (System (''Map set to '' @ string_of_int w' @ [CHR 0xD7]
                                         @ string_of_int h'))]
                   @ emitMap nm))"

text \<open>
  \<^verbatim>\<open>
  socket.on('map_set', ({x,y,val})=>{
    if (!lobby) return;
    const L = ensureLobby(lobby);
    if (!isGM(L)) { socket.emit('error_message','GM only.'); return; }
    const {w,h} = L.map;
    x = clamp(parseInt(x,10)||0, 0, w-1); y = clamp(parseInt(y,10)||0, 0, h-1);
    if (!Array.isArray(L.map.tiles[y])) return;
    L.map.tiles[y][x] = val ? 1 : 0;
    emitMap();
  });
  \<close>
  A write beyond the end of a row extends the row; the cells in between are holes, which
  every read in the server treats as open, and they stand as \<open>0\<close> here.
\<close>

definition row_set :: "int list \<Rightarrow> nat \<Rightarrow> int \<Rightarrow> int list" where
  "row_set row x v =
     (if x < length row then row[x := v] else row @ replicate (x - length row) 0 @ [v])"

definition map_set_tile :: "conn \<Rightarrow> int option \<Rightarrow> int option \<Rightarrow> bool \<Rightarrow> lobby \<Rightarrow> lobby \<times> emit list" where
  "map_set_tile c x y val L =
     (case lobby c of
        None \<Rightarrow> (L, [])
      | Some nm \<Rightarrow>
          if \<not> isGM c L then (L, [to_caller c (Error_message ''GM only.'')])
          else let m = game_map L;
                   x' = clamp (case x of None \<Rightarrow> 0 | Some n \<Rightarrow> n) 0 (map_w m - 1);
                   y' = clamp (case y of None \<Rightarrow> 0 | Some n \<Rightarrow> n) 0 (map_h m - 1)
               in if \<not> (nat y' < length (tiles m)) then (L, [])
                  else (L\<lparr>game_map := m\<lparr>tiles :=
                            (tiles m)[nat y' := row_set (tiles m ! nat y') (nat x')
                                                  (if val then 1 else 0)]\<rparr>\<rparr>,
                        emitMap nm))"

text \<open>
  \<^verbatim>\<open>
  socket.on('token_add', ({id,name,color})=>{
    if (!lobby) return;
    const L = ensureLobby(lobby);
    if (isLockedForPlayers(L) && !isGM(L)) { socket.emit('error_message','Campaign not started by GM yet.'); return; }
    const {w,h} = L.map;
    const tid = safe(id||`t_${Date.now()}_${Math.random().toString(36).slice(2,7)}`, 40);
    const nm = safe(name || username, 24);
    let x=0,y=0;
    outer: for (let yy=0; yy<h; yy++) for (let xx=0; xx<w; xx++) {
      if ((L.map.tiles[yy]?.[xx] ?? 0)===0 && !Object.values(L.map.tokens).some(t=>t.x===xx&&t.y===yy)) { x=xx; y=yy; break outer; }
    }
    L.map.tokens[tid] = { id:tid, name:nm, x, y, color: safe(color||'#222', 16), owner: username };
    emitMap();
  });
  \<close>
\<close>

definition cells :: "game_map \<Rightarrow> (int \<times> int) list" where
  "cells m = concat (map (\<lambda>yy. map (\<lambda>xx. (int yy, int xx)) [0..<nat (map_w m)]) [0..<nat (map_h m)])"

definition free_cell :: "game_map \<Rightarrow> int \<times> int \<Rightarrow> bool" where
  "free_cell m p =
     (tile_at (tiles m) (fst p) (snd p) = 0
      \<and> \<not> list_ex (\<lambda>t. tok_x t = snd p \<and> tok_y t = fst p) (map snd (tokens m)))"

definition token_add ::
  "env \<Rightarrow> conn \<Rightarrow> string \<Rightarrow> string \<Rightarrow> string \<Rightarrow> lobby \<Rightarrow> lobby \<times> emit list" where
  "token_add e c tid0 tname color L =
     (case lobby c of
        None \<Rightarrow> (L, [])
      | Some nm \<Rightarrow>
          if isLockedForPlayers L \<and> \<not> isGM c L
          then (L, [to_caller c (Error_message ''Campaign not started by GM yet.'')])
          else let m = game_map L;
                   tid = safe (if tid0 = []
                               then ''t_'' @ string_of_int (env_now_ms e) @ ''_''
                                    @ take 5 (env_rand36 e)
                               else tid0) 40;
                   tn = safe (if tname = [] then username c else tname) 24;
                   (y, x) = (case List.find (free_cell m) (cells m) of
                               None \<Rightarrow> (0, 0) | Some p \<Rightarrow> p);
                   tok = \<lparr>tok_id = tid, tok_name = tn, tok_x = x, tok_y = y,
                          tok_color = safe (if color = [] then ''#222'' else color) 16,
                          tok_owner = username c\<rparr>
               in (L\<lparr>game_map := m\<lparr>tokens := map_set tid tok (tokens m)\<rparr>\<rparr>, emitMap nm))"

text \<open>
  \<^verbatim>\<open>
  socket.on('token_move', ({id,x,y})=>{
    if (!lobby) return;
    const L = ensureLobby(lobby);
    if (isLockedForPlayers(L) && !isGM(L)) { socket.emit('error_message','Campaign not started by GM yet.'); return; }
    const tok = L.map.tokens?.[id];
    if (!tok) return;
    if (!isGM(L) && tok.owner !== username) { socket.emit('error_message','Only owner or GM can move this token.'); return; }
    const {w,h,tiles} = L.map;
    x = clamp(parseInt(x,10)||0, 0, w-1); y = clamp(parseInt(y,10)||0, 0, h-1);
    if ((tiles?.[y]?.[x] ?? 0)===1) return; // wall
    tok.x = x; tok.y = y;
    emitMap();
  });
  \<close>
\<close>

definition token_move ::
  "conn \<Rightarrow> string \<Rightarrow> int option \<Rightarrow> int option \<Rightarrow> lobby \<Rightarrow> lobby \<times> emit list" where
  "token_move c tid x y L =
     (case lobby c of
        None \<Rightarrow> (L, [])
      | Some nm \<Rightarrow>
          if isLockedForPlayers L \<and> \<not> isGM c L
          then (L, [to_caller c (Error_message ''Campaign not started by GM yet.'')])
          else case map_get (tokens (game_map L)) tid of
                 None \<Rightarrow> (L, [])
               | Some tok \<Rightarrow>
                   if \<not> isGM c L \<and> tok_owner tok \<noteq> username c
                   then (L, [to_caller c
                               (Error_message ''Only owner or GM can move this token.'')])
                   else let m = game_map L;
                            x' = clamp (case x of None \<Rightarrow> 0 | Some n \<Rightarrow> n) 0 (map_w m - 1);
                            y' = clamp (case y of None \<Rightarrow> 0 | Some n \<Rightarrow> n) 0 (map_h m - 1)
                        in if tile_at (tiles m) y' x' = 1 then (L, [])
                           else (L\<lparr>game_map := m\<lparr>tokens :=
                                     map_set tid (tok\<lparr>tok_x := x', tok_y := y'\<rparr>) (tokens m)\<rparr>\<rparr>,
                                 emitMap nm))"

text \<open>
  \<^verbatim>\<open>
  socket.on('token_remove', ({id})=>{
    if (!lobby) return;
    const L = ensureLobby(lobby);
    if (isLockedForPlayers(L) && !isGM(L)) { socket.emit('error_message','Campaign not started by GM yet.'); return; }
    const tok = L.map.tokens?.[id];
    if (!tok) return;
    if (!isGM(L) && tok.owner !== username) return;
    delete L.map.tokens[id];
    emitMap();
  });
  \<close>
\<close>

definition token_remove :: "conn \<Rightarrow> string \<Rightarrow> lobby \<Rightarrow> lobby \<times> emit list" where
  "token_remove c tid L =
     (case lobby c of
        None \<Rightarrow> (L, [])
      | Some nm \<Rightarrow>
          if isLockedForPlayers L \<and> \<not> isGM c L
          then (L, [to_caller c (Error_message ''Campaign not started by GM yet.'')])
          else case map_get (tokens (game_map L)) tid of
                 None \<Rightarrow> (L, [])
               | Some tok \<Rightarrow>
                   if \<not> isGM c L \<and> tok_owner tok \<noteq> username c then (L, [])
                   else (L\<lparr>game_map := (game_map L)\<lparr>tokens :=
                             map_delete tid (tokens (game_map L))\<rparr>\<rparr>,
                         emitMap nm))"

text \<open>
  \<^verbatim>\<open>
  socket.on('map_clear', ()=>{
    if (!lobby) return;
    const L = ensureLobby(lobby);
    if (!isGM(L)) { socket.emit('error_message','GM only.'); return; }
    const {w,h} = L.map;
    L.map.tiles = Array.from({length:h},()=>Array(w).fill(0));
    emitMap();
  });
  socket.on('ping', ({x,y})=>{
    if (!lobby) return;
    const L = ensureLobby(lobby);
    if (isLockedForPlayers(L) && !isGM(L)) { socket.emit('error_message','Campaign not started by GM yet.'); return; }
    const {w,h} = L.map;
    x = clamp(parseInt(x,10)||0, 0, w-1); y = clamp(parseInt(y,10)||0, 0, h-1);
    io.to(lobby).emit('map_ping', { x, y, by: username, ts: nowISO() });
  });
  \<close>
\<close>

definition map_clear :: "conn \<Rightarrow> lobby \<Rightarrow> lobby \<times> emit list" where
  "map_clear c L =
     (case lobby c of
        None \<Rightarrow> (L, [])
      | Some nm \<Rightarrow>
          if \<not> isGM c L then (L, [to_caller c (Error_message ''GM only.'')])
          else (L\<lparr>game_map := (game_map L)\<lparr>tiles :=
                    replicate (nat (map_h (game_map L)))
                      (replicate (nat (map_w (game_map L))) 0)\<rparr>\<rparr>,
                emitMap nm))"

definition ping :: "env \<Rightarrow> conn \<Rightarrow> int option \<Rightarrow> int option \<Rightarrow> lobby \<Rightarrow> lobby \<times> emit list" where
  "ping e c x y L =
     (case lobby c of
        None \<Rightarrow> (L, [])
      | Some nm \<Rightarrow>
          if isLockedForPlayers L \<and> \<not> isGM c L
          then (L, [to_caller c (Error_message ''Campaign not started by GM yet.'')])
          else let m = game_map L;
                   x' = clamp (case x of None \<Rightarrow> 0 | Some n \<Rightarrow> n) 0 (map_w m - 1);
                   y' = clamp (case y of None \<Rightarrow> 0 | Some n \<Rightarrow> n) 0 (map_h m - 1)
               in (L, [to_room nm (Map_ping x' y' (username c) (env_now e))]))"

section \<open>The campaign: start and consent\<close>

text \<open>
  \<^verbatim>\<open>
  socket.on('campaign_start', ()=>{
    if (!lobby) return;
    const L = ensureLobby(lobby);
    if (!isGM(L)) { socket.emit('error_message','GM only.'); return; }
    if (L.settings.campaignStarted) { socket.emit('error_message','Campaign already started.'); return; }
    L.settings.campaignStarted = true;
    io.to(lobby).emit('system', 'GM started the campaign!');
    io.to(lobby).emit('campaign_started', { sceneId: L.campaign.currentSceneId });
    for (const [sid, u] of L.users.entries()){
      if (!L.characters.has(u.name)) io.to(sid).emit('character_required', { reason: 'campaign_started' });
    }
    emitState();
  });
  \<close>
  The slash command \<open>/start\<close> has the same body with the message \<open>Already started.\<close>
\<close>

definition start_campaign :: "conn \<Rightarrow> string \<Rightarrow> string \<Rightarrow> lobby \<Rightarrow> lobby \<times> emit list" where
  "start_campaign c nm already L =
     (if \<not> isGM c L then (L, [to_caller c (Error_message ''GM only.'')])
      else if campaignStarted (settings L) then (L, [to_caller c (Error_message already)])
      else (L\<lparr>settings := (settings L)\<lparr>campaignStarted := True\<rparr>\<rparr>,
            [to_room nm (System ''GM started the campaign!''),
             to_room nm (Campaign_started (currentSceneId (campaign L)))]
            @ map (\<lambda>u. (To_socket (fst u), Character_required ''campaign_started''))
                  (filter (\<lambda>u. snd u \<notin> set (characters L)) (users L))
            @ emitState nm))"

definition campaign_start :: "conn \<Rightarrow> lobby \<Rightarrow> lobby \<times> emit list" where
  "campaign_start c L =
     (case lobby c of
        None \<Rightarrow> (L, [])
      | Some nm \<Rightarrow> start_campaign c nm ''Campaign already started.'' L)"

text \<open>
  \<^verbatim>\<open>
  socket.on('campaign_scene_set', ({sceneId})=>{
    if (!lobby) return;
    const L = ensureLobby(lobby);
    if (!isGM(L)) { socket.emit('error_message','GM only.'); return; }
    if (L.campaign.scenes.some(s=>s.id===sceneId)){
      L.campaign.currentSceneId = sceneId;
      io.to(lobby).emit('system', `Scene changed to: ${sceneId}`);
      io.to(lobby).emit('campaign_state', L.campaign);
    }
  });
  \<close>
\<close>

definition campaign_scene_set :: "conn \<Rightarrow> string \<Rightarrow> lobby \<Rightarrow> lobby \<times> emit list" where
  "campaign_scene_set c sceneId L =
     (case lobby c of
        None \<Rightarrow> (L, [])
      | Some nm \<Rightarrow>
          if \<not> isGM c L then (L, [to_caller c (Error_message ''GM only.'')])
          else if list_ex (\<lambda>s. scene_id s = sceneId) (scenes (campaign L))
          then (L\<lparr>campaign := (campaign L)\<lparr>currentSceneId := Some sceneId\<rparr>\<rparr>,
                [to_room nm (System (''Scene changed to: '' @ sceneId)),
                 to_room nm Campaign_state])
          else (L, []))"

text \<open>
  \<^verbatim>\<open>
  socket.on('campaign_choice_request', ({choiceId})=>{
    if (!lobby) return;
    const L = ensureLobby(lobby);
    if (!isGM(L)) { socket.emit('error_message','GM only.'); return; }
    if (!L.settings.campaignStarted) { socket.emit('error_message','Start campaign first.'); return; }

    const scene = L.campaign.scenes.find(s=>s.id===L.campaign.currentSceneId);
    if (!scene) return;
    const choice = scene.choices.find(c=>c.id===choiceId);
    if (!choice) { socket.emit('error_message','Choice not found.'); return; }

    L.settings.consent.pending = { choiceId: choice.id, text: choice.text, to: choice.to, approvals: new Set(), requestedAt: Date.now() };

    const players = [...L.users.values()].map(u=>u.name).filter(n => n !== L.gm);
    io.to(lobby).emit('campaign_choice_requested', { sceneId: scene.id, choiceId: choice.id, text: choice.text, to: choice.to, requestedBy: username, players });
    emitState();
  });
  \<close>
\<close>

definition nonGM :: "lobby \<Rightarrow> string list" where
  "nonGM L = filter (\<lambda>n. Some n \<noteq> gm L) (user_names L)"

definition campaign_choice_request :: "env \<Rightarrow> conn \<Rightarrow> string \<Rightarrow> lobby \<Rightarrow> lobby \<times> emit list" where
  "campaign_choice_request e c choiceId L =
     (case lobby c of
        None \<Rightarrow> (L, [])
      | Some nm \<Rightarrow>
          if \<not> isGM c L then (L, [to_caller c (Error_message ''GM only.'')])
          else if \<not> campaignStarted (settings L)
          then (L, [to_caller c (Error_message ''Start campaign first.'')])
          else case js_find (\<lambda>s. Some (scene_id s) = currentSceneId (campaign L))
                            (scenes (campaign L)) of
                 None \<Rightarrow> (L, [])
               | Some sc \<Rightarrow>
                   (case js_find (\<lambda>ch. choice_id ch = choiceId) (choices sc) of
                      None \<Rightarrow> (L, [to_caller c (Error_message ''Choice not found.'')])
                    | Some ch \<Rightarrow>
                        (L\<lparr>settings := (settings L)\<lparr>consent_pending :=
                              Some \<lparr>p_choiceId = choice_id ch, p_text = choice_text ch,
                                    p_to = choice_to ch, approvals = {},
                                    requestedAt = env_now_ms e\<rparr>\<rparr>\<rparr>,
                         [to_room nm (Campaign_choice_requested (scene_id sc) (choice_id ch)
                                        (choice_text ch) (choice_to ch) (username c) (nonGM L))]
                         @ emitState nm)))"

text \<open>
  \<^verbatim>\<open>
  socket.on('campaign_choice_ack', ()=>{
    if (!lobby) return;
    const L = ensureLobby(lobby);
    const pending = L.settings.consent.pending;
    if (!pending) return;
    pending.approvals.add(username);
    const nonGM = [...L.users.values()].map(u=>u.name).filter(n => n !== L.gm);
    const allApproved = nonGM.every(n => pending.approvals.has(n));
    if (allApproved) {
      const target = L.campaign.scenes.find(s=>s.id===pending.to);
      if (target) {
        L.campaign.currentSceneId = target.id;
        io.to(lobby).emit('system', `Choice accepted: ${pending.text}`);
        io.to(lobby).emit('campaign_state', L.campaign);
      }
      L.settings.consent.pending = null;
      emitState();
    }
  });
  \<close>
  The steps shared with \<open>campaign_choice_force\<close>: move the pointer if the target scene
  exists, clear the request, broadcast.
\<close>

definition commit_pending :: "string \<Rightarrow> string \<Rightarrow> pending \<Rightarrow> lobby \<Rightarrow> lobby \<times> emit list" where
  "commit_pending nm label p L =
     (case js_find (\<lambda>s. scene_id s = p_to p) (scenes (campaign L)) of
        Some target \<Rightarrow>
          (L\<lparr>campaign := (campaign L)\<lparr>currentSceneId := Some (scene_id target)\<rparr>,
             settings := (settings L)\<lparr>consent_pending := None\<rparr>\<rparr>,
           [to_room nm (System (label @ p_text p)), to_room nm Campaign_state] @ emitState nm)
      | None \<Rightarrow>
          (L\<lparr>settings := (settings L)\<lparr>consent_pending := None\<rparr>\<rparr>, emitState nm))"

definition campaign_choice_ack :: "conn \<Rightarrow> lobby \<Rightarrow> lobby \<times> emit list" where
  "campaign_choice_ack c L =
     (case lobby c of
        None \<Rightarrow> (L, [])
      | Some nm \<Rightarrow>
          (case consent_pending (settings L) of
             None \<Rightarrow> (L, [])
           | Some p0 \<Rightarrow>
               let p = p0\<lparr>approvals := insert (username c) (approvals p0)\<rparr>;
                   L1 = L\<lparr>settings := (settings L)\<lparr>consent_pending := Some p\<rparr>\<rparr>;
                   allApproved = list_all (\<lambda>n. n \<in> approvals p) (nonGM L1)
               in if allApproved then commit_pending nm ''Choice accepted: '' p L1
                  else (L1, [])))"

text \<open>
  \<^verbatim>\<open>
  socket.on('campaign_choice_force', ()=>{
    if (!lobby) return;
    const L = ensureLobby(lobby);
    if (!isGM(L)) { socket.emit('error_message','GM only.'); return; }
    const pending = L.settings.consent.pending;
    if (!pending) return;
    const target = L.campaign.scenes.find(s=>s.id===pending.to);
    if (target) {
      L.campaign.currentSceneId = target.id;
      io.to(lobby).emit('system', `GM forced proceed: ${pending.text}`);
      io.to(lobby).emit('campaign_state', L.campaign);
    }
    L.settings.consent.pending = null;
    emitState();
  });
  \<close>
\<close>

definition campaign_choice_force :: "conn \<Rightarrow> lobby \<Rightarrow> lobby \<times> emit list" where
  "campaign_choice_force c L =
     (case lobby c of
        None \<Rightarrow> (L, [])
      | Some nm \<Rightarrow>
          if \<not> isGM c L then (L, [to_caller c (Error_message ''GM only.'')])
          else case consent_pending (settings L) of
                 None \<Rightarrow> (L, [])
               | Some p \<Rightarrow> commit_pending nm ''GM forced proceed: '' p L)"

section \<open>Character sheets\<close>

text \<open>
  \<^verbatim>\<open>
  socket.on('character_upsert', (sheet)=>{
    if (!lobby) return;
    const L = ensureLobby(lobby);
    const gm = isGM(L);
    const target = safe(sheet?.name || username, 24);
    if (!gm && target !== username) { socket.emit('error_message','You can only edit your own sheet.'); return; }
    ...
    L.characters.set(target, sanitized);
    io.to(lobby).emit('system', `${username} updated ${target}'s sheet`);
    io.to(lobby).emit('characters', Object.fromEntries([...L.characters.entries()]));
    emitState();
  });
  socket.on('character_delete', ({name})=>{
    if (!lobby) return;
    const L = ensureLobby(lobby);
    const target = safe(name || username, 24);
    const gm = isGM(L);
    if (!gm && target !== username) { socket.emit('error_message','You can only remove your own sheet.'); return; }
    L.characters.delete(target);
    io.to(lobby).emit('system', `${username} removed ${target}'s sheet`);
    io.to(lobby).emit('characters', Object.fromEntries([...L.characters.entries()]));
    emitState();
  });
  \<close>
  Of the sheet only its \<open>name\<close> is modelled: the elided lines clamp and trim the other
  fields into \<open>sanitized\<close>, which is stored under the key \<open>target\<close>.
\<close>

definition character_upsert :: "conn \<Rightarrow> string \<Rightarrow> lobby \<Rightarrow> lobby \<times> emit list" where
  "character_upsert c sheet_name L =
     (case lobby c of
        None \<Rightarrow> (L, [])
      | Some nm \<Rightarrow>
          let tgt = safe (if sheet_name = [] then username c else sheet_name) 24
          in if \<not> isGM c L \<and> tgt \<noteq> username c
             then (L, [to_caller c (Error_message ''You can only edit your own sheet.'')])
             else (L\<lparr>characters := (if tgt \<in> set (characters L) then characters L
                                      else characters L @ [tgt])\<rparr>,
                   [to_room nm (System (username c @ '' updated '' @ tgt @ [CHR 0x27] @ ''s sheet'')),
                    to_room nm Characters]
                   @ emitState nm))"

definition character_delete :: "conn \<Rightarrow> string \<Rightarrow> lobby \<Rightarrow> lobby \<times> emit list" where
  "character_delete c cname L =
     (case lobby c of
        None \<Rightarrow> (L, [])
      | Some nm \<Rightarrow>
          let tgt = safe (if cname = [] then username c else cname) 24
          in if \<not> isGM c L \<and> tgt \<noteq> username c
             then (L, [to_caller c (Error_message ''You can only remove your own sheet.'')])
             else (L\<lparr>characters := filter (\<lambda>k. k \<noteq> tgt) (characters L)\<rparr>,
                   [to_room nm (System (username c @ '' removed '' @ tgt @ [CHR 0x27] @ ''s sheet'')),
                    to_room nm Characters]
                   @ emitState nm))"

section \<open>Editing the campaign\<close>

text \<open>\<^verbatim>\<open>const randId = (p='id') => `${p}_${Math.random().toString(36).slice(2,9)}`;\<close>\<close>

definition randId :: "env \<Rightarrow> string \<Rightarrow> string" where
  "randId e p = p @ ''_'' @ take 7 (env_rand36 e)"

text \<open>
  \<^verbatim>\<open>
  socket.on('map_request', ()=> { if (lobby) emitMap(); });

  socket.on('campaign_load', async ({ key }) => {
    if (!lobby) return;
    const L = ensureLobby(lobby);
    if (!isGM(L)) { socket.emit('error_message','GM only.'); return; }
    if (!Object.keys(CAMPAIGN_REGISTRY).length) await loadCampaignRegistry();
    const picked = CAMPAIGN_REGISTRY[key];
    if (!picked) { socket.emit('error_message','Campaign not found.'); return; }
    L.campaign = cloneCampaign(picked);
    if (L.settings) {
      L.settings.campaignStarted = false;
      L.settings.consent.pending = null;
    }
    io.to(lobby).emit('system', `GM loaded campaign: ${L.campaign.title}`);
    io.to(lobby).emit('campaign_state', L.campaign);
    emitState();
  });

  socket.on('campaign_get', ()=>{
    if (!lobby) return;
    const L = ensureLobby(lobby);
    socket.emit('campaign_state', L.campaign);
  });
  \<close>
  The registry is read from files; what it holds under the key is a parameter of the
  event.
\<close>

definition map_request :: "conn \<Rightarrow> lobby \<Rightarrow> lobby \<times> emit list" where
  "map_request c L = (case lobby c of None \<Rightarrow> (L, []) | Some nm \<Rightarrow> (L, emitMap nm))"

definition campaign_load :: "conn \<Rightarrow> campaign option \<Rightarrow> lobby \<Rightarrow> lobby \<times> emit list" where
  "campaign_load c picked L =
     (case lobby c of
        None \<Rightarrow> (L, [])
      | Some nm \<Rightarrow>
          if \<not> isGM c L then (L, [to_caller c (Error_message ''GM only.'')])
          else case picked of
                 None \<Rightarrow> (L, [to_caller c (Error_message ''Campaign not found.'')])
               | Some cp \<Rightarrow>
                   (L\<lparr>campaign := cp,
                      settings := (settings L)\<lparr>campaignStarted := False,
                                                consent_pending := None\<rparr>\<rparr>,
                    [to_room nm (System (''GM loaded campaign: '' @ title cp)),
                     to_room nm Campaign_state]
                    @ emitState nm))"

definition campaign_get :: "conn \<Rightarrow> lobby \<Rightarrow> lobby \<times> emit list" where
  "campaign_get c L =
     (case lobby c of None \<Rightarrow> (L, []) | Some nm \<Rightarrow> (L, [to_caller c Campaign_state]))"

text \<open>
  \<^verbatim>\<open>
  socket.on('campaign_update_meta', ({title, summary})=>{
    if (!lobby) return;
    const L = ensureLobby(lobby);
    if (!isGM(L)) { socket.emit('error_message','GM only.'); return; }
    if (title) L.campaign.title = safe(title, 120);
    if (summary != null) L.campaign.summary = safe(summary, 2000);
    io.to(lobby).emit('campaign_state', L.campaign);
  });

  socket.on('campaign_scene_add', ({title, content})=>{
    if (!lobby) return;
    const L = ensureLobby(lobby);
    if (!isGM(L)) { socket.emit('error_message','GM only.'); return; }
    const scene = { id: randId('scn'), title: safe(title||'New Scene',120), content: safe(content||'', 4000), choices: [] };
    L.campaign.scenes.push(scene);
    if (!L.campaign.currentSceneId) L.campaign.currentSceneId = scene.id;
    io.to(lobby).emit('campaign_state', L.campaign);
  });

  socket.on('campaign_choice_add', ({sceneId, text, to})=>{
    if (!lobby) return;
    const L = ensureLobby(lobby);
    if (!isGM(L)) { socket.emit('error_message','GM only.'); return; }
    const scene = L.campaign.scenes.find(s=>s.id===sceneId);
    if (!scene) return;
    scene.choices.push({ id: randId('ch'), text: safe(text||'Choice', 200), to: safe(to||'', 120) });
    io.to(lobby).emit('campaign_state', L.campaign);
  });
  \<close>
\<close>

definition campaign_update_meta ::
  "conn \<Rightarrow> string option \<Rightarrow> string option \<Rightarrow> lobby \<Rightarrow> lobby \<times> emit list" where
  "campaign_update_meta c ttl smry L =
     (case lobby c of
        None \<Rightarrow> (L, [])
      | Some nm \<Rightarrow>
          if \<not> isGM c L then (L, [to_caller c (Error_message ''GM only.'')])
          else let c1 = (if falsy ttl then campaign L
                         else (campaign L)\<lparr>title := safe (the ttl) 120\<rparr>);
                   c2 = (case smry of None \<Rightarrow> c1 | Some s \<Rightarrow> c1\<lparr>summary := safe s 2000\<rparr>)
               in (L\<lparr>campaign := c2\<rparr>, [to_room nm Campaign_state]))"

definition push_scene :: "scene \<Rightarrow> campaign \<Rightarrow> campaign" where
  "push_scene sc cp =
     cp\<lparr>scenes := scenes cp @ [sc],
        currentSceneId := (if falsy (currentSceneId cp) then Some (scene_id sc)
                           else currentSceneId cp)\<rparr>"

definition campaign_scene_add ::
  "env \<Rightarrow> conn \<Rightarrow> string \<Rightarrow> string \<Rightarrow> lobby \<Rightarrow> lobby \<times> emit list" where
  "campaign_scene_add e c ttl content L =
     (case lobby c of
        None \<Rightarrow> (L, [])
      | Some nm \<Rightarrow>
          if \<not> isGM c L then (L, [to_caller c (Error_message ''GM only.'')])
          else let sc = \<lparr>scene_id = randId e ''scn'',
                          scene_title = safe (if ttl = [] then ''New Scene'' else ttl) 120,
                          scene_content = safe content 4000, choices = []\<rparr>
               in (L\<lparr>campaign := push_scene sc (campaign L)\<rparr>, [to_room nm Campaign_state]))"

fun push_choice :: "string \<Rightarrow> choice \<Rightarrow> scene list \<Rightarrow> scene list" where
  "push_choice i ch [] = []"
| "push_choice i ch (s # ss) =
     (if scene_id s = i then s\<lparr>choices := choices s @ [ch]\<rparr> # ss else s # push_choice i ch ss)"

definition campaign_choice_add ::
  "env \<Rightarrow> conn \<Rightarrow> string \<Rightarrow> string \<Rightarrow> string \<Rightarrow> lobby \<Rightarrow> lobby \<times> emit list" where
  "campaign_choice_add e c sceneId txt dest L =
     (case lobby c of
        None \<Rightarrow> (L, [])
      | Some nm \<Rightarrow>
          if \<not> isGM c L then (L, [to_caller c (Error_message ''GM only.'')])
          else if \<not> list_ex (\<lambda>s. scene_id s = sceneId) (scenes (campaign L)) then (L, [])
          else let ch = \<lparr>choice_id = randId e ''ch'',
                          choice_text = safe (if txt = [] then ''Choice'' else txt) 200,
                          choice_to = safe dest 120\<rparr>
               in (L\<lparr>campaign := (campaign L)\<lparr>scenes :=
                         push_choice sceneId ch (scenes (campaign L))\<rparr>\<rparr>,
                   [to_room nm Campaign_state]))"

text \<open>
  \<^verbatim>\<open>
  socket.on('campaign_handout_add', ({title, content})=>{
    if (!lobby) return;
    const L = ensureLobby(lobby);
    if (!isGM(L)) { socket.emit('error_message','GM only.'); return; }
    L.campaign.handouts.push({ id: randId('hd'), title: safe(title||'Handout',120), content: safe(content||'', 4000) });
    io.to(lobby).emit('campaign_state', L.campaign);
  });

  socket.on('campaign_quest_add', ({title})=>{
    if (!lobby) return;
    const L = ensureLobby(lobby);
    if (!isGM(L)) { socket.emit('error_message','GM only.'); return; }
    L.campaign.quests.push({ id: randId('q'), title: safe(title||'Quest', 200), done: false });
    io.to(lobby).emit('campaign_state', L.campaign);
  });

  socket.on('campaign_quest_toggle', ({id})=>{
    if (!lobby) return;
    const L = ensureLobby(lobby);
    if (!isGM(L)) { socket.emit('error_message','GM only.'); return; }
    const q = L.campaign.quests.find(q=>q.id===id);
    if (!q) return;
    q.done = !q.done;
    io.to(lobby).emit('campaign_state', L.campaign);
  });

  socket.on('campaign_note_add', ({text})=>{
    if (!lobby) return;
    const L = ensureLobby(lobby);
    const t = safe(text, 1000);
    if (!t) return;
    L.campaign.notes.push({ by: username, text: t, ts: nowISO() });
    io.to(lobby).emit('campaign_state', L.campaign);
  });
  \<close>
\<close>

definition campaign_handout_add ::
  "env \<Rightarrow> conn \<Rightarrow> string \<Rightarrow> string \<Rightarrow> lobby \<Rightarrow> lobby \<times> emit list" where
  "campaign_handout_add e c ttl content L =
     (case lobby c of
        None \<Rightarrow> (L, [])
      | Some nm \<Rightarrow>
          if \<not> isGM c L then (L, [to_caller c (Error_message ''GM only.'')])
          else (L\<lparr>campaign := (campaign L)\<lparr>handouts := handouts (campaign L) @
                    [\<lparr>handout_id = randId e ''hd'',
                      handout_title = safe (if ttl = [] then ''Handout'' else ttl) 120,
                      handout_content = safe content 4000\<rparr>]\<rparr>\<rparr>,
                [to_room nm Campaign_state]))"

definition campaign_quest_add :: "env \<Rightarrow> conn \<Rightarrow> string \<Rightarrow> lobby \<Rightarrow> lobby \<times> emit list" where
  "campaign_quest_add e c ttl L =
     (case lobby c of
        None \<Rightarrow> (L, [])
      | Some nm \<Rightarrow>
          if \<not> isGM c L then (L, [to_caller c (Error_message ''GM only.'')])
          else (L\<lparr>campaign := (campaign L)\<lparr>quests := quests (campaign L) @
                    [\<lparr>quest_id = randId e ''q'',
                      quest_title = safe (if ttl = [] then ''Quest'' else ttl) 200,
                      quest_done = False\<rparr>]\<rparr>\<rparr>,
                [to_room nm Campaign_state]))"

fun toggle_quest :: "string \<Rightarrow> quest list \<Rightarrow> quest list" where
  "toggle_quest i [] = []"
| "toggle_quest i (q # qs) =
     (if quest_id q = i then q\<lparr>quest_done := \<not> quest_done q\<rparr> # qs else q # toggle_quest i qs)"

definition campaign_quest_toggle :: "conn \<Rightarrow> string \<Rightarrow> lobby \<Rightarrow> lobby \<times> emit list" where
  "campaign_quest_toggle c i L =
     (case lobby c of
        None \<Rightarrow> (L, [])
      | Some nm \<Rightarrow>
          if \<not> isGM c L then (L, [to_caller c (Error_message ''GM only.'')])
          else if \<not> list_ex (\<lambda>q. quest_id q = i) (quests (campaign L)) then (L, [])
          else (L\<lparr>campaign := (campaign L)\<lparr>quests := toggle_quest i (quests (campaign L))\<rparr>\<rparr>,
                [to_room nm Campaign_state]))"

definition campaign_note_add :: "env \<Rightarrow> conn \<Rightarrow> string \<Rightarrow> lobby \<Rightarrow> lobby \<times> emit list" where
  "campaign_note_add e c txt L =
     (case lobby c of
        None \<Rightarrow> (L, [])
      | Some nm \<Rightarrow>
          if safe txt 1000 = [] then (L, [])
          else (L\<lparr>campaign := (campaign L)\<lparr>camp_notes := camp_notes (campaign L) @
                    [\<lparr>note_by = username c, note_text = safe txt 1000,
                      note_ts = env_now e\<rparr>]\<rparr>\<rparr>,
                [to_room nm Campaign_state]))"

section \<open>Slash commands\<close>

text \<open>
  \<^verbatim>\<open>
  const [cmd, ...rest] = line.slice(1).split(' ');
  const argStr = rest.join(' ').trim();
  \<close>
  Splitting at every space and joining the tail again gives back the text after the first
  space.
\<close>

definition first_word :: "string \<Rightarrow> string" where
  "first_word s = takeWhile (\<lambda>ch. ch \<noteq> CHR '' '') s"

definition after_first_space :: "string \<Rightarrow> string" where
  "after_first_space s = drop 1 (dropWhile (\<lambda>ch. ch \<noteq> CHR '' '') s)"

definition has_space :: "string \<Rightarrow> bool" where
  "has_space s = (dropWhile (\<lambda>ch. ch \<noteq> CHR '' '') s \<noteq> [])"

definition is_word :: "char \<Rightarrow> bool" where
  "is_word ch =
     (let n = (of_char ch :: nat)
      in (48 \<le> n \<and> n \<le> 57) \<or> (65 \<le> n \<and> n \<le> 90) \<or> (97 \<le> n \<and> n \<le> 122) \<or> n = 95)"

text \<open>
  The regular expressions of the commands. Each is read greedily from the left; where a
  greedy \<open>\s+\<close> or \<open>\s*\<close> would leave nothing for a following \<open>[\s\S]+\<close> or \<open>[^|]+\<close>, the
  matcher gives back its last character, as backtracking does.

  \<open>\s+([\s\S]+)$\<close>:
\<close>

definition ws_then_rest :: "string \<Rightarrow> string option" where
  "ws_then_rest r =
     (let wsr = takeWhile is_ws r; t = dropWhile is_ws r
      in if wsr = [] then None
         else if t \<noteq> [] then Some t
         else if 2 \<le> length wsr then Some [last wsr]
         else None)"

text \<open>\<open>(\S+)\s+([\s\S]+)$\<close> and \<open>/^@?(\S+)\s+([\s\S]+)$/\<close>:\<close>

definition match_word_rest :: "string \<Rightarrow> (string \<times> string) option" where
  "match_word_rest s =
     (let g = takeWhile (\<lambda>ch. \<not> is_ws ch) s; r = dropWhile (\<lambda>ch. \<not> is_ws ch) s
      in if g = [] then None
         else case ws_then_rest r of None \<Rightarrow> None | Some t \<Rightarrow> Some (g, t))"

definition match_whisper :: "string \<Rightarrow> (string \<times> string) option" where
  "match_whisper s =
     (case s of
        [] \<Rightarrow> None
      | ch # s' \<Rightarrow>
          if ch = CHR ''@''
          then (case match_word_rest s' of Some r \<Rightarrow> Some r | None \<Rightarrow> match_word_rest s)
          else match_word_rest s)"

text \<open>\<open>/^(\w+)\s*=\s*([\s\S]+)$/\<close>:\<close>

definition match_macro_add :: "string \<Rightarrow> (string \<times> string) option" where
  "match_macro_add s =
     (let g = takeWhile is_word s; r = dropWhile is_ws (dropWhile is_word s)
      in if g = [] then None
         else case r of
                [] \<Rightarrow> None
              | eq # r2 \<Rightarrow>
                  if eq \<noteq> CHR ''='' then None
                  else let wsr = takeWhile is_ws r2; t = dropWhile is_ws r2
                       in if t \<noteq> [] then Some (g, t)
                          else if wsr \<noteq> [] then Some (g, [last wsr])
                          else None)"

text \<open>\<open>/^(\S+)\s+(-?\d+)$/\<close>, with \<open>Number(m[2])\<close>:\<close>

definition match_setinit :: "string \<Rightarrow> (string \<times> number) option" where
  "match_setinit s =
     (let g = takeWhile (\<lambda>ch. \<not> is_ws ch) s; r = dropWhile (\<lambda>ch. \<not> is_ws ch) s;
          wsr = takeWhile is_ws r; t = dropWhile is_ws r;
          neg = (t \<noteq> [] \<and> hd t = CHR ''-'');
          ds = (if neg then tl t else t)
      in if g = [] \<or> wsr = [] \<or> ds = [] \<or> \<not> list_all is_digit ds then None
         else Some (g, to_number (if neg then - parse_digits ds else parse_digits ds)))"

text \<open>\<open>/^(title|summary)\s+([\s\S]+)$/\<close>:\<close>

definition match_camp :: "string \<Rightarrow> (string \<times> string) option" where
  "match_camp s =
     (if take 5 s = ''title''
      then map_option (\<lambda>t. (''title'', t)) (ws_then_rest (drop 5 s))
      else if take 7 s = ''summary''
      then map_option (\<lambda>t. (''summary'', t)) (ws_then_rest (drop 7 s))
      else None)"

text \<open>\<open>/^add\s+([^|]+)\|([\s\S]+)$/\<close> and \<open>/^set\s+(\S+)$/\<close>:\<close>

definition match_scene_add :: "string \<Rightarrow> (string \<times> string) option" where
  "match_scene_add s =
     (if take 3 s \<noteq> ''add'' then None
      else let r = drop 3 s; wsr = takeWhile is_ws r; t = dropWhile is_ws r;
               ttl = takeWhile (\<lambda>ch. ch \<noteq> CHR ''|'') t;
               u = dropWhile (\<lambda>ch. ch \<noteq> CHR ''|'') t
           in if wsr = [] \<or> (ttl = [] \<and> length wsr < 2) \<or> length u < 2 then None
              else Some (if ttl = [] then [last wsr] else ttl, tl u))"

definition match_scene_set :: "string \<Rightarrow> string option" where
  "match_scene_set s =
     (if take 3 s \<noteq> ''set'' then None
      else let r = drop 3 s; wsr = takeWhile is_ws r; t = dropWhile is_ws r
           in if wsr = [] \<or> t = [] \<or> list_ex is_ws t then None else Some t)"

definition help_text :: string where
  "help_text =
     ''Commands: /help, /me <action>, /w @name <msg>, /roll <expr>, ''
     @ ''/macro add name=expr | del name | list, ''
     @ ''/setpass <pass> (GM on first set), /kick <name> (GM), /ban <name> (GM), /unban <name> (GM), ''
     @ ''/startencounter (GM), /setinit <name> <n> (GM), /next (GM), /endencounter (GM), ''
     @ ''Campaign: /camp title <t> (GM), /camp summary <text> (GM), ''
     @ ''/scene add <title>|<content> (GM), /scene set <sceneId> (GM), ''
     @ ''/start (GM start campaign), /consent force (GM)''"

text \<open>
  \<^verbatim>\<open>
  case 'me': {
    const text = argStr || 'does something dramatic';
    io.to(lobby).emit('chat', { user: username, text: `*${text}*`, ts: nowISO() });
    break;
  }
  case 'w': {
    const m = argStr.match(/^@?(\S+)\s+([\s\S]+)$/);
    if (!m) { socket.emit('error_message','Usage: /w @name message'); break; }
    const target = m[1], message = m[2];
    const entry = [...L.users.entries()].find(([,u])=>u.name===target);
    if (!entry) { socket.emit('error_message','User not found'); break; }
    const [targetId] = entry;
    io.to(targetId).emit('chat', { user:`(whisper) ${username}`, text:message, ts:nowISO() });
    socket.emit('chat', { user:`(to @${target})`, text:message, ts:nowISO() });
    break;
  }
  case 'roll': {
    if (isLockedForPlayers(L) && !gm) { socket.emit('error_message','Campaign not started by GM yet.'); break; }
    try { ... rollAdvanced(argStr || 'd20') ... } catch(e){ socket.emit('error_message', e.message || 'Bad dice'); }
    break;
  }
  \<close>
\<close>

definition cmd_me :: "env \<Rightarrow> conn \<Rightarrow> string \<Rightarrow> string \<Rightarrow> lobby \<Rightarrow> lobby \<times> emit list" where
  "cmd_me e c nm argStr L =
     (L, [to_room nm (Chat \<lparr>chat_user = username c,
                            chat_text = ''*'' @ (if argStr = [] then ''does something dramatic''
                                                else argStr) @ ''*'',
                            chat_ts = env_now e\<rparr>)])"

definition cmd_w :: "env \<Rightarrow> conn \<Rightarrow> string \<Rightarrow> lobby \<Rightarrow> lobby \<times> emit list" where
  "cmd_w e c argStr L =
     (case match_whisper argStr of
        None \<Rightarrow> (L, [to_caller c (Error_message ''Usage: /w @name message'')])
      | Some (tgt, msg) \<Rightarrow>
          (case List.find (\<lambda>u. snd u = tgt) (users L) of
             None \<Rightarrow> (L, [to_caller c (Error_message ''User not found'')])
           | Some entry \<Rightarrow>
               (L, [(To_socket (fst entry),
                     Chat \<lparr>chat_user = ''(whisper) '' @ username c, chat_text = msg,
                           chat_ts = env_now e\<rparr>),
                    to_caller c (Chat \<lparr>chat_user = ''(to @'' @ tgt @ '')'', chat_text = msg,
                                       chat_ts = env_now e\<rparr>)])))"

definition cmd_roll :: "env \<Rightarrow> conn \<Rightarrow> string \<Rightarrow> string \<Rightarrow> lobby \<Rightarrow> lobby \<times> emit list" where
  "cmd_roll e c nm argStr L =
     (if isLockedForPlayers L \<and> \<not> isGM c L
      then (L, [to_caller c (Error_message ''Campaign not started by GM yet.'')])
      else do_roll e c nm ''Bad dice'' argStr L)"

text \<open>
  \<^verbatim>\<open>
  case 'macro': {
    const [sub, ...rest2] = argStr.split(' ');
    const restJoin = rest2.join(' ').trim();
    const map = L.macros.get(username) || new Map();
    if (sub === 'add') {
      const m = restJoin.match(/^(\w+)\s*=\s*([\s\S]+)$/);
      if (!m) { socket.emit('error_message','Use: /macro add name=expr'); break; }
      map.set(m[1], m[2]); L.macros.set(username, map);
      socket.emit('system', `Macro added: ${m[1]} = ${m[2]}`);
    } else if (sub === 'del') {
      map.delete(rest2[0]); L.macros.set(username, map);
      socket.emit('system', `Macro deleted: ${rest2[0]}`);
    } else if (sub === 'list') {
      socket.emit('system', `Your macros: ${JSON.stringify(Object.fromEntries(map.entries()))}`);
    } else socket.emit('error_message','Subcommands: add, del, list');
    break;
  }
  \<close>
  \<open>JSON.stringify\<close> is a parameter of the command.
\<close>

definition cmd_macro ::
  "((string \<times> string) list \<Rightarrow> string) \<Rightarrow> conn \<Rightarrow> string \<Rightarrow> lobby \<Rightarrow> lobby \<times> emit list" where
  "cmd_macro stringify c argStr L =
     (let sub = first_word argStr;
          restJoin = trim (after_first_space argStr);
          rest2_0 = (if has_space argStr then Some (first_word (after_first_space argStr))
                     else None);
          mp = (case map_get (macros L) (username c) of None \<Rightarrow> [] | Some m \<Rightarrow> m)
      in if sub = ''add''
         then (case match_macro_add restJoin of
                 None \<Rightarrow> (L, [to_caller c (Error_message ''Use: /macro add name=expr'')])
               | Some (k, v) \<Rightarrow>
                   (L\<lparr>macros := map_set (username c) (map_set k v mp) (macros L)\<rparr>,
                    [to_caller c (System (''Macro added: '' @ k @ '' = '' @ v))]))
         else if sub = ''del''
         then (L\<lparr>macros := map_set (username c)
                               (case rest2_0 of None \<Rightarrow> mp | Some k \<Rightarrow> map_delete k mp)
                               (macros L)\<rparr>,
               [to_caller c (System (''Macro deleted: ''
                                     @ (case rest2_0 of None \<Rightarrow> ''undefined'' | Some k \<Rightarrow> k)))])
         else if sub = ''list''
         then (L, [to_caller c (System (''Your macros: '' @ stringify mp))])
         else (L, [to_caller c (Error_message ''Subcommands: add, del, list'')]))"

text \<open>
  \<^verbatim>\<open>
  case 'setpass': {
    if (L.passwordHash && !gm) { socket.emit('error_message','Only GM can change password.'); break; }
    if (!argStr) { socket.emit('error_message','Usage: /setpass <password>'); break; }
    L.passwordHash = hashPass(argStr);
    if (!L.gm) L.gm = username;
    await upsertLobbyMeta?.(lobby, { password:true, gm:L.gm, updatedAt: nowISO() });
    send('Lobby password set/updated.');
    emitState();
    break;
  }
  case 'kick': {
    if (!gm) { socket.emit('error_message','GM only.'); break; }
    const target = safe(argStr,24);
    const entry = [...L.users.entries()].find(([,u])=>u.name===target);
    if (!entry) { socket.emit('error_message','User not found'); break; }
    const [targetId] = entry;
    io.to(targetId).emit('error_message','You were kicked by the GM.');
    io.sockets.sockets.get(targetId)?.leave(lobby);
    L.users.delete(targetId);
    send(`${target} was kicked by the GM.`);
    emitState();
    break;
  }
  case 'ban':   { if (!gm) { socket.emit('error_message','GM only.'); break; } L.bans.add(safe(argStr,24).toLowerCase()); send(`${argStr} is banned.`); emitState(); break; }
  case 'unban': { if (!gm) { socket.emit('error_message','GM only.'); break; } L.bans.delete(safe(argStr,24).toLowerCase()); send(`${argStr} is unbanned.`); emitState(); break; }
  \<close>
\<close>

definition cmd_setpass :: "env \<Rightarrow> conn \<Rightarrow> string \<Rightarrow> string \<Rightarrow> lobby \<Rightarrow> lobby \<times> emit list" where
  "cmd_setpass e c nm argStr L =
     (if passwordHash L \<noteq> None \<and> \<not> isGM c L
      then (L, [to_caller c (Error_message ''Only GM can change password.'')])
      else if argStr = [] then (L, [to_caller c (Error_message ''Usage: /setpass <password>'')])
      else (L\<lparr>passwordHash := Some (hashPass (env_salt e) argStr),
              gm := (if falsy (gm L) then Some (username c) else gm L)\<rparr>,
            [to_room nm (System ''Lobby password set/updated.'')] @ emitState nm))"

definition cmd_kick :: "conn \<Rightarrow> string \<Rightarrow> string \<Rightarrow> lobby \<Rightarrow> lobby \<times> emit list" where
  "cmd_kick c nm argStr L =
     (if \<not> isGM c L then (L, [to_caller c (Error_message ''GM only.'')])
      else case List.find (\<lambda>u. snd u = safe argStr 24) (users L) of
             None \<Rightarrow> (L, [to_caller c (Error_message ''User not found'')])
           | Some entry \<Rightarrow>
               (L\<lparr>users := map_delete (fst entry) (users L)\<rparr>,
                [(To_socket (fst entry), Error_message ''You were kicked by the GM.''),
                 (To_socket (fst entry), Leave_room nm),
                 to_room nm (System (safe argStr 24 @ '' was kicked by the GM.''))]
                @ emitState nm))"

definition cmd_ban :: "conn \<Rightarrow> string \<Rightarrow> string \<Rightarrow> lobby \<Rightarrow> lobby \<times> emit list" where
  "cmd_ban c nm argStr L =
     (if \<not> isGM c L then (L, [to_caller c (Error_message ''GM only.'')])
      else (L\<lparr>bans := insert (toLowerCase (safe argStr 24)) (bans L)\<rparr>,
            [to_room nm (System (argStr @ '' is banned.''))] @ emitState nm))"

definition cmd_unban :: "conn \<Rightarrow> string \<Rightarrow> string \<Rightarrow> lobby \<Rightarrow> lobby \<times> emit list" where
  "cmd_unban c nm argStr L =
     (if \<not> isGM c L then (L, [to_caller c (Error_message ''GM only.'')])
      else (L\<lparr>bans := bans L - {toLowerCase (safe argStr 24)}\<rparr>,
            [to_room nm (System (argStr @ '' is unbanned.''))] @ emitState nm))"

text \<open>
  \<^verbatim>\<open>
  case 'startencounter': {
    if (!gm) { socket.emit('error_message','GM only.'); break; }
    L.encounter={active:true,order:[],turnIndex:0};
    send('Encounter started. Use /setinit <name> <n>.'); emitState(); break;
  }
  case 'setinit': {
    if (!gm) { socket.emit('error_message','GM only.'); break; }
    const m = argStr.match(/^(\S+)\s+(-?\d+)$/);
    if (!m) { socket.emit('error_message','Usage: /setinit <name> <number>'); break; }
    const name = m[1], init = Number(m[2]);
    const i = L.encounter.order.findIndex(o=>o.name===name);
    if (i>=0) L.encounter.order[i].init = init; else L.encounter.order.push({name,init});
    L.encounter.order.sort((a,b)=>b.init-a.init);
    send(`Initiative set: ${name} -> ${init}`); emitState(); break;
  }
  case 'next': {
    if (!gm) { socket.emit('error_message','GM only.'); break; }
    if (!L.encounter.active || L.encounter.order.length===0) { socket.emit('error_message','No active encounter.'); break; }
    L.encounter.turnIndex = (L.encounter.turnIndex+1) % L.encounter.order.length;
    send(`Turn: ${L.encounter.order[L.encounter.turnIndex].name}`); emitState(); break;
  }
  case 'endencounter': {
    if (!gm) { socket.emit('error_message','GM only.'); break; }
    L.encounter={active:false,order:[],turnIndex:0}; send('Encounter ended.'); emitState(); break;
  }
  \<close>
  The arrow in the message of \<open>setinit\<close> is the character U+2192 in the source; it lies
  outside the 8-bit strings of this theory and stands as its three UTF-8 bytes. The
  comparator of the sort subtracts two doubles: the difference of two finite doubles has
  the sign of the exact difference, it is an infinity when one of them is, and \<open>NaN\<close> when
  both are the same infinity.
\<close>

fun upsert_init :: "string \<Rightarrow> number \<Rightarrow> combatant list \<Rightarrow> combatant list" where
  "upsert_init n v [] = [\<lparr>c_name = n, init = v\<rparr>]"
| "upsert_init n v (x # xs) =
     (if c_name x = n then x\<lparr>init := v\<rparr> # xs else x # upsert_init n v xs)"

definition init_cmp :: "combatant \<Rightarrow> combatant \<Rightarrow> int" where
  "init_cmp a b = sort_compare (num_minus (init b) (init a))"

definition arrow :: string where
  "arrow = [CHR 0xE2, CHR 0x86, CHR 0x92]"

definition cmd_startencounter :: "conn \<Rightarrow> string \<Rightarrow> lobby \<Rightarrow> lobby \<times> emit list" where
  "cmd_startencounter c nm L =
     (if \<not> isGM c L then (L, [to_caller c (Error_message ''GM only.'')])
      else (L\<lparr>encounter := \<lparr>active = True, order = [], turnIndex = 0\<rparr>\<rparr>,
            [to_room nm (System ''Encounter started. Use /setinit <name> <n>.'')]
            @ emitState nm))"

definition cmd_setinit :: "env \<Rightarrow> conn \<Rightarrow> string \<Rightarrow> string \<Rightarrow> lobby \<Rightarrow> lobby \<times> emit list" where
  "cmd_setinit e c nm argStr L =
     (if \<not> isGM c L then (L, [to_caller c (Error_message ''GM only.'')])
      else case match_setinit argStr of
             None \<Rightarrow> (L, [to_caller c (Error_message ''Usage: /setinit <name> <number>'')])
           | Some (n, v) \<Rightarrow>
               (L\<lparr>encounter := (encounter L)\<lparr>order :=
                     js_sort init_cmp (upsert_init n v (order (encounter L)))\<rparr>\<rparr>,
                [to_room nm (System (''Initiative set: '' @ n @ '' '' @ arrow @ '' ''
                                     @ number_text e v))]
                @ emitState nm))"

definition cmd_next :: "conn \<Rightarrow> string \<Rightarrow> lobby \<Rightarrow> lobby \<times> emit list" where
  "cmd_next c nm L =
     (if \<not> isGM c L then (L, [to_caller c (Error_message ''GM only.'')])
      else if \<not> active (encounter L) \<or> length (order (encounter L)) = 0
      then (L, [to_caller c (Error_message ''No active encounter.'')])
      else let i = (turnIndex (encounter L) + 1) mod length (order (encounter L))
           in (L\<lparr>encounter := (encounter L)\<lparr>turnIndex := i\<rparr>\<rparr>,
               [to_room nm (System (''Turn: '' @ c_name (order (encounter L) ! i)))]
               @ emitState nm))"

definition cmd_endencounter :: "conn \<Rightarrow> string \<Rightarrow> lobby \<Rightarrow> lobby \<times> emit list" where
  "cmd_endencounter c nm L =
     (if \<not> isGM c L then (L, [to_caller c (Error_message ''GM only.'')])
      else (L\<lparr>encounter := \<lparr>active = False, order = [], turnIndex = 0\<rparr>\<rparr>,
            [to_room nm (System ''Encounter ended.'')] @ emitState nm))"

text \<open>
  \<^verbatim>\<open>
  case 'camp': {
    const m = argStr.match(/^(title|summary)\s+([\s\S]+)$/);
    if (!m) { socket.emit('error_message','Usage: /camp title <text> | /camp summary <text>'); break; }
    if (!gm) { socket.emit('error_message','GM only.'); break; }
    if (m[1]==='title')   L.campaign.title   = safe(m[2], 120);
    if (m[1]==='summary') L.campaign.summary = safe(m[2], 2000);
    send(`Campaign ${m[1]} updated.`); emitState(); break;
  }
  case 'scene': {
    if (!gm) { socket.emit('error_message','GM only.'); break; }
    const mAdd = argStr.match(/^add\s+([^|]+)\|([\s\S]+)$/);
    const mSet = argStr.match(/^set\s+(\S+)$/);
    if (mAdd){
      const scene = { id: randId('scn'), title: safe(mAdd[1],120), content: safe(mAdd[2], 4000), choices: [] };
      L.campaign.scenes.push(scene);
      if (!L.campaign.currentSceneId) L.campaign.currentSceneId = scene.id;
      send(`Scene added: ${scene.title} (${scene.id})`); emitState();
    } else if (mSet){
      const id = mSet[1];
      if (L.campaign.scenes.some(s=>s.id===id)){ L.campaign.currentSceneId = id; send(`Scene set: ${id}`); emitState(); }
      else socket.emit('error_message','Scene not found.');
    } else socket.emit('error_message','Use: /scene add <title>|<content> OR /scene set <sceneId>');
    break;
  }
  case 'consent': {
    if (!gm) { socket.emit('error_message','GM only.'); break; }
    if (argStr.trim() === 'force') socket.emit('consent_force'); else socket.emit('error_message','Use: /consent force');
    break;
  }
  \<close>
\<close>

definition cmd_camp :: "conn \<Rightarrow> string \<Rightarrow> string \<Rightarrow> lobby \<Rightarrow> lobby \<times> emit list" where
  "cmd_camp c nm argStr L =
     (case match_camp argStr of
        None \<Rightarrow>
          (L, [to_caller c
                 (Error_message ''Usage: /camp title <text> | /camp summary <text>'')])
      | Some (field, v) \<Rightarrow>
          if \<not> isGM c L then (L, [to_caller c (Error_message ''GM only.'')])
          else (L\<lparr>campaign :=
                    (if field = ''title'' then (campaign L)\<lparr>title := safe v 120\<rparr>
                     else (campaign L)\<lparr>summary := safe v 2000\<rparr>)\<rparr>,
                [to_room nm (System (''Campaign '' @ field @ '' updated.''))] @ emitState nm))"

definition cmd_scene :: "env \<Rightarrow> conn \<Rightarrow> string \<Rightarrow> string \<Rightarrow> lobby \<Rightarrow> lobby \<times> emit list" where
  "cmd_scene e c nm argStr L =
     (if \<not> isGM c L then (L, [to_caller c (Error_message ''GM only.'')])
      else case match_scene_add argStr of
             Some (t, ct) \<Rightarrow>
               (let sc = \<lparr>scene_id = randId e ''scn'', scene_title = safe t 120,
                          scene_content = safe ct 4000, choices = []\<rparr>
                in (L\<lparr>campaign := (campaign L)
                        \<lparr>scenes := scenes (campaign L) @ [sc],
                         currentSceneId := (if falsy (currentSceneId (campaign L))
                                            then Some (scene_id sc)
                                            else currentSceneId (campaign L))\<rparr>\<rparr>,
                    [to_room nm (System (''Scene added: '' @ scene_title sc @ '' (''
                                         @ scene_id sc @ '')''))]
                    @ emitState nm))
           | None \<Rightarrow>
               (case match_scene_set argStr of
                  Some i \<Rightarrow>
                    if list_ex (\<lambda>s. scene_id s = i) (scenes (campaign L))
                    then (L\<lparr>campaign := (campaign L)\<lparr>currentSceneId := Some i\<rparr>\<rparr>,
                          [to_room nm (System (''Scene set: '' @ i))] @ emitState nm)
                    else (L, [to_caller c (Error_message ''Scene not found.'')])
                | None \<Rightarrow>
                    (L, [to_caller c (Error_message
                            ''Use: /scene add <title>|<content> OR /scene set <sceneId>'')])))"

definition cmd_consent :: "conn \<Rightarrow> string \<Rightarrow> lobby \<Rightarrow> lobby \<times> emit list" where
  "cmd_consent c argStr L =
     (if \<not> isGM c L then (L, [to_caller c (Error_message ''GM only.'')])
      else if trim argStr = ''force'' then (L, [to_caller c Consent_force])
      else (L, [to_caller c (Error_message ''Use: /consent force'')]))"

text \<open>\<open>handleCommand(L, line)\<close>: the \<open>switch\<close> on the lower-cased command word.\<close>

definition handleCommand ::
  "env \<Rightarrow> ((string \<times> string) list \<Rightarrow> string) \<Rightarrow> conn \<Rightarrow> string \<Rightarrow> string \<Rightarrow> lobby
   \<Rightarrow> lobby \<times> emit list" where
  "handleCommand e stringify c nm line L =
     (let cmd = toLowerCase (first_word (drop 1 line));
          argStr = trim (after_first_space (drop 1 line))
      in if cmd = ''help'' then (L, [to_caller c (System help_text)])
         else if cmd = ''start'' then start_campaign c nm ''Already started.'' L
         else if cmd = ''me'' then cmd_me e c nm argStr L
         else if cmd = ''w'' then cmd_w e c argStr L
         else if cmd = ''roll'' then cmd_roll e c nm argStr L
         else if cmd = ''macro'' then cmd_macro stringify c argStr L
         else if cmd = ''setpass'' then cmd_setpass e c nm argStr L
         else if cmd = ''kick'' then cmd_kick c nm argStr L
         else if cmd = ''ban'' then cmd_ban c nm argStr L
         else if cmd = ''unban'' then cmd_unban c nm argStr L
         else if cmd = ''startencounter'' then cmd_startencounter c nm L
         else if cmd = ''setinit'' then cmd_setinit e c nm argStr L
         else if cmd = ''next'' then cmd_next c nm L
         else if cmd = ''endencounter'' then cmd_endencounter c nm L
         else if cmd = ''camp'' then cmd_camp c nm argStr L
         else if cmd = ''scene'' then cmd_scene e c nm argStr L
         else if cmd = ''consent'' then cmd_consent c argStr L
         else (L, [to_caller c (Error_message ''Unknown command. Try /help'')]))"

section \<open>Chat\<close>

text \<open>
  \<^verbatim>\<open>
  socket.on('chat', async ({text})=>{
    if (!lobby) return;
    const L = ensureLobby(lobby);
    const msg = safe(text, 500);
    if (!msg) return;
    if (msg.startsWith('/')) { await handleCommand(L, msg); return; }
    if (isLockedForPlayers(L) && !isGM(L)) { socket.emit('error_message','Campaign not started by GM yet.'); return; }
    const payload = { user: username, text: msg, ts: nowISO() };
    io.to(lobby).emit('chat', payload);
    L.messages.push(payload);
  });
  \<close>
\<close>

definition chat ::
  "env \<Rightarrow> ((string \<times> string) list \<Rightarrow> string) \<Rightarrow> conn \<Rightarrow> string \<Rightarrow> lobby \<Rightarrow> lobby \<times> emit list" where
  "chat e stringify c text L =
     (case lobby c of
        None \<Rightarrow> (L, [])
      | Some nm \<Rightarrow>
          let msg = safe text 500
          in if msg = [] then (L, [])
             else if hd msg = CHR ''/'' then handleCommand e stringify c nm msg L
             else if isLockedForPlayers L \<and> \<not> isGM c L
             then (L, [to_caller c (Error_message ''Campaign not started by GM yet.'')])
             else let payload = \<lparr>chat_user = username c, chat_text = msg, chat_ts = env_now e\<rparr>
                  in (L\<lparr>messages := messages L @ [payload]\<rparr>, [to_room nm (Chat payload)]))"

section \<open>Notions used to state the properties\<close>

text \<open>
  The lobby after a pending request \<open>p\<close> has been committed: the scene pointer stands at
  the request's target if a scene with that id exists and is left alone otherwise, and no
  request is pending. Nothing else differs, and the approval set of \<open>p\<close> plays no part.
\<close>

definition committed :: "pending \<Rightarrow> lobby \<Rightarrow> lobby" where
  "committed p L =
     L\<lparr>campaign := (campaign L)\<lparr>currentSceneId :=
          (if list_ex (\<lambda>s. scene_id s = p_to p) (scenes (campaign L)) then Some (p_to p)
           else currentSceneId (campaign L))\<rparr>,
       settings := (settings L)\<lparr>consent_pending := None\<rparr>\<rparr>"

text \<open>A run of \<open>campaign_choice_ack\<close> events, one per connection of the list, in order.\<close>

fun acks :: "conn list \<Rightarrow> lobby \<Rightarrow> lobby" where
  "acks [] L = L"
| "acks (c # cs) L = acks cs (fst (campaign_choice_ack c L))"


text \<open>
  A handler is not subject to the lock in a lobby when the flag \<open>lockedUntilStart\<close> makes
  no difference to what it does there: with the flag set either way it emits the same
  messages and leaves the same lobby, the flag apart. In particular it does in the locked
  lobby what it does in the unlocked one.
\<close>

definition with_lock :: "bool \<Rightarrow> lobby \<Rightarrow> lobby" where
  "with_lock b L = L\<lparr>settings := (settings L)\<lparr>lockedUntilStart := b\<rparr>\<rparr>"


text \<open>
  A table for concrete runs: the lobby \<open>tavern\<close> with the GM Gil and the players Rin and
  Bob, before and after the campaign has started.
\<close>

definition no_digits :: "int \<Rightarrow> string" where
  "no_digits i = []"

definition demo_env :: env where
  "demo_env =
     \<lparr>env_now = ''2024-05-01T18:00:00.000Z'', env_now_ms = 1714586400000,
      env_rnd = rnd_cycle, env_rand36 = ''k3j9x2ab1'', env_salt = ''00ff'',
      env_digits = no_digits\<rparr>"

definition no_json :: "(string \<times> string) list \<Rightarrow> string" where
  "no_json m = ''{}''"

definition gil :: conn where
  "gil = \<lparr>sid = ''s1'', username = ''Gil'', lobby = Some ''tavern''\<rparr>"

definition rin :: conn where
  "rin = \<lparr>sid = ''s2'', username = ''Rin'', lobby = Some ''tavern''\<rparr>"

definition bob :: conn where
  "bob = \<lparr>sid = ''s3'', username = ''Bob'', lobby = Some ''tavern''\<rparr>"

definition locked_lobby :: lobby where
  "locked_lobby =
     new_lobby\<lparr>gm := Some ''Gil'',
               users := [(''s1'', ''Gil''), (''s2'', ''Rin''), (''s3'', ''Bob'')]\<rparr>"

definition started_lobby :: lobby where
  "started_lobby = locked_lobby\<lparr>settings := defaultSettings\<lparr>campaignStarted := True\<rparr>\<rparr>"

definition tavern_request :: pending where
  "tavern_request =
     \<lparr>p_choiceId = ''c_intro_tavern'', p_text = ''Head to the Burnt Anvil tavern'',
      p_to = ''s_tavern'', approvals = {}, requestedAt = 1714586400000\<rparr>"

definition requested_lobby :: lobby where
  "requested_lobby =
     started_lobby\<lparr>settings := defaultSettings\<lparr>campaignStarted := True,
                                                consent_pending := Some tavern_request\<rparr>\<rparr>"

section \<open>Events and reachable lobbies\<close>

text \<open>
  The socket events of the server, with their payloads. \<open>handle\<close> is the lobby
  object after one event from a connection \<open>c\<close>; for \<open>join_lobby\<close> the lobby is the one
  being joined, for every other event the one the connection is in. A lobby is reachable
  when events lead to it from the object that \<open>ensureLobby\<close> creates; the connection of each
  event is arbitrary, which covers every value the closure variables can take.
\<close>

datatype event =
    Ev_join_lobby string "string option"
  | Ev_chat string
  | Ev_roll string
  | Ev_map_init "int option" "int option"
  | Ev_map_set "int option" "int option" bool
  | Ev_token_add string string string
  | Ev_token_move string "int option" "int option"
  | Ev_token_remove string
  | Ev_map_clear
  | Ev_ping "int option" "int option"
  | Ev_campaign_start
  | Ev_campaign_scene_set string
  | Ev_campaign_choice_request string
  | Ev_campaign_choice_ack
  | Ev_campaign_choice_force
  | Ev_character_upsert string
  | Ev_character_delete string
  | Ev_map_request
  | Ev_campaign_load "campaign option"
  | Ev_campaign_get
  | Ev_campaign_update_meta "string option" "string option"
  | Ev_campaign_scene_add string string
  | Ev_campaign_choice_add string string string
  | Ev_campaign_handout_add string string
  | Ev_campaign_quest_add string
  | Ev_campaign_quest_toggle string
  | Ev_campaign_note_add string
  | Ev_disconnect

fun handle ::
  "env \<Rightarrow> ((string \<times> string) list \<Rightarrow> string) \<Rightarrow> conn \<Rightarrow> event \<Rightarrow> lobby \<Rightarrow> lobby" where
  "handle e sf c (Ev_join_lobby n pw) L = fst (snd (join_lobby e c n pw L))"
| "handle e sf c (Ev_chat t) L = fst (chat e sf c t L)"
| "handle e sf c (Ev_roll x) L = fst (roll e c x L)"
| "handle e sf c (Ev_map_init w h) L = fst (map_init c w h L)"
| "handle e sf c (Ev_map_set x y v) L = fst (map_set_tile c x y v L)"
| "handle e sf c (Ev_token_add i n col) L = fst (token_add e c i n col L)"
| "handle e sf c (Ev_token_move i x y) L = fst (token_move c i x y L)"
| "handle e sf c (Ev_token_remove i) L = fst (token_remove c i L)"
| "handle e sf c Ev_map_clear L = fst (map_clear c L)"
| "handle e sf c (Ev_ping x y) L = fst (ping e c x y L)"
| "handle e sf c Ev_campaign_start L = fst (campaign_start c L)"
| "handle e sf c (Ev_campaign_scene_set i) L = fst (campaign_scene_set c i L)"
| "handle e sf c (Ev_campaign_choice_request i) L = fst (campaign_choice_request e c i L)"
| "handle e sf c Ev_campaign_choice_ack L = fst (campaign_choice_ack c L)"
| "handle e sf c Ev_campaign_choice_force L = fst (campaign_choice_force c L)"
| "handle e sf c (Ev_character_upsert n) L = fst (character_upsert c n L)"
| "handle e sf c (Ev_character_delete n) L = fst (character_delete c n L)"
| "handle e sf c Ev_map_request L = fst (map_request c L)"
| "handle e sf c (Ev_campaign_load p) L = fst (campaign_load c p L)"
| "handle e sf c Ev_campaign_get L = fst (campaign_get c L)"
| "handle e sf c (Ev_campaign_update_meta t s) L = fst (campaign_update_meta c t s L)"
| "handle e sf c (Ev_campaign_scene_add t ct) L = fst (campaign_scene_add e c t ct L)"
| "handle e sf c (Ev_campaign_choice_add i t d) L = fst (campaign_choice_add e c i t d L)"
| "handle e sf c (Ev_campaign_handout_add t ct) L = fst (campaign_handout_add e c t ct L)"
| "handle e sf c (Ev_campaign_quest_add t) L = fst (campaign_quest_add e c t L)"
| "handle e sf c (Ev_campaign_quest_toggle i) L = fst (campaign_quest_toggle c i L)"
| "handle e sf c (Ev_campaign_note_add t) L = fst (campaign_note_add e c t L)"
| "handle e sf c Ev_disconnect L = fst (disconnect c L)"

inductive reachable :: "lobby \<Rightarrow> bool" where
  init: "reachable new_lobby"
| step: "reachable L \<Longrightarrow> reachable (handle e sf c ev L)"

text \<open>
  The encounter invariant in the words of its description: the order is sorted by
  descending initiative, no name stands in it twice, and the turn index is a valid index
  whenever the order is not empty.
\<close>

definition enc_inv :: "encounter \<Rightarrow> bool" where
  "enc_inv E =
     (sorted_wrt (\<lambda>a b. num_le (init b) (init a)) (order E)
      \<and> distinct (map c_name (order E))
      \<and> (order E \<noteq> [] \<longrightarrow> turnIndex E < length (order E)))"

text \<open>The form that every single step keeps: with an empty order the turn index is \<open>0\<close>.\<close>

definition enc_ok :: "encounter \<Rightarrow> bool" where
  "enc_ok E =
     (sorted_wrt (\<lambda>a b. num_le (init b) (init a)) (order E)
      \<and> distinct (map c_name (order E))
      \<and> turnIndex E < max 1 (length (order E)))"

text \<open>
  Two relations between the lobby after an event and the lobby before it. \<open>keeps\<close>: the
  members, the GM and the encounter are untouched. \<open>evolves\<close>: the members are the same or
  one connection has been removed, the GM is the same or has been assigned to the caller
  while the field was falsy, and the encounter is still well-formed if it was.
\<close>

definition keeps :: "lobby \<Rightarrow> lobby \<Rightarrow> bool" where
  "keeps L' L = (users L' = users L \<and> gm L' = gm L \<and> encounter L' = encounter L)"

definition evolves :: "conn \<Rightarrow> lobby \<Rightarrow> lobby \<Rightarrow> bool" where
  "evolves c L' L =
     ((users L' = users L \<or> (\<exists>k. users L' = map_delete k (users L)))
      \<and> (gm L' = gm L \<or> (falsy (gm L) \<and> gm L' = Some (username c)))
      \<and> (enc_ok (encounter L) \<longrightarrow> enc_ok (encounter L')))"

text \<open>A run of events, each from its own connection, in order.\<close>

fun run ::
  "env \<Rightarrow> ((string \<times> string) list \<Rightarrow> string) \<Rightarrow> (conn \<times> event) list \<Rightarrow> lobby \<Rightarrow> lobby" where
  "run e sf [] L = L"
| "run e sf (ce # es) L = run e sf es (handle e sf (fst ce) (snd ce) L)"

section \<open>The server: lobbies, sockets and rooms\<close>

text \<open>
  The state of the whole server: the map \<open>memory.lobbies\<close>, the connected sockets with
  their closure variables, and the rooms of the transport as pairs of a room and a socket
  id. \<open>ensureLobby\<close> reads a lobby, which is the new object for a name without an entry.
  A socket is in the room of a lobby from its \<open>socket.join\<close> there until a \<open>socket.leave\<close>
  or its disconnection; these sockets are the connected members of the lobby, the ones
  that its broadcasts reach.
\<close>

record world =
  lobbies :: "(string \<times> lobby) list"
  sockets :: "(string \<times> conn) list"
  rooms :: "(string \<times> string) list"

definition empty_world :: world where
  "empty_world = \<lparr>lobbies = [], sockets = [], rooms = []\<rparr>"

definition ensureLobby :: "world \<Rightarrow> string \<Rightarrow> lobby" where
  "ensureLobby W nm = (case map_get (lobbies W) nm of None \<Rightarrow> new_lobby | Some L \<Rightarrow> L)"

fun room_effect :: "emit \<Rightarrow> (string \<times> string) list \<Rightarrow> (string \<times> string) list" where
  "room_effect (To_socket s, Join_room r) rs = (if (r, s) \<in> set rs then rs else rs @ [(r, s)])"
| "room_effect (To_socket s, Leave_room r) rs = filter (\<lambda>p. p \<noteq> (r, s)) rs"
| "room_effect ef rs = rs"

definition room_effects :: "emit list \<Rightarrow> (string \<times> string) list \<Rightarrow> (string \<times> string) list" where
  "room_effects out rs = foldl (\<lambda>acc ef. room_effect ef acc) rs out"

text \<open>
  An event of a socket with the closure variables \<open>c\<close>. \<open>join_lobby\<close> works on the lobby
  that it resolves from its payload, and on no other; every other handler works on the
  lobby that the variable \<open>lobby\<close> names, and returns at once when there is none. Of these
  only \<open>chat\<close> touches a room, through the command \<open>/kick\<close>. A socket that disconnects is
  gone from the server and from every room.
\<close>

definition in_lobby ::
  "env \<Rightarrow> ((string \<times> string) list \<Rightarrow> string) \<Rightarrow> conn \<Rightarrow> event \<Rightarrow> world \<Rightarrow> world" where
  "in_lobby e sf c ev W =
     (case lobby c of
        None \<Rightarrow> W
      | Some nm \<Rightarrow>
          W\<lparr>lobbies := map_set nm (handle e sf c ev (ensureLobby W nm)) (lobbies W),
            rooms := (case ev of
                        Ev_chat t \<Rightarrow> room_effects (snd (chat e sf c t (ensureLobby W nm))) (rooms W)
                      | _ \<Rightarrow> rooms W)\<rparr>)"

definition drop_socket :: "string \<Rightarrow> world \<Rightarrow> world" where
  "drop_socket s W =
     W\<lparr>sockets := map_delete s (sockets W), rooms := filter (\<lambda>p. snd p \<noteq> s) (rooms W)\<rparr>"

definition on_event ::
  "env \<Rightarrow> ((string \<times> string) list \<Rightarrow> string) \<Rightarrow> conn \<Rightarrow> event \<Rightarrow> world \<Rightarrow> world" where
  "on_event e sf c ev W =
     (case ev of
        Ev_join_lobby n pw \<Rightarrow>
          (let nm = resolve_lobbyName n;
               r = join_lobby e c n pw (ensureLobby W nm)
           in W\<lparr>lobbies := map_set nm (fst (snd r)) (lobbies W),
                sockets := map_set (sid c) (fst r) (sockets W),
                rooms := room_effects (snd (snd r)) (rooms W)\<rparr>)
      | Ev_disconnect \<Rightarrow> drop_socket (sid c) (in_lobby e sf c ev W)
      | _ \<Rightarrow> in_lobby e sf c ev W)"

text \<open>
  What reaches the server from a socket: its connection, which starts it with
  \<^verbatim>\<open>let username = 'Anon'; let lobby = null;\<close>, the event \<open>identify\<close>, which only sets
  \<open>username\<close>, and the events of a lobby.
\<close>

datatype input = Connect | Identify string | Event event

definition on_input ::
  "env \<Rightarrow> ((string \<times> string) list \<Rightarrow> string) \<Rightarrow> string \<Rightarrow> input \<Rightarrow> world \<Rightarrow> world" where
  "on_input e sf s inp W =
     (case inp of
        Connect \<Rightarrow>
          W\<lparr>sockets := map_set s \<lparr>sid = s, username = ''Anon'', lobby = None\<rparr> (sockets W)\<rparr>
      | Identify n \<Rightarrow>
          (case map_get (sockets W) s of
             None \<Rightarrow> W
           | Some c \<Rightarrow> W\<lparr>sockets := map_set s (fst (identify c n)) (sockets W)\<rparr>)
      | Event ev \<Rightarrow>
          (case map_get (sockets W) s of None \<Rightarrow> W | Some c \<Rightarrow> on_event e sf c ev W))"

fun serve ::
  "env \<Rightarrow> ((string \<times> string) list \<Rightarrow> string) \<Rightarrow> (string \<times> input) list \<Rightarrow> world \<Rightarrow> world" where
  "serve e sf [] W = W"
| "serve e sf (si # rest) W = serve e sf rest (on_input e sf (fst si) (snd si) W)"

text \<open>The connected members of a lobby, their names, and the names among them that are
  not the GM's.\<close>

definition connected :: "world \<Rightarrow> string \<Rightarrow> conn list" where
  "connected W nm = filter (\<lambda>c. (nm, sid c) \<in> set (rooms W)) (map snd (sockets W))"

definition connected_names :: "world \<Rightarrow> string \<Rightarrow> string list" where
  "connected_names W nm = map username (connected W nm)"

definition connected_players :: "world \<Rightarrow> string \<Rightarrow> string list" where
  "connected_players W nm =
     filter (\<lambda>n. Some n \<noteq> gm (ensureLobby W nm)) (connected_names W nm)"

text \<open>
  Runs of the server from its start. In \<open>tavern_run\<close> Gil, Rin and Bob connect and join
  \<open>tavern\<close>, and Gil, the first to join, starts the campaign and requests the first choice
  of the opening scene; \<open>duo_run\<close> is the same with Gil and Rin alone. Then Rin joins
  \<open>cellar\<close> or disconnects, and Bob or Gil acknowledges. In \<open>names_run\<close> Gil and Rin join
  \<open>tavern\<close> and Rin moves on to \<open>cellar\<close>.
\<close>

definition tavern_run :: "(string \<times> input) list" where
  "tavern_run =
     [(''s1'', Connect), (''s1'', Identify ''Gil''),
      (''s1'', Event (Ev_join_lobby ''tavern'' None)),
      (''s2'', Connect), (''s2'', Identify ''Rin''),
      (''s2'', Event (Ev_join_lobby ''tavern'' None)),
      (''s3'', Connect), (''s3'', Identify ''Bob''),
      (''s3'', Event (Ev_join_lobby ''tavern'' None)),
      (''s1'', Event Ev_campaign_start),
      (''s1'', Event (Ev_campaign_choice_request ''c_intro_tavern''))]"

definition duo_run :: "(string \<times> input) list" where
  "duo_run =
     [(''s1'', Connect), (''s1'', Identify ''Gil''),
      (''s1'', Event (Ev_join_lobby ''tavern'' None)),
      (''s2'', Connect), (''s2'', Identify ''Rin''),
      (''s2'', Event (Ev_join_lobby ''tavern'' None)),
      (''s1'', Event Ev_campaign_start),
      (''s1'', Event (Ev_campaign_choice_request ''c_intro_tavern''))]"

definition names_run :: "(string \<times> input) list" where
  "names_run =
     [(''s1'', Connect), (''s1'', Identify ''Gil''),
      (''s1'', Event (Ev_join_lobby ''tavern'' None)),
      (''s2'', Connect), (''s2'', Identify ''Rin''),
      (''s2'', Event (Ev_join_lobby ''tavern'' None)),
      (''s2'', Event (Ev_join_lobby ''cellar'' None))]"

definition rin_moves :: "string \<times> input" where
  "rin_moves = (''s2'', Event (Ev_join_lobby ''cellar'' None))"

definition rin_leaves :: "string \<times> input" where
  "rin_leaves = (''s2'', Event Ev_disconnect)"

definition rin_returns :: "string \<times> input" where
  "rin_returns = (''s2'', Event (Ev_join_lobby ''tavern'' None))"

definition bob_acks :: "string \<times> input" where
  "bob_acks = (''s3'', Event Ev_campaign_choice_ack)"

definition gil_acks :: "string \<times> input" where
  "gil_acks = (''s1'', Event Ev_campaign_choice_ack)"

definition gil_kicks_rin :: "string \<times> input" where
  "gil_kicks_rin = (''s1'', Event (Ev_chat ''/kick Rin''))"

text \<open>More connections for concrete runs.\<close>

definition gil_new :: conn where
  "gil_new = \<lparr>sid = ''s1'', username = ''Gil'', lobby = None\<rparr>"

definition rin_new :: conn where
  "rin_new = \<lparr>sid = ''s2'', username = ''Rin'', lobby = None\<rparr>"

definition rin_again :: conn where
  "rin_again = \<lparr>sid = ''s3'', username = ''Rin'', lobby = None\<rparr>"

definition blank_new :: conn where
  "blank_new = \<lparr>sid = ''s1'', username = [], lobby = None\<rparr>"

definition bob_new :: conn where
  "bob_new = \<lparr>sid = ''s2'', username = ''Bob'', lobby = None\<rparr>"

section \<open>Facts about numbers\<close>

lemma bit_length_bounds: "0 < n \<Longrightarrow> 2 ^ (bit_length n - 1) \<le> n \<and> n < 2 ^ bit_length n"
proof (induction n rule: bit_length.induct)
  case (1 n)
  show ?case
  proof (cases "n div 2 \<le> 0")
    case True
    with 1 have "n = 1" by simp
    then show ?thesis by (simp add: bit_length.simps [of 1] bit_length.simps [of 0])
  next
    case False
    then have pos: "0 < n div 2" by simp
    with 1 have IH: "2 ^ (bit_length (n div 2) - 1) \<le> n div 2
                     \<and> n div 2 < 2 ^ bit_length (n div 2)"
      by simp
    have bl: "bit_length n = Suc (bit_length (n div 2))"
      using 1(2) by (subst bit_length.simps) simp
    have bpos: "0 < bit_length (n div 2)"
      using pos by (subst bit_length.simps) simp
    then obtain j where j: "bit_length (n div 2) = Suc j" by (cases "bit_length (n div 2)") auto
    from IH j have "2 ^ j \<le> n div 2" "n div 2 < 2 ^ Suc j" by simp_all
    then have "2 * 2 ^ j \<le> n" "n < 2 * 2 ^ Suc j" by arith+
    then show ?thesis by (simp add: bl j)
  qed
qed

lemma round53_small: "n < 2 ^ 53 \<Longrightarrow> round53 n = n"
  by (simp add: round53_def)

text \<open>Rounding moves a number by at most half a unit of its last kept bit.\<close>

lemma round53_upper:
  assumes "2 ^ 53 \<le> n"
  shows "round53 n \<le> n + 2 ^ (bit_length n - 54) \<and> 2 ^ (bit_length n - 1) \<le> n
         \<and> 54 \<le> bit_length n"
proof -
  have "(0::int) < 2 ^ 53" by simp
  then have pos: "0 < n" using assms by (rule less_le_trans)
  from bit_length_bounds [OF pos] have b: "2 ^ (bit_length n - 1) \<le> n" "n < 2 ^ bit_length n"
    by simp_all
  have "(2::int) ^ 53 < 2 ^ bit_length n" using assms b(2) by (rule le_less_trans)
  then have bl: "53 < bit_length n" by (rule power_less_imp_less_exp [rotated]) simp
  define k where "k = bit_length n - 53"
  from bl have k: "0 < k" "bit_length n - 54 = k - 1" by (simp_all add: k_def)
  define q where "q = n div 2 ^ k"
  define r where "r = n mod 2 ^ k"
  have n: "n = q * 2 ^ k + r" unfolding q_def r_def by (rule div_mult_mod_eq [symmetric])
  have two: "(2::int) ^ k = 2 * 2 ^ (k - 1)"
    using k(1) by (cases k) simp_all
  have rpos: "0 \<le> r" by (simp add: r_def)
  have "(if 2 ^ (k - 1) < r \<or> (r = 2 ^ (k - 1) \<and> odd q) then q + 1 else q) * 2 ^ k
          \<le> n + 2 ^ (k - 1)"
  proof (cases "2 ^ (k - 1) < r \<or> (r = 2 ^ (k - 1) \<and> odd q)")
    case True
    then have "2 ^ (k - 1) \<le> r" by auto
    then have "(q + 1) * 2 ^ k \<le> q * 2 ^ k + r + 2 ^ (k - 1)"
      using two by (simp add: algebra_simps)
    with True n show ?thesis by simp
  next
    case False
    then have "(if 2 ^ (k - 1) < r \<or> (r = 2 ^ (k - 1) \<and> odd q) then q + 1 else q) = q"
      by (simp only: if_False)
    then show ?thesis using n rpos by simp
  qed
  moreover have "round53 n
      = (if 2 ^ (k - 1) < r \<or> (r = 2 ^ (k - 1) \<and> odd q) then q + 1 else q) * 2 ^ k"
    unfolding round53_def Let_def k_def q_def r_def using assms by simp
  ultimately have "round53 n \<le> n + 2 ^ (k - 1)" by (simp only:)
  with b(1) bl k show ?thesis by simp
qed

lemma round53_pos: "0 < n \<Longrightarrow> 0 < round53 n"
proof (cases "n < 2 ^ 53")
  case True
  assume "0 < n"
  with True show ?thesis by (simp add: round53_small)
next
  case False
  assume pos: "0 < n"
  from False have ge: "2 ^ 53 \<le> n" by simp
  from bit_length_bounds [OF pos] have b: "2 ^ (bit_length n - 1) \<le> n" "n < 2 ^ bit_length n"
    by simp_all
  have "(2::int) ^ 53 < 2 ^ bit_length n" using ge b(2) by (rule le_less_trans)
  then have bl: "53 < bit_length n" by (rule power_less_imp_less_exp [rotated]) simp
  define k where "k = bit_length n - 53"
  have "2 ^ k \<le> n"
  proof -
    have "(2::int) ^ k \<le> 2 ^ (bit_length n - 1)" by (rule power_increasing) (simp_all add: k_def)
    then show ?thesis using b(1) by (rule order_trans)
  qed
  then have "0 < n div 2 ^ k" by (simp add: pos_imp_zdiv_pos_iff)
  then have "0 < (if 2 ^ (k - 1) < n mod 2 ^ k \<or> (n mod 2 ^ k = 2 ^ (k - 1) \<and> odd (n div 2 ^ k))
                  then n div 2 ^ k + 1 else n div 2 ^ k) * 2 ^ k"
    by simp
  then show ?thesis using False by (simp add: round53_def Let_def k_def [symmetric])
qed

lemma round53_zero: "round53 0 = 0"
  by (simp add: round53_def)

lemma round53_nonneg: "0 \<le> n \<Longrightarrow> 0 \<le> round53 n"
  using round53_pos [of n] round53_zero by (cases "n = 0") auto

text \<open>An integer below \<open>2^53\<close> in magnitude is a double.\<close>

lemma to_number_exact: "\<bar>i\<bar> < 2 ^ 53 \<Longrightarrow> to_number i = Fin i"
proof -
  assume i: "\<bar>i\<bar> < 2 ^ 53"
  then have r: "round53 \<bar>i\<bar> = \<bar>i\<bar>" by (rule round53_small)
  have "(2::int) ^ 53 < 2 ^ 1024" by (rule power_strict_increasing) simp_all
  with i have "\<bar>i\<bar> < 2 ^ 1024" by (rule less_trans)
  then have "\<not> 2 ^ 1024 \<le> \<bar>i\<bar>" by (simp only: not_le)
  then show ?thesis unfolding to_number_def Let_def r by (simp only: if_False) simp
qed

text \<open>Rounding keeps the sign.\<close>

lemma sort_compare_to_number: "sort_compare (Some (to_number d)) = sgn d"
proof -
  have p: "0 < round53 \<bar>d\<bar>" if "d \<noteq> 0"
    using that by (intro round53_pos) simp
  show ?thesis
  proof (cases "d = 0")
    case True
    then show ?thesis by (simp add: to_number_def round53_zero Let_def)
  next
    case False
    from p [OF False] show ?thesis
      using False by (simp add: to_number_def Let_def)
  qed
qed

lemma num_le_refl: "num_le x x"
  by (cases x) simp_all

lemma num_le_total: "\<not> num_le x y \<Longrightarrow> num_le y x"
  by (cases x; cases y) simp_all

lemma num_le_trans: "num_le x y \<Longrightarrow> num_le y z \<Longrightarrow> num_le x z"
  by (cases x; cases y; cases z) simp_all

text \<open>
  The product of a random double and a whole number of sides stays below the sides, also
  after it has been rounded: \<open>m * s\<close> has more than 53 bits only when \<open>s\<close> exceeds half a
  unit of the last bit kept, and \<open>m * s + s\<close> does not exceed \<open>2^e * s\<close>.
\<close>

lemma floor_random_times_range:
  assumes r: "is_random r" and s: "1 \<le> s"
  shows "0 \<le> floor_random_times r s \<and> floor_random_times r s < int s"
proof -
  define m where "m = fst r"
  define e where "e = snd r"
  define t where "t = int s"
  from r have m: "0 \<le> m" "m < 2 ^ e" "m < 2 ^ 53"
    by (simp_all add: is_random_def m_def e_def)
  from s have t: "1 \<le> t" by (simp add: t_def)
  have le: "m * t + t \<le> 2 ^ e * t"
  proof -
    from m(2) have "m + 1 \<le> 2 ^ e" by simp
    then have "(m + 1) * t \<le> 2 ^ e * t" using t by (intro mult_right_mono) simp_all
    then show ?thesis by (simp add: algebra_simps)
  qed
  have "round53 (m * t) < m * t + t"
  proof (cases "m * t < 2 ^ 53")
    case True
    with t show ?thesis by (simp add: round53_small)
  next
    case False
    then have ge: "2 ^ 53 \<le> m * t" by simp
    let ?b = "bit_length (m * t)"
    from round53_upper [OF ge]
    have u: "round53 (m * t) \<le> m * t + 2 ^ (?b - 54)" "2 ^ (?b - 1) \<le> m * t" "54 \<le> ?b"
      by simp_all
    have "m * t < 2 ^ 53 * t" using m(3) t by (intro mult_strict_right_mono) simp_all
    with u(2) have lt: "(2::int) ^ (?b - 1) < 2 ^ 53 * t" by (rule le_less_trans)
    have eq: "(2::int) ^ (?b - 1) = 2 ^ 53 * 2 ^ (?b - 54)"
    proof -
      from u(3) have "?b - 1 = 53 + (?b - 54)" by simp
      then show ?thesis by (simp only: power_add)
    qed
    from lt [unfolded eq]
    have "(2::int) ^ (?b - 54) < t" by (rule mult_less_cancel_left_pos [THEN iffD1, rotated]) simp
    with u(1) show ?thesis by simp
  qed
  with le have lt: "round53 (m * t) < t * 2 ^ e" by (simp add: mult.commute)
  have hi: "round53 (m * t) div 2 ^ e < t"
  proof (rule ccontr)
    assume "\<not> round53 (m * t) div 2 ^ e < t"
    then have "t \<le> round53 (m * t) div 2 ^ e" by simp
    then have "t * 2 ^ e \<le> round53 (m * t) div 2 ^ e * 2 ^ e"
      by (intro mult_right_mono) simp_all
    also have "\<dots> \<le> round53 (m * t)"
    proof -
      have "0 \<le> round53 (m * t) mod 2 ^ e" by simp
      moreover have "round53 (m * t) div 2 ^ e * 2 ^ e + round53 (m * t) mod 2 ^ e
                       = round53 (m * t)"
        by (rule div_mult_mod_eq)
      ultimately show ?thesis by linarith
    qed
    finally show False using lt by simp
  qed
  have "0 \<le> m * t" using m(1) t by simp
  then have "0 \<le> round53 (m * t)" by (rule round53_nonneg)
  then have lo: "0 \<le> round53 (m * t) div 2 ^ e" by (simp add: pos_imp_zdiv_nonneg_iff)
  from lo hi show ?thesis by (simp add: floor_random_times_def m_def e_def t_def)
qed

text \<open>With \<open>Math.random()\<close> at the double nearest to \<open>0.7\<close>, the product with \<open>20\<close> rounds up to
  \<open>14\<close>.\<close>

lemma floor_random_times_rounds: "floor_random_times (6305039478318694, 53) 20 = 14"
  by code_simp

section \<open>Facts about the helpers\<close>

lemma rollAdvanced_unfold:
  "rollAdvanced rnd raw =
     (case match_DICE_ADV (normalise_expr (effective_raw raw)) of
        None \<Rightarrow> Inl ''Invalid dice. Try d20, 3d6+2, 4d6kh3, adv/dis.''
      | Some m \<Rightarrow> roll_matched rnd (effective_raw raw) m)"
proof -
  have kh: "rollAdvanced rnd ''2d20kh1'' =
      (case match_DICE_ADV ''2d20kh1'' of
        None \<Rightarrow> Inl ''Invalid dice. Try d20, 3d6+2, 4d6kh3, adv/dis.''
      | Some m \<Rightarrow> roll_matched rnd ''2d20kh1'' m)"
    by (subst rollAdvanced.simps) (simp add: normalise_2d20kh1)
  have kl: "rollAdvanced rnd ''2d20kl1'' =
      (case match_DICE_ADV ''2d20kl1'' of
        None \<Rightarrow> Inl ''Invalid dice. Try d20, 3d6+2, 4d6kh3, adv/dis.''
      | Some m \<Rightarrow> roll_matched rnd ''2d20kl1'' m)"
    by (subst rollAdvanced.simps) (simp add: normalise_2d20kl1)
  show ?thesis
    unfolding effective_raw_def
    by (subst rollAdvanced.simps) (simp add: kh kl normalise_2d20kh1 normalise_2d20kl1)
qed

text \<open>The unfolded form serves as the code equation of \<open>rollAdvanced\<close>, so that concrete
  runs evaluate without entering the recursive call.\<close>

declare rollAdvanced_unfold [code]

lemma foldl_plus_sum_list: "foldl (+) a xs = a + sum_list (xs :: int list)"
  by (induction xs arbitrary: a) auto

lemma mset_insert_cmp: "mset (insert_cmp cmp x ys) = add_mset x (mset ys)"
  by (induction ys) auto

lemma mset_js_sort: "mset (js_sort cmp xs) = mset xs"
  by (induction xs) (auto simp: js_sort_def mset_insert_cmp)

lemma set_insert_cmp: "set (insert_cmp cmp x ys) = insert x (set ys)"
  by (induction ys) auto

lemma set_js_sort: "set (js_sort cmp xs) = set xs"
  by (induction xs) (auto simp: js_sort_def set_insert_cmp)

lemma length_js_sort: "length (js_sort cmp xs) = length xs"
  using mset_js_sort [of cmp xs] by (metis size_mset)

lemma sorted_wrt_insert_cmp:
  assumes tr: "\<And>a b c. cmp a b \<le> 0 \<Longrightarrow> cmp b c \<le> 0 \<Longrightarrow> cmp a c \<le> 0"
      and tot: "\<And>a b. \<not> cmp a b \<le> 0 \<Longrightarrow> cmp b a \<le> 0"
      and srt: "sorted_wrt (\<lambda>a b. cmp a b \<le> 0) ys"
  shows "sorted_wrt (\<lambda>a b. cmp a b \<le> 0) (insert_cmp cmp x ys)"
  using srt
proof (induction ys)
  case Nil
  then show ?case by simp
next
  case (Cons y ys)
  show ?case
  proof (cases "cmp x y \<le> 0")
    case True
    have "cmp x z \<le> 0" if "z \<in> set ys" for z
    proof -
      from Cons.prems that have "cmp y z \<le> 0" by simp
      with True show ?thesis by (rule tr)
    qed
    with True Cons.prems show ?thesis by simp
  next
    case False
    then have "cmp y x \<le> 0" by (rule tot)
    moreover from Cons have "sorted_wrt (\<lambda>a b. cmp a b \<le> 0) (insert_cmp cmp x ys)" by simp
    ultimately show ?thesis using False Cons.prems by (simp add: set_insert_cmp)
  qed
qed

lemma sorted_wrt_js_sort:
  assumes tr: "\<And>a b c. cmp a b \<le> 0 \<Longrightarrow> cmp b c \<le> 0 \<Longrightarrow> cmp a c \<le> 0"
      and tot: "\<And>a b. \<not> cmp a b \<le> 0 \<Longrightarrow> cmp b a \<le> 0"
  shows "sorted_wrt (\<lambda>a b. cmp a b \<le> 0) (js_sort cmp xs)"
proof (induction xs)
  case Nil
  show ?case by (simp add: js_sort_def)
next
  case (Cons x xs)
  have "js_sort cmp (x # xs) = insert_cmp cmp x (js_sort cmp xs)"
    by (simp add: js_sort_def)
  moreover have "sorted_wrt (\<lambda>a b. cmp a b \<le> 0) (insert_cmp cmp x (js_sort cmp xs))"
    using tr tot Cons by (rule sorted_wrt_insert_cmp)
  ultimately show ?case by simp
qed

lemma insert_cmp_asc: "c \<noteq> CHR ''h'' \<Longrightarrow> insert_cmp (keep_cmp c) x ys = insort x ys"
  by (induction ys) (auto simp: keep_cmp_def)

lemma js_sort_asc: "c \<noteq> CHR ''h'' \<Longrightarrow> js_sort (keep_cmp c) xs = sort xs"
  by (induction xs) (simp_all add: js_sort_def sort_key_def insert_cmp_asc)

lemma js_sort_desc: "js_sort (keep_cmp CHR ''h'') xs = rev (sort xs)"
proof -
  have "sorted_wrt (\<lambda>a b. keep_cmp CHR ''h'' a b \<le> 0) (js_sort (keep_cmp CHR ''h'') xs)"
    by (rule sorted_wrt_js_sort) (simp_all add: keep_cmp_def)
  then have "sorted_wrt (\<lambda>a b. b \<le> a) (js_sort (keep_cmp CHR ''h'') xs)"
    by (simp add: keep_cmp_def)
  then have "sorted (rev (js_sort (keep_cmp CHR ''h'') xs))"
    by (simp add: sorted_wrt_rev)
  moreover have "mset (rev (js_sort (keep_cmp CHR ''h'') xs)) = mset xs"
    by (simp add: mset_js_sort)
  ultimately have "sort xs = rev (js_sort (keep_cmp CHR ''h'') xs)"
    by (rule properties_for_sort [rotated])
  then show ?thesis by simp
qed

lemma roll_values_length: "length (roll_values rnd cnt sds) = cnt"
  by (simp add: roll_values_def)

lemma roll_values_range:
  assumes "\<forall>k. is_random (rnd k)" and "1 \<le> sds" and "x \<in> set (roll_values rnd cnt sds)"
  shows "1 \<le> x \<and> x \<le> int sds"
proof -
  from assms(3) obtain k where x: "x = 1 + floor_random_times (rnd k) sds"
    by (auto simp: roll_values_def)
  from assms(1) have "is_random (rnd k)" by simp
  from floor_random_times_range [OF this assms(2)] x show ?thesis by simp
qed

lemma rnd_cycle_range: "\<forall>k. is_random (rnd_cycle k)"
proof
  fix k
  have "k mod 4 < (4::nat)" by simp
  then have "int (k mod 4) < 4" by (metis of_nat_less_iff of_nat_numeral)
  then show "is_random (rnd_cycle k)" by (simp add: rnd_cycle_def is_random_def)
qed

section \<open>Dice: what is rejected\<close>

lemma rollAdvanced_malformed:
  "match_DICE_ADV (normalise_expr (effective_raw raw)) = None
   \<Longrightarrow> rollAdvanced rnd raw = Inl ''Invalid dice. Try d20, 3d6+2, 4d6kh3, adv/dis.''"
  by (simp add: rollAdvanced_unfold)

lemma rollAdvanced_too_big:
  "match_DICE_ADV (normalise_expr (effective_raw raw)) = Some m
   \<Longrightarrow> num_less (Fin 100) (dice_count m) \<or> num_less (Fin 1000) (dice_sides m)
   \<Longrightarrow> rollAdvanced rnd raw = Inl ''Too big (<=100 dice, <=1000 sides).''"
  by (auto simp: rollAdvanced_unfold roll_matched_def Let_def)

lemma rollAdvanced_keep_above_count:
  "match_DICE_ADV (normalise_expr (effective_raw raw)) = Some m
   \<Longrightarrow> \<not> num_less (Fin 100) (dice_count m) \<Longrightarrow> \<not> num_less (Fin 1000) (dice_sides m)
   \<Longrightarrow> dice_keepN m = Some n \<Longrightarrow> num_less (dice_count m) n
   \<Longrightarrow> rollAdvanced rnd raw = Inl ''Keep out of range.''"
proof -
  assume a: "match_DICE_ADV (normalise_expr (effective_raw raw)) = Some m"
     "\<not> num_less (Fin 100) (dice_count m)" "\<not> num_less (Fin 1000) (dice_sides m)"
     "dice_keepN m = Some n" "num_less (dice_count m) n"
  have "num_le (Fin 1) (dice_count m)"
    by (simp add: dice_count_def num_max_def num_le_refl)
  with a(5) have "n \<noteq> Fin 0"
    by (cases "dice_count m") (auto simp: num_less_def)
  with a show ?thesis
    by (simp add: rollAdvanced_unfold roll_matched_def Let_def truthy_num_def)
qed

lemma rollAdvanced_200d6:
  "rollAdvanced rnd ''200d6'' = Inl ''Too big (<=100 dice, <=1000 sides).''"
proof -
  let ?m = "\<lparr>m1 = ''200'', m2 = ''6'', m34 = None, m5 = None\<rparr>"
  have m: "match_DICE_ADV (normalise_expr (effective_raw ''200d6'')) = Some ?m" by code_simp
  have c: "dice_count ?m = Fin 200" by code_simp
  show ?thesis by (rule rollAdvanced_too_big [OF m]) (simp add: c num_less_def)
qed

lemma rollAdvanced_d20kh2:
  "rollAdvanced rnd ''d20kh2'' = Inl ''Keep out of range.''"
proof -
  let ?m = "\<lparr>m1 = [], m2 = ''20'', m34 = Some (CHR ''h'', ''2''), m5 = None\<rparr>"
  have m: "match_DICE_ADV (normalise_expr (effective_raw ''d20kh2'')) = Some ?m" by code_simp
  have c: "dice_count ?m = Fin 1" by code_simp
  have s: "dice_sides ?m = Fin 20" by code_simp
  have k: "dice_keepN ?m = Some (Fin 2)" by code_simp
  show ?thesis
    by (rule rollAdvanced_keep_above_count [OF m _ _ k]) (simp_all add: c s num_less_def)
qed

text \<open>
  C4. \<open>rollAdvanced\<close> is to fail exactly on malformed or out-of-bounds expressions, a keep
  count outside \<open>[1, count]\<close> being out of bounds. The test \<open>keepN && (keepN < 1 || ...)\<close>
  never reaches its comparison \<open>keepN < 1\<close>, because a keep count of \<open>0\<close> is falsy: the
  expression \<open>2d6kh0\<close> is accepted, and both dice are kept. (The facts above show the
  rejections that do happen: \<open>200d6\<close> is too big, \<open>d20kh2\<close> keeps more than it rolls.)
\<close>

theorem rollAdvanced_keep_zero_accepted:
  "rollAdvanced (rnd_const (2, 2)) ''2d6kh0'' =
     Inr \<lparr>expression = ''2d6kh0'', rolls = [4, 4], used = [4, 4], modifier = Fin 0,
          total = Fin 8\<rparr>"
proof -
  let ?m = "\<lparr>m1 = ''2'', m2 = ''6'', m34 = Some (CHR ''h'', ''0''), m5 = None\<rparr>"
  have e: "effective_raw ''2d6kh0'' = ''2d6kh0''" by code_simp
  have m: "match_DICE_ADV (normalise_expr ''2d6kh0'') = Some ?m" by code_simp
  have r: "roll_matched (rnd_const (2, 2)) ''2d6kh0'' ?m =
     Inr \<lparr>expression = ''2d6kh0'', rolls = [4, 4], used = [4, 4], modifier = Fin 0,
          total = Fin 8\<rparr>"
    by code_simp
  show ?thesis by (simp add: rollAdvanced_unfold e m r)
qed

section \<open>Dice: the result of an accepted expression\<close>

text \<open>A roll where the product of \<open>Math.random()\<close> and the sides is rounded: the double
  nearest to \<open>0.7\<close> on a \<open>d20\<close> rolls \<open>15\<close>.\<close>

lemma rollAdvanced_d20_rounded:
  "rollAdvanced (rnd_const (6305039478318694, 53)) ''d20'' =
     Inr \<lparr>expression = ''d20'', rolls = [15], used = [15], modifier = Fin 0, total = Fin 15\<rparr>"
proof -
  let ?m = "\<lparr>m1 = [], m2 = ''20'', m34 = None, m5 = None\<rparr>"
  have e: "effective_raw ''d20'' = ''d20''" by code_simp
  have m: "match_DICE_ADV (normalise_expr ''d20'') = Some ?m" by code_simp
  have r: "roll_matched (rnd_const (6305039478318694, 53)) ''d20'' ?m =
     Inr \<lparr>expression = ''d20'', rolls = [15], used = [15], modifier = Fin 0, total = Fin 15\<rparr>"
    by code_simp
  show ?thesis by (simp add: rollAdvanced_unfold e m r)
qed

text \<open>
  C5, as the claim states it, fails in two places. Where the expression has no sides:
  \<open>d0\<close> passes every check and rolls a \<open>1\<close>, which is not in \<open>[1, 0]\<close>. And where the sum
  of the dice and the modifier is no double: for \<open>d1+9007199254740992\<close> the die is \<open>1\<close> and
  the modifier \<open>2^53\<close>, and the total is \<open>2^53\<close>, not \<open>2^53 + 1\<close>.
\<close>

theorem rollAdvanced_d0_counterexample:
  "dice_sides \<lparr>m1 = [], m2 = ''0'', m34 = None, m5 = None\<rparr> = Fin 0
   \<and> match_DICE_ADV (normalise_expr (effective_raw ''d0''))
       = Some \<lparr>m1 = [], m2 = ''0'', m34 = None, m5 = None\<rparr>
   \<and> rollAdvanced (rnd_const (2, 2)) ''d0'' =
       Inr \<lparr>expression = ''d0'', rolls = [1], used = [1], modifier = Fin 0, total = Fin 1\<rparr>
   \<and> rollAdvanced (rnd_const (2, 2)) ''d1+9007199254740992'' =
       Inr \<lparr>expression = ''d1+9007199254740992'', rolls = [1], used = [1],
            modifier = Fin 9007199254740992, total = Fin 9007199254740992\<rparr>"
proof -
  let ?m = "\<lparr>m1 = [], m2 = ''0'', m34 = None, m5 = None\<rparr>"
  let ?n = "\<lparr>m1 = [], m2 = ''1'', m34 = None, m5 = Some (CHR ''+'', ''9007199254740992'')\<rparr>"
  have e: "effective_raw ''d0'' = ''d0''" by code_simp
  have m: "match_DICE_ADV (normalise_expr ''d0'') = Some ?m" by code_simp
  have s: "dice_sides ?m = Fin 0" by code_simp
  have r: "roll_matched (rnd_const (2, 2)) ''d0'' ?m =
     Inr \<lparr>expression = ''d0'', rolls = [1], used = [1], modifier = Fin 0, total = Fin 1\<rparr>"
    by code_simp
  have e': "effective_raw ''d1+9007199254740992'' = ''d1+9007199254740992''" by code_simp
  have m': "match_DICE_ADV (normalise_expr ''d1+9007199254740992'') = Some ?n" by code_simp
  have r': "roll_matched (rnd_const (2, 2)) ''d1+9007199254740992'' ?n =
     Inr \<lparr>expression = ''d1+9007199254740992'', rolls = [1], used = [1],
          modifier = Fin 9007199254740992, total = Fin 9007199254740992\<rparr>"
    by code_simp
  show ?thesis by (simp add: rollAdvanced_unfold e m r s e' m' r')
qed

text \<open>
  C5, amended. Let the expression (after the aliases) match with count \<open>N \<le> 100\<close>, sides
  \<open>1 \<le> S \<le> 1000\<close>, a keep count in \<open>[1, N]\<close> when there is one, and modifier \<open>m\<close>, and let
  every value of \<open>Math.random()\<close> be a double in \<open>[0, 1)\<close>. Then \<open>rollAdvanced\<close> returns a
  result; \<open>rolls\<close> has \<open>N\<close> elements, all in \<open>[1, S]\<close>; \<open>used\<close> is \<open>rolls\<close> without a keep
  modifier, and otherwise the first keep-N elements of \<open>rolls\<close> sorted descending (\<open>kh\<close>) or
  ascending (\<open>kl\<close>); and \<open>total\<close> is the sum of \<open>used\<close> plus \<open>m\<close> as doubles add: the double
  nearest to the sum, which is the sum itself whenever that is below \<open>2^53\<close> in magnitude.
\<close>

theorem rollAdvanced_result:
  assumes rnd: "\<forall>k. is_random (rnd k)"
      and m: "match_DICE_ADV (normalise_expr (effective_raw raw)) = Some m"
      and cnt: "dice_count m = Fin N \<and> N \<le> 100"
      and sds: "dice_sides m = Fin S \<and> 1 \<le> S \<and> S \<le> 1000"
      and keep: "\<forall>k. dice_keepN m = Some k \<longrightarrow> (\<exists>K. k = Fin K \<and> 1 \<le> K \<and> K \<le> N)"
  shows "\<exists>r. rollAdvanced rnd raw = Inr r
            \<and> int (length (rolls r)) = N
            \<and> (\<forall>x\<in>set (rolls r). 1 \<le> x \<and> x \<le> S)
            \<and> used r = (case dice_keepN m of
                          None \<Rightarrow> rolls r
                        | Some k \<Rightarrow>
                            take (fin_nat k)
                              (if dice_keepMode m = Some CHR ''h'' then rev (sort (rolls r))
                               else sort (rolls r)))
            \<and> modifier r = dice_mod m
            \<and> total r = add_fin (sum_list (used r)) (dice_mod m)
            \<and> (\<forall>v. dice_mod m = Fin v \<and> \<bar>sum_list (used r) + v\<bar> < 2 ^ 53
                    \<longrightarrow> total r = Fin (sum_list (used r) + v))"
proof -
  define rs where "rs = roll_values rnd (nat N) (nat S)"
  define us where "us = (case dice_keepN m of
                          None \<Rightarrow> rs
                        | Some k \<Rightarrow>
                            take (fin_nat k)
                              (if dice_keepMode m = Some CHR ''h'' then rev (sort rs)
                               else sort rs))"
  define r where "r = \<lparr>expression = effective_raw raw, rolls = rs, used = us,
                       modifier = dice_mod m, total = add_fin (foldl (+) 0 us) (dice_mod m)\<rparr>"
  have Npos: "1 \<le> N"
  proof -
    have "num_le (Fin 1) (dice_count m)"
      by (simp add: dice_count_def num_max_def num_le_refl)
    with cnt show ?thesis by simp
  qed
  have big: "\<not> (num_less (Fin 100) (dice_count m) \<or> num_less (Fin 1000) (dice_sides m))"
    using cnt sds by (simp add: num_less_def)
  have nokeep: "\<not> (truthy_num (dice_keepN m)
                  \<and> (num_less (the (dice_keepN m)) (Fin 1)
                     \<or> num_less (dice_count m) (the (dice_keepN m))))"
  proof (cases "dice_keepN m")
    case None
    then show ?thesis by (simp add: truthy_num_def)
  next
    case (Some k)
    with keep obtain K where "k = Fin K" "1 \<le> K" "K \<le> N" by blast
    with Some cnt show ?thesis by (simp add: num_less_def)
  qed
  have us': "(if dice_keepMode m \<noteq> None \<and> truthy_num (dice_keepN m)
              then take (fin_nat (the (dice_keepN m)))
                     (js_sort (keep_cmp (the (dice_keepMode m))) rs)
              else rs) = us"
  proof (cases "m34 m")
    case None
    then show ?thesis by (simp add: us_def dice_keepMode_def dice_keepN_def truthy_num_def)
  next
    case (Some p)
    obtain hl ds where p: "p = (hl, ds)" by (cases p)
    from Some p have kn: "dice_keepN m = Some (to_number (parse_digits ds))"
      and km: "dice_keepMode m = Some hl"
      by (simp_all add: dice_keepN_def dice_keepMode_def)
    from keep kn obtain K where K: "to_number (parse_digits ds) = Fin K" "1 \<le> K" by blast
    then have t: "truthy_num (dice_keepN m)" by (simp add: kn truthy_num_def)
    show ?thesis
      using t by (simp add: us_def kn km js_sort_desc js_sort_asc)
  qed
  have fn: "fin_nat (dice_count m) = nat N" "fin_nat (dice_sides m) = nat S"
    using cnt sds by simp_all
  have "roll_matched rnd (effective_raw raw) m = Inr r"
    using big nokeep us'
    by (simp add: roll_matched_def Let_def r_def fn rs_def [symmetric])
  then have run: "rollAdvanced rnd raw = Inr r"
    by (simp add: rollAdvanced_unfold m)
  have len: "int (length (rolls r)) = N"
    using Npos by (simp add: r_def rs_def roll_values_length)
  have rng: "\<forall>x\<in>set (rolls r). 1 \<le> x \<and> x \<le> S"
  proof
    fix x
    assume "x \<in> set (rolls r)"
    then have x: "x \<in> set (roll_values rnd (nat N) (nat S))" by (simp add: r_def rs_def)
    from sds have "1 \<le> S" by simp
    then have "1 \<le> nat S" by arith
    from roll_values_range [OF rnd this x] sds show "1 \<le> x \<and> x \<le> S" by simp
  qed
  have rr: "rolls r = rs" and ur: "used r = us"
    by (simp_all add: r_def)
  have u: "used r = (case dice_keepN m of
                          None \<Rightarrow> rolls r
                        | Some k \<Rightarrow>
                            take (fin_nat k)
                              (if dice_keepMode m = Some CHR ''h'' then rev (sort (rolls r))
                               else sort (rolls r)))"
    unfolding rr ur us_def by (rule refl)
  have t: "total r = add_fin (sum_list (used r)) (dice_mod m)"
    by (simp add: r_def foldl_plus_sum_list)
  have md: "modifier r = dice_mod m" by (simp add: r_def)
  have ex: "\<forall>v. dice_mod m = Fin v \<and> \<bar>sum_list (used r) + v\<bar> < 2 ^ 53
                    \<longrightarrow> total r = Fin (sum_list (used r) + v)"
    using t by (auto simp: to_number_exact)
  from run len rng u md t ex show ?thesis by blast
qed

theorem rollAdvanced_result_witness:
  "rollAdvanced rnd_cycle ''4d6kh3+2'' =
     Inr \<lparr>expression = ''4d6kh3+2'', rolls = [1, 2, 4, 5], used = [5, 4, 2],
          modifier = Fin 2, total = Fin 13\<rparr>"
proof -
  let ?m = "\<lparr>m1 = ''4'', m2 = ''6'', m34 = Some (CHR ''h'', ''3''), m5 = Some (CHR ''+'', ''2'')\<rparr>"
  have e: "effective_raw ''4d6kh3+2'' = ''4d6kh3+2''" by code_simp
  have m: "match_DICE_ADV (normalise_expr (effective_raw ''4d6kh3+2'')) = Some ?m" by code_simp
  have c: "dice_count ?m = Fin 4" by code_simp
  have s: "dice_sides ?m = Fin 6" by code_simp
  have k: "dice_keepN ?m = Some (Fin 3)" by code_simp
  have h3: "dice_count ?m = Fin 4 \<and> (4::int) \<le> 100" by (simp add: c)
  have h4: "dice_sides ?m = Fin 6 \<and> (1::int) \<le> 6 \<and> (6::int) \<le> 1000" by (simp add: s)
  have h5: "\<forall>k. dice_keepN ?m = Some k \<longrightarrow> (\<exists>K. k = Fin K \<and> 1 \<le> K \<and> K \<le> 4)"
    by (simp add: k)
  have rm: "roll_matched rnd_cycle ''4d6kh3+2'' ?m =
     Inr \<lparr>expression = ''4d6kh3+2'', rolls = [1, 2, 4, 5], used = [5, 4, 2],
          modifier = Fin 2, total = Fin 13\<rparr>" by code_simp
  from rollAdvanced_result [OF rnd_cycle_range m h3 h4 h5]
  obtain r where r: "rollAdvanced rnd_cycle ''4d6kh3+2'' = Inr r" by blast
  moreover have "rollAdvanced rnd_cycle ''4d6kh3+2'' = roll_matched rnd_cycle ''4d6kh3+2'' ?m"
    using m by (simp add: rollAdvanced_unfold e)
  ultimately show ?thesis using rm by simp
qed

section \<open>The members of a lobby\<close>

text \<open>
  The three ways out of a lobby. A socket that disconnects and one that the GM kicks
  leave the room and lose their entry in \<open>L.users\<close>. A socket that joins another lobby
  leaves the room, and its entry in \<open>L.users\<close> stays.
\<close>

lemma ways_out_of_a_lobby:
  "connected_names (serve demo_env no_json tavern_run empty_world) ''tavern''
     = [''Gil'', ''Rin'', ''Bob'']
   \<and> user_names (ensureLobby (serve demo_env no_json tavern_run empty_world) ''tavern'')
     = [''Gil'', ''Rin'', ''Bob'']
   \<and> connected_names (serve demo_env no_json (tavern_run @ [rin_leaves]) empty_world) ''tavern''
     = [''Gil'', ''Bob'']
   \<and> user_names (ensureLobby
         (serve demo_env no_json (tavern_run @ [rin_leaves]) empty_world) ''tavern'')
     = [''Gil'', ''Bob'']
   \<and> connected_names (serve demo_env no_json (tavern_run @ [gil_kicks_rin]) empty_world)
         ''tavern''
     = [''Gil'', ''Bob'']
   \<and> user_names (ensureLobby
         (serve demo_env no_json (tavern_run @ [gil_kicks_rin]) empty_world) ''tavern'')
     = [''Gil'', ''Bob'']
   \<and> connected_names (serve demo_env no_json (tavern_run @ [rin_moves]) empty_world) ''tavern''
     = [''Gil'', ''Bob'']
   \<and> connected_names (serve demo_env no_json (tavern_run @ [rin_moves]) empty_world) ''cellar''
     = [''Rin'']
   \<and> user_names (ensureLobby
         (serve demo_env no_json (tavern_run @ [rin_moves]) empty_world) ''tavern'')
     = [''Gil'', ''Rin'', ''Bob'']"
proof -
  let ?W = "serve demo_env no_json tavern_run empty_world"
  let ?D = "serve demo_env no_json (tavern_run @ [rin_leaves]) empty_world"
  let ?K = "serve demo_env no_json (tavern_run @ [gil_kicks_rin]) empty_world"
  let ?M = "serve demo_env no_json (tavern_run @ [rin_moves]) empty_world"
  have a: "connected_names ?W ''tavern'' = [''Gil'', ''Rin'', ''Bob'']" by code_simp
  have b: "user_names (ensureLobby ?W ''tavern'') = [''Gil'', ''Rin'', ''Bob'']" by code_simp
  have c: "connected_names ?D ''tavern'' = [''Gil'', ''Bob'']" by code_simp
  have d: "user_names (ensureLobby ?D ''tavern'') = [''Gil'', ''Bob'']" by code_simp
  have e: "connected_names ?K ''tavern'' = [''Gil'', ''Bob'']" by code_simp
  have f: "user_names (ensureLobby ?K ''tavern'') = [''Gil'', ''Bob'']" by code_simp
  have g: "connected_names ?M ''tavern'' = [''Gil'', ''Bob'']" by code_simp
  have h: "connected_names ?M ''cellar'' = [''Rin'']" by code_simp
  have i: "user_names (ensureLobby ?M ''tavern'') = [''Gil'', ''Rin'', ''Bob'']" by code_simp
  show ?thesis by (simp only: a b c d e f g h i)
qed

section \<open>The consent protocol\<close>

lemma commit_pending_fst: "fst (commit_pending nm label p L) = committed p L"
  by (auto simp: commit_pending_def committed_def js_find_def find_None_iff list_ex_iff
                 find_Some_iff split: option.splits)

lemma committed_approvals:
  "committed (p\<lparr>approvals := A\<rparr>) (L\<lparr>settings := (settings L)\<lparr>consent_pending := q\<rparr>\<rparr>)
   = committed p L"
  by (simp add: committed_def)

lemma committed_no_pending: "consent_pending (settings (committed p L)) = None"
  by (simp add: committed_def)

lemma nonGM_settings: "nonGM (L\<lparr>settings := s\<rparr>) = nonGM L"
  by (simp add: nonGM_def user_names_def)

lemma ack_step:
  assumes "lobby c = Some nm" and "consent_pending (settings L) = Some p"
  shows "fst (campaign_choice_ack c L) =
           (if set (nonGM L) \<subseteq> insert (username c) (approvals p) then committed p L
            else L\<lparr>settings := (settings L)\<lparr>consent_pending :=
                     Some (p\<lparr>approvals := insert (username c) (approvals p)\<rparr>)\<rparr>\<rparr>)"
  using assms
  by (auto simp: campaign_choice_ack_def Let_def commit_pending_fst committed_approvals
                 nonGM_settings list_all_iff)

lemma ack_no_pending:
  "consent_pending (settings L) = None \<Longrightarrow> campaign_choice_ack c L = (L, [])"
  by (simp add: campaign_choice_ack_def split: option.splits)

lemma acks_no_pending: "consent_pending (settings L) = None \<Longrightarrow> acks cs L = L"
  by (induction cs) (simp_all add: ack_no_pending)

lemma ack_repeated:
  assumes nm: "lobby c = Some nm" and pend: "consent_pending (settings L) = Some p"
      and acked: "username c \<in> approvals p"
      and open_: "\<not> set (nonGM L) \<subseteq> approvals p"
  shows "campaign_choice_ack c L = (L, [])"
proof -
  have ins: "insert (username c) (approvals p) = approvals p"
    using acked by (rule insert_absorb)
  have p: "p\<lparr>approvals := approvals p\<rparr> = p" by simp
  have "(settings L)\<lparr>consent_pending := Some p\<rparr> = settings L"
    using pend by (metis settings.surjective settings.update_convs(4))
  then have L: "L\<lparr>settings := (settings L)\<lparr>consent_pending := Some p\<rparr>\<rparr> = L" by simp
  show ?thesis
    using nm pend open_
    by (auto simp: campaign_choice_ack_def Let_def ins p L list_all_iff)
qed

lemma acks_quorum:
  assumes "consent_pending (settings L) = Some p"
      and "\<forall>c\<in>set (c0 # cs). lobby c \<noteq> None"
      and "set (nonGM L) \<subseteq> approvals p \<union> username ` set (c0 # cs)"
  shows "acks (c0 # cs) L = committed p L"
  using assms
proof (induction cs arbitrary: c0 L p)
  case Nil
  then obtain nm where nm: "lobby c0 = Some nm" by auto
  from Nil have "set (nonGM L) \<subseteq> insert (username c0) (approvals p)" by auto
  with ack_step [OF nm Nil.prems(1)] show ?case by simp
next
  case (Cons c1 cs)
  then obtain nm where nm: "lobby c0 = Some nm" by auto
  show ?case
  proof (cases "set (nonGM L) \<subseteq> insert (username c0) (approvals p)")
    case True
    with ack_step [OF nm Cons.prems(1)] have "fst (campaign_choice_ack c0 L) = committed p L"
      by simp
    then have "acks (c0 # c1 # cs) L = acks (c1 # cs) (committed p L)" by simp
    also have "\<dots> = committed p L"
      by (rule acks_no_pending) (rule committed_no_pending)
    finally show ?thesis .
  next
    case False
    let ?p = "p\<lparr>approvals := insert (username c0) (approvals p)\<rparr>"
    let ?L = "L\<lparr>settings := (settings L)\<lparr>consent_pending := Some ?p\<rparr>\<rparr>"
    from False ack_step [OF nm Cons.prems(1)] have st: "fst (campaign_choice_ack c0 L) = ?L"
      by simp
    have "acks (c1 # cs) ?L = committed ?p ?L"
    proof (rule Cons.IH)
      show "consent_pending (settings ?L) = Some ?p" by simp
      show "\<forall>c\<in>set (c1 # cs). lobby c \<noteq> None" using Cons.prems(2) by simp
      show "set (nonGM ?L) \<subseteq> approvals ?p \<union> username ` set (c1 # cs)"
        using Cons.prems(3) by (auto simp: nonGM_settings)
    qed
    then show ?thesis by (simp add: st committed_approvals)
  qed
qed

text \<open>What a successful \<open>campaign_choice_request\<close> leaves behind: a pending request for the
  chosen target with an empty approval set.\<close>

lemma campaign_choice_request_pending:
  assumes "lobby c = Some nm" and "isGM c L" and "campaignStarted (settings L)"
      and "js_find (\<lambda>s. Some (scene_id s) = currentSceneId (campaign L)) (scenes (campaign L))
           = Some sc"
      and "js_find (\<lambda>ch. choice_id ch = choiceId) (choices sc) = Some ch"
  shows "fst (campaign_choice_request e c choiceId L) =
           L\<lparr>settings := (settings L)\<lparr>consent_pending :=
                Some \<lparr>p_choiceId = choice_id ch, p_text = choice_text ch, p_to = choice_to ch,
                      approvals = {}, requestedAt = env_now_ms e\<rparr>\<rparr>\<rparr>"
  using assms by (simp add: campaign_choice_request_def)

lemma demo_request:
  "fst (campaign_choice_request demo_env gil ''c_intro_tavern'' started_lobby) = requested_lobby"
  by (simp add: campaign_choice_request_def gil_def started_lobby_def locked_lobby_def
                new_lobby_def defaultSettings_def defaultCampaign_def isGM_def js_find_def
                mk_scene_def mk_choice_def requested_lobby_def tavern_request_def demo_env_def)

lemma demo_nonGM: "nonGM requested_lobby = [''Rin'', ''Bob'']"
  by (simp add: nonGM_def user_names_def requested_lobby_def started_lobby_def
                locked_lobby_def new_lobby_def)

lemma demo_pending: "consent_pending (settings requested_lobby) = Some tavern_request"
  by (simp add: requested_lobby_def)

lemma demo_committed:
  "committed tavern_request requested_lobby =
     started_lobby\<lparr>campaign := defaultCampaign\<lparr>currentSceneId := Some ''s_tavern''\<rparr>\<rparr>"
  by (simp add: committed_def requested_lobby_def started_lobby_def locked_lobby_def
                new_lobby_def defaultSettings_def defaultCampaign_def tavern_request_def
                mk_scene_def mk_choice_def)

text \<open>
  Where the entries of \<open>L.users\<close> are the connected members, the protocol does what its
  description says. Let a request \<open>p\<close> be pending (as \<open>campaign_choice_request\<close> leaves it,
  see above, or with some approvals already given). After a run of \<open>campaign_choice_ack\<close>
  events from connections of the lobby whose names, with the approvals already given,
  cover every name in \<open>L.users\<close> that is not the GM's, the lobby is the committed one: the
  scene pointer has moved to the target if a scene with that id exists and is unchanged
  otherwise, and the request is cleared. From then on every further acknowledgement
  changes nothing and emits nothing, so the transition happens once. While the quorum is
  still missing, an acknowledgement from a name that has already approved leaves the
  lobby, approval set included, as it was.
\<close>

lemma acks_of_all_entries_commit_once:
  assumes pend: "consent_pending (settings L) = Some p"
      and lob: "\<forall>c\<in>set (c0 # cs). lobby c \<noteq> None"
      and cover: "set (nonGM L) \<subseteq> approvals p \<union> username ` set (c0 # cs)"
  shows "acks (c0 # cs) L = committed p L
       \<and> currentSceneId (campaign (committed p L)) =
           (if list_ex (\<lambda>s. scene_id s = p_to p) (scenes (campaign L)) then Some (p_to p)
            else currentSceneId (campaign L))
       \<and> consent_pending (settings (committed p L)) = None
       \<and> (\<forall>c. campaign_choice_ack c (committed p L) = (committed p L, []))
       \<and> (\<forall>c. lobby c \<noteq> None \<and> username c \<in> approvals p
              \<and> \<not> set (nonGM L) \<subseteq> approvals p
              \<longrightarrow> campaign_choice_ack c L = (L, []))"
proof -
  have a: "acks (c0 # cs) L = committed p L"
    using pend lob cover by (rule acks_quorum)
  have b: "currentSceneId (campaign (committed p L)) =
           (if list_ex (\<lambda>s. scene_id s = p_to p) (scenes (campaign L)) then Some (p_to p)
            else currentSceneId (campaign L))"
    by (simp add: committed_def)
  have c: "\<forall>c. campaign_choice_ack c (committed p L) = (committed p L, [])"
    by (simp add: ack_no_pending committed_no_pending)
  have d: "\<forall>c. lobby c \<noteq> None \<and> username c \<in> approvals p
              \<and> \<not> set (nonGM L) \<subseteq> approvals p
              \<longrightarrow> campaign_choice_ack c L = (L, [])"
    using pend by (auto intro: ack_repeated)
  from a b c d show ?thesis by (simp add: committed_no_pending)
qed

text \<open>
  C1. The transition is to commit once the approvals include every currently connected
  non-GM member. The handler takes the members from \<open>L.users\<close>, and \<open>join_lobby\<close> leaves the
  entry of a socket that moves on to another lobby where it is: it calls
  \<open>socket.leave(lobby)\<close> and never \<open>L.users.delete\<close>, as \<open>disconnect\<close> and \<open>/kick\<close> do. Gil,
  Rin and Bob join \<open>tavern\<close>, Gil becomes the GM, starts the campaign and requests the
  first choice; Rin joins \<open>cellar\<close>; Bob acknowledges. The connected members of \<open>tavern\<close> are
  now Gil and Bob, and Bob, the one player among them, has approved; yet the request is
  still pending and the scene has not changed, because the name of Rin is still counted.
  Where Rin disconnects instead, the same acknowledgement commits.
\<close>

theorem consent_waits_for_moved_member:
  "connected_names
     (serve demo_env no_json (tavern_run @ [rin_moves, bob_acks]) empty_world) ''tavern''
     = [''Gil'', ''Bob'']
   \<and> connected_players
       (serve demo_env no_json (tavern_run @ [rin_moves, bob_acks]) empty_world) ''tavern''
     = [''Bob'']
   \<and> consent_pending (settings (ensureLobby
       (serve demo_env no_json (tavern_run @ [rin_moves, bob_acks]) empty_world) ''tavern''))
     = Some (tavern_request\<lparr>approvals := {''Bob''}\<rparr>)
   \<and> currentSceneId (campaign (ensureLobby
       (serve demo_env no_json (tavern_run @ [rin_moves, bob_acks]) empty_world) ''tavern''))
     = Some ''s_intro''
   \<and> nonGM (ensureLobby
       (serve demo_env no_json (tavern_run @ [rin_moves, bob_acks]) empty_world) ''tavern'')
     = [''Rin'', ''Bob'']
   \<and> consent_pending (settings (ensureLobby
       (serve demo_env no_json (tavern_run @ [rin_leaves, bob_acks]) empty_world) ''tavern''))
     = None
   \<and> currentSceneId (campaign (ensureLobby
       (serve demo_env no_json (tavern_run @ [rin_leaves, bob_acks]) empty_world) ''tavern''))
     = Some ''s_tavern''"
proof -
  let ?W = "serve demo_env no_json (tavern_run @ [rin_moves, bob_acks]) empty_world"
  let ?V = "serve demo_env no_json (tavern_run @ [rin_leaves, bob_acks]) empty_world"
  have a: "connected_names ?W ''tavern'' = [''Gil'', ''Bob'']" by code_simp
  have b: "connected_players ?W ''tavern'' = [''Bob'']" by code_simp
  have c: "consent_pending (settings (ensureLobby ?W ''tavern''))
             = Some (tavern_request\<lparr>approvals := {''Bob''}\<rparr>)" by code_simp
  have d: "currentSceneId (campaign (ensureLobby ?W ''tavern'')) = Some ''s_intro''"
    by code_simp
  have e: "nonGM (ensureLobby ?W ''tavern'') = [''Rin'', ''Bob'']" by code_simp
  have f: "consent_pending (settings (ensureLobby ?V ''tavern'')) = None" by code_simp
  have g: "currentSceneId (campaign (ensureLobby ?V ''tavern'')) = Some ''s_tavern''"
    by code_simp
  show ?thesis by (simp only: a b c d e f g)
qed

text \<open>
  C2. \<open>campaign_choice_force\<close> from the GM while a request \<open>p\<close> is pending yields the
  committed lobby (pointer moved if the target scene exists, request cleared), whatever
  the approval set of \<open>p\<close> holds; from a caller who is not the GM it changes nothing and
  sends the caller the error \<open>GM only.\<close>
\<close>

theorem campaign_choice_force_spec:
  assumes "lobby c = Some nm"
  shows "(isGM c L \<and> consent_pending (settings L) = Some p
            \<longrightarrow> fst (campaign_choice_force c L) = committed p L
                \<and> committed (p\<lparr>approvals := A\<rparr>) L = committed p L
                \<and> currentSceneId (campaign (committed p L)) =
                    (if list_ex (\<lambda>s. scene_id s = p_to p) (scenes (campaign L))
                     then Some (p_to p) else currentSceneId (campaign L))
                \<and> consent_pending (settings (committed p L)) = None)
       \<and> (\<not> isGM c L
            \<longrightarrow> campaign_choice_force c L = (L, [to_caller c (Error_message ''GM only.'')]))"
  using assms
  by (simp add: campaign_choice_force_def commit_pending_fst committed_def)

theorem campaign_choice_force_spec_witness:
  "fst (campaign_choice_force gil requested_lobby)
     = started_lobby\<lparr>campaign := defaultCampaign\<lparr>currentSceneId := Some ''s_tavern''\<rparr>\<rparr>
   \<and> campaign_choice_force rin requested_lobby
     = (requested_lobby, [(To_socket ''s2'', Error_message ''GM only.'')])"
proof -
  have g: "lobby gil = Some ''tavern''" by (simp add: gil_def)
  have r: "lobby rin = Some ''tavern''" by (simp add: rin_def)
  have ig: "isGM gil requested_lobby"
    by (simp add: isGM_def gil_def requested_lobby_def started_lobby_def locked_lobby_def)
  have ir: "\<not> isGM rin requested_lobby"
    by (simp add: isGM_def rin_def requested_lobby_def started_lobby_def locked_lobby_def)
  from campaign_choice_force_spec [OF g, of requested_lobby tavern_request "{}"] ig demo_pending
  have "fst (campaign_choice_force gil requested_lobby) = committed tavern_request requested_lobby"
    by simp
  moreover from campaign_choice_force_spec [OF r, of requested_lobby tavern_request "{}"] ir
  have "campaign_choice_force rin requested_lobby
          = (requested_lobby, [to_caller rin (Error_message ''GM only.'')])"
    by simp
  ultimately show ?thesis by (simp add: demo_committed to_caller_def rin_def)
qed

text \<open>
  \<open>campaign_choice_ack\<close> asks neither whether the caller is a member nor whether the
  caller is the GM: from any connection of the lobby it adds the caller's name to the approvals and
  commits exactly when every name in \<open>L.users\<close> that is not the GM's is then approved. So
  when \<open>L.users\<close> holds no such name, one acknowledgement, also one from the GM, commits
  the pending request and clears it.
\<close>

lemma ack_commits_iff_entries_approved:
  assumes "lobby c = Some nm" and "consent_pending (settings L) = Some p"
  shows "fst (campaign_choice_ack c L) =
           (if set (nonGM L) \<subseteq> insert (username c) (approvals p) then committed p L
            else L\<lparr>settings := (settings L)\<lparr>consent_pending :=
                     Some (p\<lparr>approvals := insert (username c) (approvals p)\<rparr>)\<rparr>\<rparr>)
       \<and> (nonGM L = [] \<longrightarrow> fst (campaign_choice_ack c L) = committed p L
                              \<and> consent_pending (settings (fst (campaign_choice_ack c L))) = None)"
  using ack_step [OF assms] by (simp add: committed_no_pending)

text \<open>
  C10. The quorum is to be taken over the non-GM names connected when the
  acknowledgement arrives, so that with no player connected a single acknowledgement,
  also the GM's, commits. It is taken over \<open>L.users\<close>, where a player who has moved on to
  another lobby still stands. Gil and Rin join \<open>tavern\<close>, Gil starts the campaign and
  requests the first choice; Rin joins \<open>cellar\<close>; Gil acknowledges. No player is connected
  to \<open>tavern\<close> any more, and the request stays pending with the approval of Gil in it.
  Where Rin disconnects instead, the acknowledgement of Gil commits.
\<close>

theorem ack_without_players_stays_pending:
  "connected_names
     (serve demo_env no_json (duo_run @ [rin_moves, gil_acks]) empty_world) ''tavern''
     = [''Gil'']
   \<and> connected_players
       (serve demo_env no_json (duo_run @ [rin_moves, gil_acks]) empty_world) ''tavern''
     = []
   \<and> gm (ensureLobby
       (serve demo_env no_json (duo_run @ [rin_moves, gil_acks]) empty_world) ''tavern'')
     = Some ''Gil''
   \<and> consent_pending (settings (ensureLobby
       (serve demo_env no_json (duo_run @ [rin_moves, gil_acks]) empty_world) ''tavern''))
     = Some (tavern_request\<lparr>approvals := {''Gil''}\<rparr>)
   \<and> currentSceneId (campaign (ensureLobby
       (serve demo_env no_json (duo_run @ [rin_moves, gil_acks]) empty_world) ''tavern''))
     = Some ''s_intro''
   \<and> consent_pending (settings (ensureLobby
       (serve demo_env no_json (duo_run @ [rin_leaves, gil_acks]) empty_world) ''tavern''))
     = None
   \<and> currentSceneId (campaign (ensureLobby
       (serve demo_env no_json (duo_run @ [rin_leaves, gil_acks]) empty_world) ''tavern''))
     = Some ''s_tavern''"
proof -
  let ?W = "serve demo_env no_json (duo_run @ [rin_moves, gil_acks]) empty_world"
  let ?V = "serve demo_env no_json (duo_run @ [rin_leaves, gil_acks]) empty_world"
  have a: "connected_names ?W ''tavern'' = [''Gil'']" by code_simp
  have b: "connected_players ?W ''tavern'' = []" by code_simp
  have c: "gm (ensureLobby ?W ''tavern'') = Some ''Gil''" by code_simp
  have d: "consent_pending (settings (ensureLobby ?W ''tavern''))
             = Some (tavern_request\<lparr>approvals := {''Gil''}\<rparr>)" by code_simp
  have e: "currentSceneId (campaign (ensureLobby ?W ''tavern'')) = Some ''s_intro''"
    by code_simp
  have f: "consent_pending (settings (ensureLobby ?V ''tavern'')) = None" by code_simp
  have g: "currentSceneId (campaign (ensureLobby ?V ''tavern'')) = Some ''s_tavern''"
    by code_simp
  show ?thesis by (simp only: a b c d e f g)
qed

section \<open>The lock before the campaign starts\<close>



























lemma locked_with_lock: "isLockedForPlayers (with_lock b L) = (b \<and> \<not> campaignStarted (settings L))"
  by (simp add: isLockedForPlayers_def with_lock_def)





























section \<open>Resizing the map\<close>

text \<open>
  C8, as the claim states it, fails for a requested dimension of \<open>0\<close>: \<open>parseInt(w||20,10)||20\<close>
  replaces it by the default \<open>20\<close> before the clamp, where clamping \<open>0\<close> into \<open>[5, 60]\<close> gives
  \<open>5\<close>.
\<close>

theorem map_init_zero_counterexample:
  "map_w (game_map (fst (map_init gil (Some 0) (Some 100) locked_lobby))) = 20
   \<and> clamp 0 5 60 = 5"
  by (simp add: map_init_def gil_def locked_lobby_def new_lobby_def isGM_def int_or_def clamp_def)

text \<open>
  C8, amended. \<open>map_init\<close> from a connection of the lobby that is not the GM leaves the
  lobby, the map included, unchanged and sends the caller \<open>GM only.\<close> From the GM, each
  requested dimension is first replaced by the default \<open>20\<close> when it is missing, not a
  number or \<open>0\<close>, and then clamped into \<open>[5, 60]\<close> (so \<open>100\<close> becomes \<open>60\<close>); the tiles become
  an all-open grid of exactly that height and width, and no token remains.
\<close>

theorem map_init_spec:
  assumes "lobby c = Some nm"
  shows "(\<not> isGM c L \<longrightarrow> map_init c w h L = (L, [to_caller c (Error_message ''GM only.'')]))
       \<and> (isGM c L \<longrightarrow>
            map_w (game_map (fst (map_init c w h L))) = clamp (int_or 20 w) 5 60
          \<and> map_h (game_map (fst (map_init c w h L))) = clamp (int_or 20 h) 5 60
          \<and> (\<forall>n. w = Some n \<and> n \<noteq> 0
                \<longrightarrow> map_w (game_map (fst (map_init c w h L))) = max 5 (min 60 n))
          \<and> (\<forall>n. h = Some n \<and> n \<noteq> 0
                \<longrightarrow> map_h (game_map (fst (map_init c w h L))) = max 5 (min 60 n))
          \<and> 5 \<le> map_w (game_map (fst (map_init c w h L)))
          \<and> map_w (game_map (fst (map_init c w h L))) \<le> 60
          \<and> 5 \<le> map_h (game_map (fst (map_init c w h L)))
          \<and> map_h (game_map (fst (map_init c w h L))) \<le> 60
          \<and> tiles (game_map (fst (map_init c w h L)))
              = replicate (nat (map_h (game_map (fst (map_init c w h L)))))
                  (replicate (nat (map_w (game_map (fst (map_init c w h L))))) 0)
          \<and> tokens (game_map (fst (map_init c w h L))) = [])"
  using assms
  by (auto simp: map_init_def Let_def clamp_def int_or_def)

theorem map_init_spec_witness:
  "game_map (fst (map_init gil (Some 100) (Some 3) locked_lobby))
     = \<lparr>map_w = 60, map_h = 5, tiles = replicate 5 (replicate 60 0), tokens = []\<rparr>
   \<and> map_init rin (Some 100) (Some 3) locked_lobby
     = (locked_lobby, [(To_socket ''s2'', Error_message ''GM only.'')])"
proof -
  have g: "lobby gil = Some ''tavern''" by (simp add: gil_def)
  have r: "lobby rin = Some ''tavern''" by (simp add: rin_def)
  have ig: "isGM gil locked_lobby" by (simp add: isGM_def gil_def locked_lobby_def)
  have ir: "\<not> isGM rin locked_lobby" by (simp add: isGM_def rin_def locked_lobby_def)
  let ?m = "game_map (fst (map_init gil (Some 100) (Some 3) locked_lobby))"
  from map_init_spec [OF g, of locked_lobby "Some 100" "Some 3"] ig
  have "map_w ?m = 60 \<and> map_h ?m = 5 \<and> tiles ?m = replicate 5 (replicate 60 0) \<and> tokens ?m = []"
    by (simp add: clamp_def int_or_def)
  then have "?m = \<lparr>map_w = 60, map_h = 5, tiles = replicate 5 (replicate 60 0), tokens = []\<rparr>"
    by (cases ?m) simp
  moreover from map_init_spec [OF r, of locked_lobby "Some 100" "Some 3"] ir
  have "map_init rin (Some 100) (Some 3) locked_lobby
          = (locked_lobby, [to_caller rin (Error_message ''GM only.'')])"
    by simp
  ultimately show ?thesis by (simp add: to_caller_def rin_def)
qed

section \<open>What each handler leaves alone\<close>

lemma keeps_refl: "keeps L L"
  by (simp add: keeps_def)

lemma do_roll_keeps: "keeps (fst (do_roll e c nm fb x L)) L"
  by (simp add: do_roll_def keeps_def Let_def split: sum.splits)

lemma roll_keeps: "keeps (fst (roll e c x L)) L"
  by (simp add: roll_def keeps_refl do_roll_keeps split: option.splits)

lemma map_init_keeps: "keeps (fst (map_init c w h L)) L"
  by (simp add: map_init_def keeps_def Let_def split: option.splits)

lemma map_set_tile_keeps: "keeps (fst (map_set_tile c x y v L)) L"
  by (simp add: map_set_tile_def keeps_def Let_def split: option.splits)

lemma token_add_keeps: "keeps (fst (token_add e c i n col L)) L"
  by (simp add: token_add_def keeps_def Let_def split: option.splits prod.splits)

lemma token_move_keeps: "keeps (fst (token_move c i x y L)) L"
  by (simp add: token_move_def keeps_def Let_def split: option.splits)

lemma token_remove_keeps: "keeps (fst (token_remove c i L)) L"
  by (simp add: token_remove_def keeps_def split: option.splits)

lemma map_clear_keeps: "keeps (fst (map_clear c L)) L"
  by (simp add: map_clear_def keeps_def split: option.splits)

lemma ping_keeps: "keeps (fst (ping e c x y L)) L"
  by (simp add: ping_def keeps_def Let_def split: option.splits)

lemma start_campaign_keeps: "keeps (fst (start_campaign c nm al L)) L"
  by (simp add: start_campaign_def keeps_def)

lemma campaign_start_keeps: "keeps (fst (campaign_start c L)) L"
  by (simp add: campaign_start_def keeps_refl start_campaign_keeps split: option.splits)

lemma campaign_scene_set_keeps: "keeps (fst (campaign_scene_set c i L)) L"
  by (simp add: campaign_scene_set_def keeps_def split: option.splits)

lemma campaign_choice_request_keeps: "keeps (fst (campaign_choice_request e c i L)) L"
  by (simp add: campaign_choice_request_def keeps_def split: option.splits)

lemma committed_keeps: "keeps (committed p L) L"
  by (simp add: committed_def keeps_def)

lemma campaign_choice_ack_keeps: "keeps (fst (campaign_choice_ack c L)) L"
proof (cases "lobby c")
  case None
  then show ?thesis by (simp add: campaign_choice_ack_def keeps_refl)
next
  case (Some nm)
  show ?thesis
  proof (cases "consent_pending (settings L)")
    case None
    then show ?thesis by (simp add: ack_no_pending keeps_refl)
  next
    case (Some p)
    from ack_step [OF \<open>lobby c = Some nm\<close> Some] show ?thesis
      by (simp add: committed_keeps) (simp add: keeps_def)
  qed
qed

lemma campaign_choice_force_keeps: "keeps (fst (campaign_choice_force c L)) L"
  by (simp add: campaign_choice_force_def keeps_refl commit_pending_fst committed_keeps
           split: option.splits)

lemma character_upsert_keeps: "keeps (fst (character_upsert c n L)) L"
  by (simp add: character_upsert_def keeps_def Let_def split: option.splits)

lemma character_delete_keeps: "keeps (fst (character_delete c n L)) L"
  by (simp add: character_delete_def keeps_def Let_def split: option.splits)

lemma map_request_keeps: "keeps (fst (map_request c L)) L"
  by (simp add: map_request_def keeps_def split: option.splits)

lemma campaign_load_keeps: "keeps (fst (campaign_load c p L)) L"
  by (simp add: campaign_load_def keeps_def split: option.splits)

lemma campaign_get_keeps: "keeps (fst (campaign_get c L)) L"
  by (simp add: campaign_get_def keeps_def split: option.splits)

lemma campaign_update_meta_keeps: "keeps (fst (campaign_update_meta c t s L)) L"
  by (simp add: campaign_update_meta_def keeps_def Let_def split: option.splits)

lemma campaign_scene_add_keeps: "keeps (fst (campaign_scene_add e c t ct L)) L"
  by (simp add: campaign_scene_add_def keeps_def Let_def split: option.splits)

lemma campaign_choice_add_keeps: "keeps (fst (campaign_choice_add e c i t d L)) L"
  by (simp add: campaign_choice_add_def keeps_def Let_def split: option.splits)

lemma campaign_handout_add_keeps: "keeps (fst (campaign_handout_add e c t ct L)) L"
  by (simp add: campaign_handout_add_def keeps_def split: option.splits)

lemma campaign_quest_add_keeps: "keeps (fst (campaign_quest_add e c t L)) L"
  by (simp add: campaign_quest_add_def keeps_def split: option.splits)

lemma campaign_quest_toggle_keeps: "keeps (fst (campaign_quest_toggle c i L)) L"
  by (simp add: campaign_quest_toggle_def keeps_def split: option.splits)

lemma campaign_note_add_keeps: "keeps (fst (campaign_note_add e c t L)) L"
  by (simp add: campaign_note_add_def keeps_def split: option.splits)

lemma cmd_me_keeps: "keeps (fst (cmd_me e c nm a L)) L"
  by (simp add: cmd_me_def keeps_refl)

lemma cmd_w_keeps: "keeps (fst (cmd_w e c a L)) L"
  by (simp add: cmd_w_def keeps_refl split: option.splits prod.splits)

lemma cmd_roll_keeps: "keeps (fst (cmd_roll e c nm a L)) L"
  by (simp add: cmd_roll_def keeps_refl do_roll_keeps)

lemma cmd_macro_keeps: "keeps (fst (cmd_macro sf c a L)) L"
  by (simp add: cmd_macro_def keeps_def Let_def split: option.splits prod.splits)

lemma cmd_ban_keeps: "keeps (fst (cmd_ban c nm a L)) L"
  by (simp add: cmd_ban_def keeps_def)

lemma cmd_unban_keeps: "keeps (fst (cmd_unban c nm a L)) L"
  by (simp add: cmd_unban_def keeps_def)

lemma cmd_camp_keeps: "keeps (fst (cmd_camp c nm a L)) L"
  by (simp add: cmd_camp_def keeps_def split: option.splits prod.splits)

lemma cmd_scene_keeps: "keeps (fst (cmd_scene e c nm a L)) L"
  by (simp add: cmd_scene_def keeps_def Let_def split: option.splits prod.splits)

lemma cmd_consent_keeps: "keeps (fst (cmd_consent c a L)) L"
  by (simp add: cmd_consent_def keeps_refl)

section \<open>Members, the GM and the encounter under each event\<close>

lemma falsy_Some: "falsy (Some g) = (g = [])"
  by (simp add: falsy_def)

lemma keeps_evolves: "keeps L' L \<Longrightarrow> evolves c L' L"
  by (simp add: keeps_def evolves_def)

lemma evolves_refl: "evolves c L L"
  by (rule keeps_evolves) (rule keeps_refl)

lemma cmd_setpass_evolves: "evolves c (fst (cmd_setpass e c nm a L)) L"
  by (simp add: evolves_def cmd_setpass_def)

lemma cmd_kick_evolves: "evolves c (fst (cmd_kick c nm a L)) L"
  unfolding evolves_def cmd_kick_def
  by (auto split: option.splits)

lemma disconnect_evolves: "evolves c (fst (disconnect c L)) L"
  unfolding evolves_def disconnect_def
  by (auto split: option.splits)

subsection \<open>The encounter commands\<close>

text \<open>The comparator of \<open>/setinit\<close> orders the combatants by their initiative, the larger
  first; two entries with the same initiative, the same infinity included, compare as
  equal.\<close>

lemma init_cmp_le: "(init_cmp a b \<le> 0) = num_le (init b) (init a)"
proof (cases "init a")
  case (Fin x)
  then show ?thesis
    by (cases "init b") (simp_all add: init_cmp_def sort_compare_to_number sgn_if)
next
  case PosInf
  then show ?thesis by (cases "init b") (simp_all add: init_cmp_def)
next
  case NegInf
  then show ?thesis by (cases "init b") (simp_all add: init_cmp_def)
qed

lemma sorted_js_sort_init:
  "sorted_wrt (\<lambda>a b. num_le (init b) (init a)) (js_sort init_cmp xs)"
proof -
  have "sorted_wrt (\<lambda>a b. init_cmp a b \<le> 0) (js_sort init_cmp xs)"
  proof (rule sorted_wrt_js_sort)
    fix a b c :: combatant
    assume "init_cmp a b \<le> 0" "init_cmp b c \<le> 0"
    then have "num_le (init c) (init b)" "num_le (init b) (init a)"
      by (simp_all add: init_cmp_le)
    then have "num_le (init c) (init a)" by (rule num_le_trans)
    then show "init_cmp a c \<le> 0" by (simp add: init_cmp_le)
  next
    fix a b :: combatant
    assume "\<not> init_cmp a b \<le> 0"
    then have "\<not> num_le (init b) (init a)" by (simp add: init_cmp_le)
    then have "num_le (init a) (init b)" by (rule num_le_total)
    then show "init_cmp b a \<le> 0" by (simp add: init_cmp_le)
  qed
  then show ?thesis by (simp add: init_cmp_le)
qed

lemma names_upsert_init:
  "set (map c_name (upsert_init n v xs)) = insert n (set (map c_name xs))"
  by (induction xs) auto

lemma distinct_upsert_init:
  "distinct (map c_name xs) \<Longrightarrow> distinct (map c_name (upsert_init n v xs))"
proof (induction xs)
  case Nil
  then show ?case by simp
next
  case (Cons x xs)
  show ?case
  proof (cases "c_name x = n")
    case True
    with Cons.prems show ?thesis by simp
  next
    case False
    from Cons have "distinct (map c_name (upsert_init n v xs))" by simp
    moreover have "c_name x \<notin> set (map c_name (upsert_init n v xs))"
      using Cons.prems False by (simp only: names_upsert_init) simp
    ultimately show ?thesis using False by simp
  qed
qed

lemma length_upsert_init:
  "length (upsert_init n v xs) = (if n \<in> set (map c_name xs) then length xs else Suc (length xs))"
  by (induction xs) auto

lemma upsert_init_value: "\<exists>x \<in> set (upsert_init n v xs). c_name x = n \<and> init x = v"
  by (induction xs) auto

lemma distinct_names_js_sort:
  "distinct (map c_name (js_sort cmp xs)) = distinct (map c_name xs)"
proof -
  have "mset (map c_name (js_sort cmp xs)) = mset (map c_name xs)"
    by (simp add: mset_js_sort)
  then show ?thesis by (rule mset_eq_imp_distinct_iff)
qed

lemma cmd_startencounter_evolves: "evolves c (fst (cmd_startencounter c nm L)) L"
  unfolding evolves_def cmd_startencounter_def
  by (auto simp: enc_ok_def)

lemma cmd_endencounter_evolves: "evolves c (fst (cmd_endencounter c nm L)) L"
  unfolding evolves_def cmd_endencounter_def
  by (auto simp: enc_ok_def)

lemma enc_ok_setinit:
  assumes "enc_ok E"
  shows "enc_ok (E\<lparr>order := js_sort init_cmp (upsert_init n v (order E))\<rparr>)"
proof -
  have len: "length (order E) \<le> length (upsert_init n v (order E))"
    by (simp add: length_upsert_init)
  have "upsert_init n v (order E) \<noteq> []"
    by (cases "order E") simp_all
  then have pos: "0 < length (upsert_init n v (order E))" by simp
  from assms have "turnIndex E < max 1 (length (order E))" by (simp add: enc_ok_def)
  with len pos have "turnIndex E < max 1 (length (upsert_init n v (order E)))" by simp
  moreover from assms have "distinct (map c_name (upsert_init n v (order E)))"
    by (simp add: enc_ok_def distinct_upsert_init)
  ultimately show ?thesis
    by (simp add: enc_ok_def sorted_js_sort_init distinct_names_js_sort length_js_sort)
qed

lemma cmd_setinit_evolves: "evolves c (fst (cmd_setinit e c nm a L)) L"
  unfolding evolves_def cmd_setinit_def
  by (auto simp: enc_ok_setinit split: option.splits)

lemma enc_ok_next:
  assumes "enc_ok E" and "order E \<noteq> []"
  shows "enc_ok (E\<lparr>turnIndex := Suc (turnIndex E) mod length (order E)\<rparr>)"
proof -
  from assms(2) have "0 < length (order E)" by simp
  then have "Suc (turnIndex E) mod length (order E) < length (order E)" by simp
  then have "Suc (turnIndex E) mod length (order E) < max 1 (length (order E))" by simp
  with assms(1) show ?thesis by (simp add: enc_ok_def)
qed

lemma cmd_next_evolves: "evolves c (fst (cmd_next c nm L)) L"
  unfolding evolves_def cmd_next_def
  by (auto simp: enc_ok_next Let_def)

subsection \<open>Commands, chat and the other events\<close>

lemma handleCommand_evolves: "evolves c (fst (handleCommand e sf c nm line L)) L"
  unfolding handleCommand_def Let_def
  by (simp add: evolves_refl keeps_evolves start_campaign_keeps cmd_me_keeps cmd_w_keeps
        cmd_roll_keeps cmd_macro_keeps cmd_setpass_evolves cmd_kick_evolves cmd_ban_keeps
        cmd_unban_keeps cmd_startencounter_evolves cmd_setinit_evolves cmd_next_evolves
        cmd_endencounter_evolves cmd_camp_keeps cmd_scene_keeps cmd_consent_keeps)

lemma chat_evolves: "evolves c (fst (chat e sf c t L)) L"
proof (cases "lobby c")
  case None
  then show ?thesis by (simp add: chat_def evolves_refl)
next
  case (Some nm)
  have "keeps (L\<lparr>messages := m\<rparr>) L" for m by (simp add: keeps_def)
  then show ?thesis
    using Some by (simp add: chat_def Let_def evolves_refl handleCommand_evolves keeps_evolves)
qed

lemma handle_evolves:
  assumes "\<forall>n pw. ev \<noteq> Ev_join_lobby n pw"
  shows "evolves c (handle e sf c ev L) L"
  using assms
  by (cases ev)
     (simp_all add: chat_evolves disconnect_evolves keeps_evolves roll_keeps map_init_keeps
        map_set_tile_keeps token_add_keeps token_move_keeps token_remove_keeps map_clear_keeps
        ping_keeps campaign_start_keeps campaign_scene_set_keeps campaign_choice_request_keeps
        campaign_choice_ack_keeps campaign_choice_force_keeps character_upsert_keeps
        character_delete_keeps map_request_keeps campaign_load_keeps campaign_get_keeps
        campaign_update_meta_keeps campaign_scene_add_keeps campaign_choice_add_keeps
        campaign_handout_add_keeps campaign_quest_add_keeps campaign_quest_toggle_keeps
        campaign_note_add_keeps)

lemma reachable_run: "reachable L \<Longrightarrow> reachable (run e sf es L)"
  by (induction es arbitrary: L) (simp_all add: reachable.step)

section \<open>Display names\<close>

lemma uniqueName_loop_spec:
  "i \<le> uniqueName_loop names base i
   \<and> base @ string_of_nat (uniqueName_loop names base i) \<notin> set names
   \<and> (\<forall>j. i \<le> j \<and> j < uniqueName_loop names base i \<longrightarrow> base @ string_of_nat j \<in> set names)"
proof (induction names base i rule: uniqueName_loop.induct)
  case (1 names base i)
  show ?case
  proof (cases "base @ string_of_nat i \<in> set names")
    case False
    then have "uniqueName_loop names base i = i"
      by (subst uniqueName_loop.simps) simp
    with False show ?thesis by auto
  next
    case True
    note IH = "1.IH" [OF True]
    have eq: "uniqueName_loop names base i = uniqueName_loop names base (Suc i)"
      using True by (subst uniqueName_loop.simps) simp
    have "\<forall>j. i \<le> j \<and> j < uniqueName_loop names base (Suc i)
              \<longrightarrow> base @ string_of_nat j \<in> set names"
    proof (intro allI impI)
      fix j
      assume j: "i \<le> j \<and> j < uniqueName_loop names base (Suc i)"
      show "base @ string_of_nat j \<in> set names"
      proof (cases "j = i")
        case True
        with \<open>base @ string_of_nat i \<in> set names\<close> show ?thesis by simp
      next
        case False
        with j have "Suc i \<le> j \<and> j < uniqueName_loop names base (Suc i)" by simp
        with IH show ?thesis by blast
      qed
    qed
    with IH show ?thesis unfolding eq by auto
  qed
qed

lemma uniqueName_fresh: "uniqueName L base \<notin> set (user_names L)"
  using uniqueName_loop_spec [of 2 "user_names L" base]
  by (simp add: uniqueName_def Let_def)

lemma uniqueName_unused:
  "base \<noteq> [] \<Longrightarrow> base \<notin> set (user_names L) \<Longrightarrow> uniqueName L base = base"
  by (simp add: uniqueName_def)

lemma uniqueName_suffix:
  assumes "base \<noteq> []" and "base \<in> set (user_names L)"
  shows "\<exists>i. 2 \<le> i \<and> uniqueName L base = base @ string_of_nat i
             \<and> (\<forall>j. 2 \<le> j \<and> j < i \<longrightarrow> base @ string_of_nat j \<in> set (user_names L))"
proof -
  let ?i = "uniqueName_loop (user_names L) base 2"
  from assms have "uniqueName L base = base @ string_of_nat ?i"
    by (simp add: uniqueName_def)
  with uniqueName_loop_spec [of 2 "user_names L" base] show ?thesis by blast
qed

lemma uniqueName_gm: "uniqueName (L\<lparr>gm := g\<rparr>) base = uniqueName L base"
proof -
  have "user_names (L\<lparr>gm := g\<rparr>) = user_names L" by (simp add: user_names_def)
  then show ?thesis by (simp only: uniqueName_def)
qed

lemma uniqueName_passwordHash: "uniqueName (L\<lparr>passwordHash := h\<rparr>) base = uniqueName L base"
proof -
  have "user_names (L\<lparr>passwordHash := h\<rparr>) = user_names L" by (simp add: user_names_def)
  then show ?thesis by (simp only: uniqueName_def)
qed

lemma names_map_set: "set (map snd (map_set k v m)) \<subseteq> insert v (set (map snd m))"
proof (induction m)
  case Nil
  show ?case by simp
next
  case (Cons x m)
  obtain k' v' where x: "x = (k', v')" by (cases x)
  show ?case using Cons x by (cases "k' = k") auto
qed

lemma distinct_names_map_set:
  "v \<notin> set (map snd m) \<Longrightarrow> distinct (map snd m) \<Longrightarrow> distinct (map snd (map_set k v m))"
proof (induction m)
  case Nil
  then show ?case by simp
next
  case (Cons x m)
  obtain k' v' where x: "x = (k', v')" by (cases x)
  show ?case
  proof (cases "k' = k")
    case True
    with Cons.prems x show ?thesis by simp
  next
    case False
    from Cons have d: "distinct (map snd (map_set k v m))" by simp
    from Cons.prems x have "v' \<noteq> v" and "v' \<notin> set (map snd m)" by auto
    with names_map_set [of k v m] have "v' \<notin> set (map snd (map_set k v m))" by auto
    with d False x show ?thesis by simp
  qed
qed

lemma distinct_names_map_delete:
  "distinct (map snd m) \<Longrightarrow> distinct (map snd (map_delete k m))"
  by (simp add: map_delete_def distinct_map_filter)

lemma join_enter_users:
  "users (fst (snd (join_enter c nm L))) = map_set (sid c) (uniqueName L (username c)) (users L)
   \<and> username (fst (join_enter c nm L)) = uniqueName L (username c)
   \<and> gm (fst (snd (join_enter c nm L))) = gm L
   \<and> encounter (fst (snd (join_enter c nm L))) = encounter L"
  by (simp add: join_enter_def Let_def)

text \<open>A join either is refused, with an error to the caller and nothing changed, or enters
  the connection under the name that \<open>uniqueName\<close> gives.\<close>

lemma join_lobby_cases:
  "(\<exists>err. join_lobby e c n pw L = (c, L, [to_caller c (Error_message err)]))
   \<or> (username (fst (join_lobby e c n pw L)) = uniqueName L (username c)
      \<and> users (fst (snd (join_lobby e c n pw L)))
          = map_set (sid c) (uniqueName L (username c)) (users L))"
  by (auto simp: join_lobby_def Let_def join_enter_users uniqueName_gm uniqueName_passwordHash
           split: option.splits)

lemma join_lobby_encounter:
  "encounter (fst (snd (join_lobby e c n pw L))) = encounter L"
  by (simp add: join_lobby_def Let_def join_enter_users split: option.splits)

lemma join_lobby_gm:
  "gm (fst (snd (join_lobby e c n pw L))) = gm L
   \<or> (falsy (gm L) \<and> gm (fst (snd (join_lobby e c n pw L))) = Some (username c))"
  by (simp add: join_lobby_def Let_def join_enter_users split: option.splits)

lemma join_lobby_distinct:
  assumes "distinct (user_names L)"
  shows "distinct (user_names (fst (snd (join_lobby e c n pw L))))"
proof -
  from join_lobby_cases [of e c n pw L] show ?thesis
  proof
    assume "\<exists>err. join_lobby e c n pw L = (c, L, [to_caller c (Error_message err)])"
    with assms show ?thesis by auto
  next
    assume "username (fst (join_lobby e c n pw L)) = uniqueName L (username c)
      \<and> users (fst (snd (join_lobby e c n pw L)))
          = map_set (sid c) (uniqueName L (username c)) (users L)"
    then have "user_names (fst (snd (join_lobby e c n pw L)))
                 = map snd (map_set (sid c) (uniqueName L (username c)) (users L))"
      by (simp add: user_names_def)
    moreover have "distinct (map snd (map_set (sid c) (uniqueName L (username c)) (users L)))"
      using uniqueName_fresh [of L "username c"] assms
      by (intro distinct_names_map_set) (simp_all add: user_names_def)
    ultimately show ?thesis by simp
  qed
qed

lemma handle_distinct:
  assumes "distinct (user_names L)"
  shows "distinct (user_names (handle e sf c ev L))"
proof (cases "\<exists>n pw. ev = Ev_join_lobby n pw")
  case True
  with assms show ?thesis by (auto simp: join_lobby_distinct)
next
  case False
  then have "evolves c (handle e sf c ev L) L" by (intro handle_evolves) simp
  then have "users (handle e sf c ev L) = users L
             \<or> (\<exists>k. users (handle e sf c ev L) = map_delete k (users L))"
    by (simp add: evolves_def)
  with assms show ?thesis
    by (auto simp: user_names_def distinct_names_map_delete)
qed

lemma reachable_distinct: "reachable L \<Longrightarrow> distinct (user_names L)"
proof (induction rule: reachable.induct)
  case init
  show ?case by (simp add: user_names_def new_lobby_def)
next
  case (step L e sf c ev)
  then show ?case by (simp add: handle_distinct)
qed

text \<open>
  Over the entries of \<open>L.users\<close> the names are what their description says: a non-empty
  candidate that no entry holds is assigned as it is, one that an entry holds gets the
  smallest suffix from \<open>2\<close> on that makes an unused name, the assigned name is always one
  that no entry holds, and so the names in \<open>L.users\<close> stay pairwise distinct in every
  reachable lobby. The empty candidate, which \<open>identify\<close> yields for a name of spaces,
  becomes \<open>Anon\<close>, and \<open>2\<close> when an entry holds \<open>Anon\<close>, because the loop appends to the
  candidate and not to the placeholder.
\<close>

lemma uniqueName_over_entries:
  "(base \<noteq> [] \<and> base \<notin> set (user_names L) \<longrightarrow> uniqueName L base = base)
   \<and> (base \<noteq> [] \<and> base \<in> set (user_names L) \<longrightarrow>
        (\<exists>i. 2 \<le> i \<and> uniqueName L base = base @ string_of_nat i
             \<and> (\<forall>j. 2 \<le> j \<and> j < i \<longrightarrow> base @ string_of_nat j \<in> set (user_names L))))
   \<and> uniqueName L base \<notin> set (user_names L)
   \<and> (distinct (user_names L) \<longrightarrow> distinct (user_names (fst (snd (join_lobby e c n pw L)))))
   \<and> (reachable L \<longrightarrow> distinct (user_names L))"
proof (intro conjI impI)
  show "uniqueName L base = base" if "base \<noteq> [] \<and> base \<notin> set (user_names L)"
    using that by (simp add: uniqueName_unused)
  show "\<exists>i. 2 \<le> i \<and> uniqueName L base = base @ string_of_nat i
             \<and> (\<forall>j. 2 \<le> j \<and> j < i \<longrightarrow> base @ string_of_nat j \<in> set (user_names L))"
    if "base \<noteq> [] \<and> base \<in> set (user_names L)"
    using that by (intro uniqueName_suffix) simp_all
  show "uniqueName L base \<notin> set (user_names L)" by (rule uniqueName_fresh)
  show "distinct (user_names (fst (snd (join_lobby e c n pw L))))" if "distinct (user_names L)"
    using that by (rule join_lobby_distinct)
  show "distinct (user_names L)" if "reachable L"
    using that by (rule reachable_distinct)
qed

lemma uniqueName_empty:
  "uniqueName new_lobby [] = ''Anon''
   \<and> uniqueName (new_lobby\<lparr>users := [(''s1'', ''Anon'')]\<rparr>) [] = ''2''"
  by code_simp

text \<open>
  C6. A connection that joins with the candidate name \<open>c\<close> is to keep \<open>c\<close> when no
  currently connected member of the lobby has it. \<open>uniqueName\<close> looks for \<open>c\<close> in \<open>L.users\<close>,
  where \<open>join_lobby\<close> leaves the entry of a socket that has moved on to another lobby. Gil
  and Rin join \<open>tavern\<close> and Rin moves on to \<open>cellar\<close>: Gil is then the one connected member
  of \<open>tavern\<close>, and the socket of Rin carries the name \<open>Rin\<close>. When it joins \<open>tavern\<close> again it
  is named \<open>Rin2\<close>, for its own old entry holds \<open>Rin\<close>.
\<close>

theorem returning_member_is_renamed:
  "connected_names (serve demo_env no_json names_run empty_world) ''tavern'' = [''Gil'']
   \<and> map_get (sockets (serve demo_env no_json names_run empty_world)) ''s2''
     = Some \<lparr>sid = ''s2'', username = ''Rin'', lobby = Some ''cellar''\<rparr>
   \<and> users (ensureLobby (serve demo_env no_json names_run empty_world) ''tavern'')
     = [(''s1'', ''Gil''), (''s2'', ''Rin'')]
   \<and> map_get (sockets (serve demo_env no_json (names_run @ [rin_returns]) empty_world)) ''s2''
     = Some \<lparr>sid = ''s2'', username = ''Rin2'', lobby = Some ''tavern''\<rparr>
   \<and> connected_names (serve demo_env no_json (names_run @ [rin_returns]) empty_world) ''tavern''
     = [''Gil'', ''Rin2'']"
proof -
  let ?W = "serve demo_env no_json names_run empty_world"
  let ?V = "serve demo_env no_json (names_run @ [rin_returns]) empty_world"
  have a: "connected_names ?W ''tavern'' = [''Gil'']" by code_simp
  have b: "map_get (sockets ?W) ''s2''
             = Some \<lparr>sid = ''s2'', username = ''Rin'', lobby = Some ''cellar''\<rparr>" by code_simp
  have c: "users (ensureLobby ?W ''tavern'') = [(''s1'', ''Gil''), (''s2'', ''Rin'')]"
    by code_simp
  have d: "map_get (sockets ?V) ''s2''
             = Some \<lparr>sid = ''s2'', username = ''Rin2'', lobby = Some ''tavern''\<rparr>" by code_simp
  have e: "connected_names ?V ''tavern'' = [''Gil'', ''Rin2'']" by code_simp
  show ?thesis by (simp only: a b c d e)
qed

section \<open>The GM of a lobby\<close>

lemma cmd_kick_gm: "gm (fst (cmd_kick c nm a L)) = gm L"
  by (simp add: cmd_kick_def split: option.splits)

lemma disconnect_gm: "gm (fst (disconnect c L)) = gm L"
  by (simp add: disconnect_def split: option.splits)

lemma cmd_encounter_gm:
  "gm (fst (cmd_startencounter c nm L)) = gm L \<and> gm (fst (cmd_setinit e c nm a L)) = gm L
   \<and> gm (fst (cmd_next c nm L)) = gm L \<and> gm (fst (cmd_endencounter c nm L)) = gm L"
  by (simp add: cmd_startencounter_def cmd_setinit_def cmd_next_def cmd_endencounter_def Let_def
           split: option.splits prod.splits)

lemma handleCommand_gm:
  assumes "toLowerCase (first_word (drop 1 line)) \<noteq> ''setpass''"
  shows "gm (fst (handleCommand e sf c nm line L)) = gm L"
proof -
  have k: "gm (fst X) = gm L" if "keeps (fst X) L" for X :: "lobby \<times> emit list"
    using that by (simp add: keeps_def)
  show ?thesis
    using assms unfolding handleCommand_def Let_def
    by (simp add: cmd_kick_gm cmd_encounter_gm k start_campaign_keeps cmd_me_keeps cmd_w_keeps
          cmd_roll_keeps cmd_macro_keeps cmd_ban_keeps cmd_unban_keeps cmd_camp_keeps
          cmd_scene_keeps cmd_consent_keeps)
qed

text \<open>Only a join and the command \<open>/setpass\<close> assign the GM, and only while the field is
  falsy; the GM is then the caller.\<close>

lemma gm_assigned_only_by_join_or_setpass:
  assumes "gm (handle e sf c ev L) \<noteq> gm L"
  shows "falsy (gm L) \<and> gm (handle e sf c ev L) = Some (username c)
         \<and> ((\<exists>n pw. ev = Ev_join_lobby n pw)
            \<or> (\<exists>t. ev = Ev_chat t \<and> toLowerCase (first_word (drop 1 (safe t 500))) = ''setpass''))"
proof (cases "\<exists>n pw. ev = Ev_join_lobby n pw")
  case True
  then obtain n pw where ev: "ev = Ev_join_lobby n pw" by blast
  with assms join_lobby_gm [of e c n pw L] show ?thesis by auto
next
  case False
  then have "evolves c (handle e sf c ev L) L" by (intro handle_evolves) simp
  with assms have a: "falsy (gm L) \<and> gm (handle e sf c ev L) = Some (username c)"
    by (auto simp: evolves_def)
  have k: "gm (fst X) = gm L" if "keeps (fst X) L" for X :: "lobby \<times> emit list"
    using that by (simp add: keeps_def)
  have "\<exists>t. ev = Ev_chat t \<and> toLowerCase (first_word (drop 1 (safe t 500))) = ''setpass''"
  proof (cases ev)
    case (Ev_chat t)
    have "toLowerCase (first_word (drop 1 (safe t 500))) = ''setpass''"
    proof (rule ccontr)
      assume n: "toLowerCase (first_word (drop 1 (safe t 500))) \<noteq> ''setpass''"
      have "gm (fst (chat e sf c t L)) = gm L"
        using handleCommand_gm [OF n]
        by (simp add: chat_def Let_def split: option.splits)
      with assms Ev_chat show False by simp
    qed
    with Ev_chat show ?thesis by simp
  qed (use assms False in \<open>simp_all add: k roll_keeps map_init_keeps map_set_tile_keeps
        token_add_keeps token_move_keeps token_remove_keeps map_clear_keeps ping_keeps
        campaign_start_keeps campaign_scene_set_keeps campaign_choice_request_keeps
        campaign_choice_ack_keeps campaign_choice_force_keeps disconnect_gm
        character_upsert_keeps character_delete_keeps map_request_keeps campaign_load_keeps
        campaign_get_keeps campaign_update_meta_keeps campaign_scene_add_keeps
        campaign_choice_add_keeps campaign_handout_add_keeps campaign_quest_add_keeps
        campaign_quest_toggle_keeps campaign_note_add_keeps\<close>)
  with a show ?thesis by simp
qed

text \<open>Once the GM is a non-empty name, no event changes or clears it.\<close>

lemma gm_nonempty_kept:
  assumes "gm L = Some g" and "g \<noteq> []"
  shows "gm (handle e sf c ev L) = Some g"
proof (rule ccontr)
  assume "gm (handle e sf c ev L) \<noteq> Some g"
  with assms have "gm (handle e sf c ev L) \<noteq> gm L" by simp
  then have "falsy (gm L)" by (rule gm_assigned_only_by_join_or_setpass [THEN conjunct1])
  with assms show False by (simp add: falsy_def)
qed

text \<open>
  C7. The GM of a lobby is to be assigned at most once. The handlers test \<open>!L.gm\<close>, which
  also holds for the empty string: \<open>identify\<close> turns a name of spaces into the empty
  username, the first join with it makes \<open>''''\<close> the GM, and the next join without a
  password replaces that GM by the newcomer. (Once the GM is a non-empty name it never
  changes, and only a join or \<open>/setpass\<close> assigns it: see the two facts above.)
\<close>

theorem gm_reassigned_after_empty_name:
  "fst (identify \<lparr>sid = ''s1'', username = ''Anon'', lobby = None\<rparr> ''  '') = blank_new
   \<and> gm (handle demo_env no_json blank_new (Ev_join_lobby ''tavern'' None) new_lobby) = Some []
   \<and> gm (handle demo_env no_json bob_new (Ev_join_lobby ''tavern'' None)
          (handle demo_env no_json blank_new (Ev_join_lobby ''tavern'' None) new_lobby))
      = Some ''Bob''"
  by code_simp

section \<open>The encounter\<close>

lemma enc_ok_inv:
  assumes "enc_ok E"
  shows "enc_inv E"
proof -
  have "turnIndex E < length (order E)" if "order E \<noteq> []"
  proof -
    from that obtain x xs where "order E = x # xs" by (cases "order E") auto
    then have "max 1 (length (order E)) = length (order E)" by simp
    with assms show ?thesis by (simp add: enc_ok_def)
  qed
  with assms show ?thesis by (simp add: enc_ok_def enc_inv_def)
qed

lemma handle_enc_ok:
  assumes "enc_ok (encounter L)"
  shows "enc_ok (encounter (handle e sf c ev L))"
proof (cases "\<exists>n pw. ev = Ev_join_lobby n pw")
  case True
  with assms show ?thesis by (auto simp: join_lobby_encounter)
next
  case False
  then have "evolves c (handle e sf c ev L) L" by (intro handle_evolves) simp
  with assms show ?thesis by (simp add: evolves_def)
qed

lemma reachable_enc_ok: "reachable L \<Longrightarrow> enc_ok (encounter L)"
proof (induction rule: reachable.induct)
  case init
  show ?case by (simp add: enc_ok_def new_lobby_def)
next
  case (step L e sf c ev)
  from step.IH show ?case by (rule handle_enc_ok)
qed

text \<open>An initiative beyond \<open>2^53\<close> is stored as the double nearest to it, and two
  combatants whose initiatives round to the same double keep the order in which they were
  entered.\<close>

lemma match_setinit_rounds:
  "match_setinit ''Orc 9007199254740993'' = Some (''Orc'', Fin 9007199254740992)"
  by code_simp

lemma setinit_tie_after_rounding:
  "order (encounter
     (run demo_env no_json
        [(gil_new, Ev_join_lobby ''tavern'' None), (gil, Ev_chat ''/startencounter''),
         (gil, Ev_chat ''/setinit Orc 9007199254740992''),
         (gil, Ev_chat ''/setinit Elf 9007199254740993'')] new_lobby))
     = [\<lparr>c_name = ''Orc'', init = Fin 9007199254740992\<rparr>,
        \<lparr>c_name = ''Elf'', init = Fin 9007199254740992\<rparr>]"
  by code_simp

lemma cmd_setinit_order:
  assumes "isGM c L" and "match_setinit a = Some (n, v)"
  shows "order (encounter (fst (cmd_setinit e c nm a L)))
           = js_sort init_cmp (upsert_init n v (order (encounter L)))"
  using assms by (simp add: cmd_setinit_def)

lemma cmd_next_turn:
  assumes "isGM c L" and "active (encounter L)" and "order (encounter L) \<noteq> []"
  shows "encounter (fst (cmd_next c nm L))
           = (encounter L)\<lparr>turnIndex :=
                (turnIndex (encounter L) + 1) mod length (order (encounter L))\<rparr>"
  using assms by (simp add: cmd_next_def Let_def)

text \<open>
  C9. In every reachable lobby the encounter order is sorted by descending initiative,
  holds each name at most once, and the turn index is a valid index when the order is not
  empty; and this still holds after each of the commands \<open>/startencounter\<close>, \<open>/setinit\<close>,
  \<open>/next\<close> and \<open>/endencounter\<close>, and after any other event. The initiative is the number
  that the server stores, the double that \<open>Number\<close> makes of the digits, an infinity
  included. An accepted \<open>/setinit n v\<close> leaves the set of names as it was with \<open>n\<close> added,
  so that the order grows by one entry exactly when \<open>n\<close> is new, and \<open>n\<close> then stands with
  the value \<open>v\<close>; an accepted \<open>/next\<close> sets the turn index to its successor modulo the length
  of the order and leaves the order alone.
\<close>

theorem encounter_invariant:
  assumes "reachable L"
  shows "enc_inv (encounter L)
       \<and> enc_inv (encounter (fst (cmd_startencounter c nm L)))
       \<and> enc_inv (encounter (fst (cmd_setinit e c nm a L)))
       \<and> enc_inv (encounter (fst (cmd_next c nm L)))
       \<and> enc_inv (encounter (fst (cmd_endencounter c nm L)))
       \<and> enc_inv (encounter (handle e sf c ev L))
       \<and> (isGM c L \<and> match_setinit a = Some (n, v) \<longrightarrow>
            set (map c_name (order (encounter (fst (cmd_setinit e c nm a L)))))
              = insert n (set (map c_name (order (encounter L))))
          \<and> length (order (encounter (fst (cmd_setinit e c nm a L))))
              = (if n \<in> set (map c_name (order (encounter L)))
                 then length (order (encounter L)) else Suc (length (order (encounter L))))
          \<and> (\<exists>x\<in>set (order (encounter (fst (cmd_setinit e c nm a L)))).
                c_name x = n \<and> init x = v))
       \<and> (isGM c L \<and> active (encounter L) \<and> order (encounter L) \<noteq> [] \<longrightarrow>
            turnIndex (encounter (fst (cmd_next c nm L)))
              = (turnIndex (encounter L) + 1) mod length (order (encounter L))
          \<and> order (encounter (fst (cmd_next c nm L))) = order (encounter L))"
proof -
  from assms have ok: "enc_ok (encounter L)" by (rule reachable_enc_ok)
  have ev: "enc_inv (encounter L')" if "evolves c L' L" for L'
    using that ok by (simp add: evolves_def enc_ok_inv)
  have a: "enc_inv (encounter L)" using ok by (rule enc_ok_inv)
  have b: "enc_inv (encounter (fst (cmd_startencounter c nm L)))"
    by (rule ev) (rule cmd_startencounter_evolves)
  have c: "enc_inv (encounter (fst (cmd_setinit e c nm a L)))"
    by (rule ev) (rule cmd_setinit_evolves)
  have d: "enc_inv (encounter (fst (cmd_next c nm L)))"
    by (rule ev) (rule cmd_next_evolves)
  have e: "enc_inv (encounter (fst (cmd_endencounter c nm L)))"
    by (rule ev) (rule cmd_endencounter_evolves)
  have f: "enc_inv (encounter (handle e sf c ev L))"
    using ok by (intro enc_ok_inv handle_enc_ok)
  have g: "set (map c_name (order (encounter (fst (cmd_setinit e c nm a L)))))
              = insert n (set (map c_name (order (encounter L))))
          \<and> length (order (encounter (fst (cmd_setinit e c nm a L))))
              = (if n \<in> set (map c_name (order (encounter L)))
                 then length (order (encounter L)) else Suc (length (order (encounter L))))
          \<and> (\<exists>x\<in>set (order (encounter (fst (cmd_setinit e c nm a L)))).
                c_name x = n \<and> init x = v)"
    if "isGM c L \<and> match_setinit a = Some (n, v)"
  proof -
    from that have o: "order (encounter (fst (cmd_setinit e c nm a L)))
           = js_sort init_cmp (upsert_init n v (order (encounter L)))"
      by (intro cmd_setinit_order) simp_all
    have s: "set (js_sort init_cmp (upsert_init n v (order (encounter L))))
               = set (upsert_init n v (order (encounter L)))"
      by (rule set_js_sort)
    have "set (map c_name (js_sort init_cmp (upsert_init n v (order (encounter L)))))
            = set (map c_name (upsert_init n v (order (encounter L))))"
      using s by simp
    then have 1: "set (map c_name (order (encounter (fst (cmd_setinit e c nm a L)))))
              = insert n (set (map c_name (order (encounter L))))"
      unfolding o by (simp only: names_upsert_init)
    have 2: "length (order (encounter (fst (cmd_setinit e c nm a L))))
              = (if n \<in> set (map c_name (order (encounter L)))
                 then length (order (encounter L)) else Suc (length (order (encounter L))))"
      unfolding o by (simp only: length_js_sort length_upsert_init)
    have 3: "\<exists>x\<in>set (order (encounter (fst (cmd_setinit e c nm a L)))). c_name x = n \<and> init x = v"
      unfolding o s by (rule upsert_init_value)
    from 1 2 3 show ?thesis by simp
  qed
  have h: "turnIndex (encounter (fst (cmd_next c nm L)))
              = (turnIndex (encounter L) + 1) mod length (order (encounter L))
          \<and> order (encounter (fst (cmd_next c nm L))) = order (encounter L)"
    if "isGM c L \<and> active (encounter L) \<and> order (encounter L) \<noteq> []"
    using that by (simp add: cmd_next_turn)
  from a b c d e f g h show ?thesis by blast
qed

theorem encounter_invariant_witness:
  "order (encounter
     (run demo_env no_json
        [(gil_new, Ev_join_lobby ''tavern'' None), (gil, Ev_chat ''/startencounter''),
         (gil, Ev_chat ''/setinit Rin 12''), (gil, Ev_chat ''/setinit Bob 15''),
         (gil, Ev_chat ''/setinit Rin 18'')] new_lobby))
     = [\<lparr>c_name = ''Rin'', init = Fin 18\<rparr>, \<lparr>c_name = ''Bob'', init = Fin 15\<rparr>]
   \<and> enc_inv (encounter
     (run demo_env no_json
        [(gil_new, Ev_join_lobby ''tavern'' None), (gil, Ev_chat ''/startencounter''),
         (gil, Ev_chat ''/setinit Rin 12''), (gil, Ev_chat ''/setinit Bob 15''),
         (gil, Ev_chat ''/setinit Rin 18''), (gil, Ev_chat ''/next''),
         (gil, Ev_chat ''/next''), (gil, Ev_chat ''/next'')] new_lobby))
   \<and> turnIndex (encounter
     (run demo_env no_json
        [(gil_new, Ev_join_lobby ''tavern'' None), (gil, Ev_chat ''/startencounter''),
         (gil, Ev_chat ''/setinit Rin 12''), (gil, Ev_chat ''/setinit Bob 15''),
         (gil, Ev_chat ''/setinit Rin 18''), (gil, Ev_chat ''/next''),
         (gil, Ev_chat ''/next''), (gil, Ev_chat ''/next'')] new_lobby))
     = 1"
proof -
  let ?L5 = "run demo_env no_json
        [(gil_new, Ev_join_lobby ''tavern'' None), (gil, Ev_chat ''/startencounter''),
         (gil, Ev_chat ''/setinit Rin 12''), (gil, Ev_chat ''/setinit Bob 15''),
         (gil, Ev_chat ''/setinit Rin 18'')] new_lobby"
  let ?L8 = "run demo_env no_json
        [(gil_new, Ev_join_lobby ''tavern'' None), (gil, Ev_chat ''/startencounter''),
         (gil, Ev_chat ''/setinit Rin 12''), (gil, Ev_chat ''/setinit Bob 15''),
         (gil, Ev_chat ''/setinit Rin 18''), (gil, Ev_chat ''/next''),
         (gil, Ev_chat ''/next''), (gil, Ev_chat ''/next'')] new_lobby"
  have r: "reachable ?L8" by (intro reachable_run reachable.init)
  from encounter_invariant [OF r] have inv: "enc_inv (encounter ?L8)" by blast
  have o: "order (encounter ?L5)
             = [\<lparr>c_name = ''Rin'', init = Fin 18\<rparr>, \<lparr>c_name = ''Bob'', init = Fin 15\<rparr>]"
    by code_simp
  have t: "turnIndex (encounter ?L8) = 1" by code_simp
  from inv o t show ?thesis by simp
qed

end
